(* ===== verification/Prelude.thy ===== *)
theory Prelude
  imports Complex_Main "HOL-Library.AList" "HOL-Library.Char_ord" "HOL-Library.List_Lexorder"
    "HOL-Library.Product_Lexorder" "HOL-Library.Multiset" "HOL-Library.Word"
begin

unbundle bit_operations_syntax

text \<open>
  Shared vocabulary of the development: Go's fixed-width integers, \<^verbatim>\<open>time.Time\<close> and
  \<^verbatim>\<open>time.Duration\<close>, byte strings, maps with an iteration order, \<^verbatim>\<open>sort.Slice\<close> and
  \<^verbatim>\<open>sort.Search\<close>, FNV-1a hashing and \<^verbatim>\<open>float64\<close> rounding, together with the generic
  lemmas the component theories rest on.
\<close>

named_theorems gomap_simps \<open>lookup after update and delete in a Go map\<close>
named_theorems wf_intros \<open>operations that keep a component's invariant\<close>

section \<open>Integers of fixed width\<close>

text \<open>Go's \<^verbatim>\<open>int\<close> and \<^verbatim>\<open>int64\<close> are 64 bits wide and wrap around; \<^verbatim>\<open>int32(x)\<close> keeps the low
  32 bits. Values are carried as \<^typ>\<open>int\<close> and the wrap-around is written where the source adds
  quantities that come from outside the process.\<close>

definition wrap64 :: "int \<Rightarrow> int" where
  "wrap64 x = signed_take_bit 63 x"

definition wrap32 :: "int \<Rightarrow> int" where
  "wrap32 x = signed_take_bit 31 x"

definition max_int64 :: int where
  "max_int64 = 2 ^ 63 - 1"

definition min_int64 :: int where
  "min_int64 = - (2 ^ 63)"

lemma wrap64_id: "min_int64 \<le> x \<Longrightarrow> x \<le> max_int64 \<Longrightarrow> wrap64 x = x"
  by (simp add: wrap64_def min_int64_def max_int64_def signed_take_bit_int_eq_self_iff)

lemma wrap32_id: "- (2 ^ 31) \<le> x \<Longrightarrow> x < 2 ^ 31 \<Longrightarrow> wrap32 x = x"
  by (simp add: wrap32_def signed_take_bit_int_eq_self_iff)

text \<open>Integer division truncates towards zero.\<close>

definition go_div :: "int \<Rightarrow> int \<Rightarrow> int" where
  "go_div a b = sgn a * sgn b * (\<bar>a\<bar> div \<bar>b\<bar>)"

lemma go_div_nonneg: "0 \<le> a \<Longrightarrow> 0 < b \<Longrightarrow> go_div a b = a div b"
  by (cases "a = 0") (simp_all add: go_div_def)

section \<open>Time\<close>

text \<open>A \<^verbatim>\<open>time.Time\<close> is the number of nanoseconds since the zero time, so \<^verbatim>\<open>IsZero\<close> is
  equality with 0. \<^verbatim>\<open>Sub\<close> saturates at the range of \<^verbatim>\<open>time.Duration\<close> (an \<^verbatim>\<open>int64\<close>).\<close>

type_synonym gotime = int
type_synonym goduration = int

definition time_is_zero :: "gotime \<Rightarrow> bool" where
  "time_is_zero t \<longleftrightarrow> t = 0"

definition time_zero :: gotime where
  "time_zero = 0"

definition time_sub :: "gotime \<Rightarrow> gotime \<Rightarrow> goduration" where
  "time_sub t u = max min_int64 (min max_int64 (t - u))"

definition time_add :: "gotime \<Rightarrow> goduration \<Rightarrow> gotime" where
  "time_add t d = t + d"

definition second :: goduration where
  "second = 1000000000"

lemma time_is_zero_zero [simp]: "time_is_zero time_zero"
  by (simp add: time_is_zero_def time_zero_def)

lemma time_sub_le_iff: "min_int64 \<le> d \<Longrightarrow> d < max_int64 \<Longrightarrow> time_sub t u \<le> d \<longleftrightarrow> t - u \<le> d"
  by (auto simp: time_sub_def)

section \<open>Strings\<close>

text \<open>Go strings are byte sequences. \<^verbatim>\<open>strings.ToLower\<close> and \<^verbatim>\<open>strings.TrimSpace\<close> are given
  on ASCII, the alphabet of image references, identifiers and headers; bytes above 127 are kept.\<close>

definition is_space :: "char \<Rightarrow> bool" where
  "is_space c \<longleftrightarrow> (of_char c :: nat) \<in> {9, 10, 11, 12, 13, 32}"

definition trim_space :: "string \<Rightarrow> string" where
  "trim_space s = rev (dropWhile is_space (rev (dropWhile is_space s)))"

definition char_lower :: "char \<Rightarrow> char" where
  "char_lower c = (if 65 \<le> (of_char c :: nat) \<and> (of_char c :: nat) \<le> 90
     then char_of ((of_char c :: nat) + 32) else c)"

definition to_lower :: "string \<Rightarrow> string" where
  "to_lower s = map char_lower s"

fun has_prefix :: "string \<Rightarrow> string \<Rightarrow> bool" where
  "has_prefix s [] = True"
| "has_prefix [] (p # ps) = False"
| "has_prefix (c # s) (p # ps) = (c = p \<and> has_prefix s ps)"

definition trim_prefix :: "string \<Rightarrow> string \<Rightarrow> string" where
  "trim_prefix s p = (if has_prefix s p then drop (length p) s else s)"

lemma has_prefix_iff: "has_prefix s p \<longleftrightarrow> (\<exists>t. s = p @ t)"
  by (induction s p rule: has_prefix.induct) auto

lemma trim_prefix_append [simp]: "trim_prefix (p @ s) p = s"
  by (auto simp: trim_prefix_def has_prefix_iff)

lemma trim_prefix_id: "\<not> has_prefix s p \<Longrightarrow> trim_prefix s p = s"
  by (simp add: trim_prefix_def)

section \<open>Maps\<close>

text \<open>A Go map is an association list with distinct keys. The list order stands for the order in
  which one \<^verbatim>\<open>range\<close> loop visits the entries, which Go leaves open: a result that must not
  depend on it is proved for every permutation.\<close>

type_synonym ('k, 'v) gomap = "('k \<times> 'v) list"

definition gm_get :: "('k, 'v) gomap \<Rightarrow> 'k \<Rightarrow> 'v option" where
  "gm_get m k = map_of m k"

definition gm_put :: "'k \<Rightarrow> 'v \<Rightarrow> ('k, 'v) gomap \<Rightarrow> ('k, 'v) gomap" where
  "gm_put k v m = AList.update k v m"

definition gm_del :: "'k \<Rightarrow> ('k, 'v) gomap \<Rightarrow> ('k, 'v) gomap" where
  "gm_del k m = AList.delete k m"

definition gm_wf :: "('k, 'v) gomap \<Rightarrow> bool" where
  "gm_wf m \<longleftrightarrow> distinct (map fst m)"

definition gm_vals :: "('k, 'v) gomap \<Rightarrow> 'v list" where
  "gm_vals m = map snd m"

definition gm_keys :: "('k, 'v) gomap \<Rightarrow> 'k list" where
  "gm_keys m = map fst m"

text \<open>What the components rely on of a map: lookup after an update or a delete, and that keys stay
  distinct. The lemmas are proved once from these laws.\<close>

locale map_contract =
  fixes get :: "'m \<Rightarrow> 'k \<Rightarrow> 'v option"
    and put :: "'k \<Rightarrow> 'v \<Rightarrow> 'm \<Rightarrow> 'm"
    and del :: "'k \<Rightarrow> 'm \<Rightarrow> 'm"
    and wf :: "'m \<Rightarrow> bool"
  assumes get_put: "get (put k v m) k' = (if k' = k then Some v else get m k')"
    and get_del: "get (del k m) k' = (if k' = k then None else get m k')"
    and wf_put: "wf m \<Longrightarrow> wf (put k v m)"
    and wf_del: "wf m \<Longrightarrow> wf (del k m)"
begin

lemma put_all:
  assumes "\<And>k' w. get m k' = Some w \<Longrightarrow> P k' w" and "P k v"
    and "get (put k v m) k' = Some w"
  shows "P k' w"
  using assms by (auto simp: get_put split: if_splits)

lemma del_all:
  assumes "\<And>k' w. get m k' = Some w \<Longrightarrow> P k' w" and "get (del k m) k' = Some w"
  shows "P k' w"
  using assms by (auto simp: get_del split: if_splits)

lemma del_put: "get (del k (put k v m)) k' = get (del k m) k'"
  by (simp add: get_put get_del)

end

interpretation gm: map_contract gm_get gm_put gm_del gm_wf
  by unfold_locales
    (auto simp: gm_get_def gm_put_def gm_del_def gm_wf_def update_conv' delete_conv'
      distinct_update distinct_delete)

lemmas gm_get_simps [gomap_simps, simp] = gm.get_put gm.get_del
lemmas gm_wf_ops [wf_intros, simp] = gm.wf_put gm.wf_del

lemma gm_get_Nil [simp]: "gm_get [] k = None"
  by (simp add: gm_get_def)

lemma gm_get_Cons [simp]: "gm_get ((a, b) # m) k = (if k = a then Some b else gm_get m k)"
  by (simp add: gm_get_def)

lemma gm_wf_Nil [simp]: "gm_wf []"
  by (simp add: gm_wf_def)

lemma gm_wf_Cons [simp]: "gm_wf ((a, b) # m) \<longleftrightarrow> a \<notin> fst ` set m \<and> gm_wf m"
  by (simp add: gm_wf_def)

lemma gm_get_in_set: "gm_get m k = Some v \<Longrightarrow> (k, v) \<in> set m"
  by (simp add: gm_get_def map_of_SomeD)

lemma gm_get_iff_in_set: "gm_wf m \<Longrightarrow> gm_get m k = Some v \<longleftrightarrow> (k, v) \<in> set m"
  by (simp add: gm_get_def gm_wf_def)

lemma gm_get_None_iff: "gm_get m k = None \<longleftrightarrow> k \<notin> fst ` set m"
  by (simp add: gm_get_def map_of_eq_None_iff)

lemma gm_vals_iff: "gm_wf m \<Longrightarrow> v \<in> set (gm_vals m) \<longleftrightarrow> (\<exists>k. gm_get m k = Some v)"
  by (force simp: gm_vals_def gm_get_iff_in_set)

lemma gm_put_same: "gm_get m k = Some v \<Longrightarrow> gm_put k v m = m"
  by (induction m) (auto simp: gm_get_def gm_put_def split: if_splits)

lemma gm_keys_put: "set (gm_keys (gm_put k v m)) = insert k (set (gm_keys m))"
  by (simp add: gm_keys_def gm_put_def dom_update)

text \<open>A property of every entry, kept by both updates.\<close>

definition gm_all :: "('k \<Rightarrow> 'v \<Rightarrow> bool) \<Rightarrow> ('k, 'v) gomap \<Rightarrow> bool" where
  "gm_all P m \<longleftrightarrow> (\<forall>(k, v) \<in> set m. P k v)"

lemma gm_all_Nil [simp]: "gm_all P []"
  by (simp add: gm_all_def)

lemma gm_all_Cons [simp]: "gm_all P ((k, v) # m) \<longleftrightarrow> P k v \<and> gm_all P m"
  by (simp add: gm_all_def)

lemma gm_all_put [wf_intros]: "gm_all P m \<Longrightarrow> P k v \<Longrightarrow> gm_all P (gm_put k v m)"
  unfolding gm_put_def by (induction m) auto

lemma gm_all_del [wf_intros]: "gm_all P m \<Longrightarrow> gm_all P (gm_del k m)"
  unfolding gm_del_def by (induction m) auto

lemma gm_all_get: "gm_all P m \<Longrightarrow> gm_get m k = Some v \<Longrightarrow> P k v"
  by (auto simp: gm_all_def dest: gm_get_in_set)

text \<open>A \<^verbatim>\<open>range\<close> loop over a map that rewrites or deletes the entry it visits.\<close>

fun gm_each :: "('k \<Rightarrow> 'v \<Rightarrow> 'v option) \<Rightarrow> ('k, 'v) gomap \<Rightarrow> ('k, 'v) gomap" where
  "gm_each f [] = []"
| "gm_each f ((k, v) # m) = (case f k v of None \<Rightarrow> gm_each f m | Some w \<Rightarrow> (k, w) # gm_each f m)"

lemma gm_each_fresh: "k \<notin> fst ` set m \<Longrightarrow> k \<notin> fst ` set (gm_each f m)"
  by (induction f m rule: gm_each.induct) (auto split: option.splits)

lemma gm_each_wf [wf_intros, simp]: "gm_wf m \<Longrightarrow> gm_wf (gm_each f m)"
  by (induction f m rule: gm_each.induct) (simp_all add: gm_each_fresh split: option.splits)

lemma gm_each_all:
  "gm_all P m \<Longrightarrow> (\<And>k v w. P k v \<Longrightarrow> f k v = Some w \<Longrightarrow> Q k w) \<Longrightarrow> gm_all Q (gm_each f m)"
  by (induction f m rule: gm_each.induct) (auto split: option.splits)

lemma gm_get_each [simp]:
  "gm_wf m \<Longrightarrow> gm_get (gm_each f m) k = (case gm_get m k of None \<Rightarrow> None | Some v \<Rightarrow> f k v)"
proof (induction f m rule: gm_each.induct)
  case (1 f)
  then show ?case by simp
next
  case (2 f a v m)
  then have "gm_get (gm_each f m) a = None"
    by (simp add: gm_get_None_iff gm_each_fresh)
  with 2 show ?case by (auto split: option.splits)
qed

lemma gm_get_perm:
  assumes "gm_wf m" and "mset m = mset m'"
  shows "gm_wf m'" and "gm_get m k = gm_get m' k"
proof -
  from assms(2) have perm: "mset (map fst m) = mset (map fst m')"
    by simp
  from assms(1) show wf: "gm_wf m'"
    unfolding gm_wf_def using mset_eq_imp_distinct_iff [OF perm] by simp
  from assms(2) have "set m = set m'"
    by (rule mset_eq_setD)
  then have "\<And>v. gm_get m k = Some v \<longleftrightarrow> gm_get m' k = Some v"
    using assms(1) wf by (simp add: gm_get_iff_in_set)
  then show "gm_get m k = gm_get m' k"
    by (metis option.exhaust)
qed

section \<open>Sorting and searching\<close>

text \<open>\<^verbatim>\<open>sort.Slice\<close> with a comparator. Where the comparator is a strict total order on the
  elements, every correct sort gives the same list, so insertion sort stands for Go's algorithm.\<close>

fun insert_by :: "('a \<Rightarrow> 'a \<Rightarrow> bool) \<Rightarrow> 'a \<Rightarrow> 'a list \<Rightarrow> 'a list" where
  "insert_by lt x [] = [x]"
| "insert_by lt x (y # ys) = (if lt y x then y # insert_by lt x ys else x # y # ys)"

definition sort_slice :: "('a \<Rightarrow> 'a \<Rightarrow> bool) \<Rightarrow> 'a list \<Rightarrow> 'a list" where
  "sort_slice lt xs = foldr (insert_by lt) xs []"

lemma mset_insert_by [simp]: "mset (insert_by lt x xs) = add_mset x (mset xs)"
  by (induction xs) auto

lemma mset_sort_slice [simp]: "mset (sort_slice lt xs) = mset xs"
  by (induction xs) (auto simp: sort_slice_def)

lemma set_sort_slice [simp]: "set (sort_slice lt xs) = set xs"
  by (metis mset_sort_slice set_mset_mset)

lemma length_sort_slice [simp]: "length (sort_slice lt xs) = length xs"
  by (metis mset_sort_slice size_mset)

text \<open>A comparator that compares keys of a linear order: the result is sorted by key, and where
  keys are distinct it is the only such list, whatever order the elements came in.\<close>

locale key_comparator =
  fixes lt :: "'a \<Rightarrow> 'a \<Rightarrow> bool" and key :: "'a \<Rightarrow> 'k::linorder"
  assumes lt_key: "lt x y \<longleftrightarrow> key x < key y"
begin

lemma insert_by_insort: "insert_by lt x xs = insort_key key x xs"
  by (induction xs) (auto simp: lt_key)

lemma sort_slice_sort_key: "sort_slice lt xs = sort_key key xs"
  by (induction xs) (auto simp: sort_slice_def insert_by_insort)

lemma sort_slice_sorted: "sorted (map key (sort_slice lt xs))"
  by (simp add: sort_slice_sort_key)

lemma sort_slice_perm:
  assumes perm: "mset xs = mset ys" and inj: "inj_on key (set xs)"
  shows "sort_slice lt xs = sort_slice lt ys"
proof -
  let ?a = "sort_slice lt xs" and ?b = "sort_slice lt ys"
  have "mset (map key ?a) = mset (map key ?b)"
    using perm by simp
  moreover have "sorted (map key ?a)" "sorted (map key ?b)"
    by (rule sort_slice_sorted)+
  ultimately have "map key ?a = map key ?b"
    by (metis properties_for_sort)
  moreover have "set xs = set ys"
    using perm by (rule mset_eq_setD)
  ultimately show ?thesis
    using inj by (simp add: inj_on_map_eq_map)
qed

lemma prefix_before_rest:
  assumes "x \<in> set (take k (sort_slice lt xs))" and "y \<in> set (drop k (sort_slice lt xs))"
  shows "\<not> lt y x"
proof -
  let ?s = "sort_slice lt xs"
  have "sorted (map key (take k ?s @ drop k ?s))"
    using sort_slice_sorted by simp
  then have "key x \<le> key y"
    using assms by (auto simp: sorted_append simp del: append_take_drop_id)
  then show ?thesis by (simp add: lt_key)
qed

end

text \<open>\<^verbatim>\<open>sort.Search\<close> and \<^verbatim>\<open>sort.SearchStrings\<close>: binary search for the least index at
  which a monotone predicate holds.\<close>

function search_loop :: "(nat \<Rightarrow> bool) \<Rightarrow> nat \<Rightarrow> nat \<Rightarrow> nat" where
  "search_loop f i j = (if i < j then
     (let h = (i + j) div 2 in if f h then search_loop f i h else search_loop f (h + 1) j)
     else i)"
  by pat_completeness auto
termination
  by (relation "measure (\<lambda>(f, i, j). j - i)") auto

declare search_loop.simps [simp del]

definition search_strings :: "string list \<Rightarrow> string \<Rightarrow> nat" where
  "search_strings xs x = search_loop (\<lambda>k. x \<le> xs ! k) 0 (length xs)"

lemma search_loop_least:
  assumes mono: "\<forall>a b. a \<le> b \<and> b < n \<and> f a \<longrightarrow> f b" and "i \<le> j" and "j \<le> n"
    and "\<forall>k < i. \<not> f k" and "\<forall>k. j \<le> k \<and> k < n \<longrightarrow> f k"
  shows "search_loop f i j \<le> j
    \<and> (\<forall>k < search_loop f i j. \<not> f k) \<and> (\<forall>k. search_loop f i j \<le> k \<and> k < n \<longrightarrow> f k)"
  using assms
proof (induction f i j rule: search_loop.induct)
  case (1 f i j)
  show ?case
  proof (cases "i < j")
    case True
    let ?h = "(i + j) div 2"
    have h: "i \<le> ?h" "?h < j" "?h < n" using True "1.prems"(3) by auto
    show ?thesis
    proof (cases "f ?h")
      case fh: True
      have eq: "search_loop f i j = search_loop f i ?h"
        using True fh by (simp add: search_loop.simps [of f i j] Let_def)
      have "\<forall>k. ?h \<le> k \<and> k < n \<longrightarrow> f k"
        using "1.prems"(1) fh by blast
      from "1.IH"(1) [OF True refl fh "1.prems"(1) h(1) less_imp_le [OF h(3)] "1.prems"(4) this]
      show ?thesis unfolding eq using h(2) by (meson less_imp_le order_trans)
    next
      case fh: False
      have eq: "search_loop f i j = search_loop f (?h + 1) j"
        using True fh by (simp add: search_loop.simps [of f i j] Let_def)
      have lo: "\<forall>k < ?h + 1. \<not> f k"
        using "1.prems"(1) fh h(3) by (metis Suc_eq_plus1 less_Suc_eq_le)
      have "?h + 1 \<le> j" using h(2) by simp
      from "1.IH"(2) [OF True refl fh "1.prems"(1) this "1.prems"(3) lo "1.prems"(5)]
      show ?thesis unfolding eq .
    qed
  next
    case False
    then have eq: "search_loop f i j = j"
      using "1.prems"(2) by (subst search_loop.simps) simp
    show ?thesis unfolding eq using False "1.prems"(2,4,5) by simp
  qed
qed

lemma search_strings_found:
  assumes "sorted xs"
  shows "search_strings xs x < length xs \<and> xs ! search_strings xs x = x \<longleftrightarrow> x \<in> set xs"
proof -
  let ?s = "search_strings xs x"
  have mono: "\<forall>a b. a \<le> b \<and> b < length xs \<and> x \<le> xs ! a \<longrightarrow> x \<le> xs ! b"
    using assms by (meson order_trans sorted_nth_mono)
  have least: "?s \<le> length xs \<and> (\<forall>k < ?s. \<not> x \<le> xs ! k)
      \<and> (\<forall>k. ?s \<le> k \<and> k < length xs \<longrightarrow> x \<le> xs ! k)"
    unfolding search_strings_def
    by (rule search_loop_least [OF mono]) auto
  show ?thesis
  proof
    assume "x \<in> set xs"
    then obtain k where k: "k < length xs" "xs ! k = x"
      by (auto simp: in_set_conv_nth)
    have "?s \<le> k"
    proof (rule ccontr)
      assume "\<not> ?s \<le> k"
      with least k(2) show False by (metis linorder_not_le order_refl)
    qed
    with k(1) have len: "?s < length xs" by simp
    have "xs ! ?s \<le> x"
      using sorted_nth_mono [OF assms \<open>?s \<le> k\<close> k(1)] k(2) by simp
    moreover have "x \<le> xs ! ?s"
      using least len by simp
    ultimately show "?s < length xs \<and> xs ! ?s = x"
      using len by (simp add: antisym)
  qed (metis nth_mem)
qed

section \<open>Hashing and floating point\<close>

text \<open>\<^verbatim>\<open>hash/fnv\<close>'s \<^verbatim>\<open>New64a\<close>: xor each byte in, then multiply by the FNV prime, on 64 bits.\<close>

definition fnv64a_step :: "64 word \<Rightarrow> char \<Rightarrow> 64 word" where
  "fnv64a_step h c = (h XOR of_nat (of_char c)) * 1099511628211"

definition fnv64a :: "string \<Rightarrow> 64 word" where
  "fnv64a s = foldl fnv64a_step 14695981039346656037 s"

text \<open>\<^verbatim>\<open>float64\<close> values in the normal range as rationals: \<^verbatim>\<open>f64\<close> rounds to 53 significant
  bits, ties to even. Quotients and products of Go integers stay inside that range.\<close>

fun bit_length :: "nat \<Rightarrow> nat" where
  "bit_length n = (if n = 0 then 0 else Suc (bit_length (n div 2)))"

declare bit_length.simps [simp del]

definition pow2 :: "int \<Rightarrow> rat" where
  "pow2 k = (if 0 \<le> k then 2 ^ nat k else 1 / 2 ^ nat (- k))"

definition round_half_even :: "rat \<Rightarrow> int" where
  "round_half_even r = (let n = \<lfloor>r\<rfloor>; d = r - of_int n in
     if d < 1 / 2 then n else if d > 1 / 2 then n + 1 else if even n then n else n + 1)"

definition f64_exponent :: "rat \<Rightarrow> int" where
  "f64_exponent x = (let (p, q) = quotient_of x;
     e = int (bit_length (nat p)) - int (bit_length (nat q))
     in if x \<ge> pow2 e then e else e - 1)"

definition f64 :: "rat \<Rightarrow> rat" where
  "f64 x = (if x = 0 then 0 else
     (let ulp = pow2 (f64_exponent \<bar>x\<bar> - 52)
      in sgn x * of_int (round_half_even (\<bar>x\<bar> / ulp)) * ulp))"

definition f64_of_int :: "int \<Rightarrow> rat" where
  "f64_of_int n = f64 (of_int n)"

definition f64_div :: "rat \<Rightarrow> rat \<Rightarrow> rat" where
  "f64_div a b = f64 (a / b)"

definition f64_mul :: "rat \<Rightarrow> rat \<Rightarrow> rat" where
  "f64_mul a b = f64 (a * b)"

text \<open>\<^verbatim>\<open>int(x)\<close> of a float truncates towards zero.\<close>

definition int_of_f64 :: "rat \<Rightarrow> int" where
  "int_of_f64 x = (if 0 \<le> x then \<lfloor>x\<rfloor> else \<lceil>x\<rceil>)"

lemma f64_0 [simp]: "f64 0 = 0"
  by (simp add: f64_def)

end
