(* ===== verification/Fastlet_Protocol.thy ===== *)
theory Fastlet_Protocol
  imports Prelude
begin

text \<open>
  The wire types of \<^verbatim>\<open>src/internal/protocol/fastlet/types.go\<close>: one record per struct, one
  datatype per typed string constant. A typed string can carry any value on the wire, so each
  enumeration has a last constructor for the strings the source does not name; the Go zero value
  is that constructor applied to the empty string. Struct embedding is record extension.
\<close>

section \<open>Enumerations\<close>

datatype runtime_state = RuntimeStateUnknown | RuntimeStatePending | RuntimeStateCreating
  | RuntimeStateReady | RuntimeStateStopping | RuntimeStateStopped | RuntimeStateFailed
  | RuntimeStateUnavailable | RuntimeStateOther string

datatype data_plane_state = DataPlaneStateUnknown | DataPlaneStatePending | DataPlaneStatePublishing
  | DataPlaneStateReady | DataPlaneStateDraining | DataPlaneStateFailed | DataPlaneStateUnavailable
  | DataPlaneStateOther string

datatype fastlet_error_code = ErrorCapacityRejected | ErrorDraining | ErrorInProgress
  | ErrorConflict | ErrorStaleGeneration | ErrorStaleAssignment | ErrorRuntimeUnavailable
  | ErrorNetworkUnavailable | ErrorInfraUnavailable | ErrorActionUnavailable | ErrorUnknownOutcome
  | ErrorNotFound | ErrorGenerationFenced | ErrorProfileMismatch | ErrorSnapshotInProgress
  | ErrorSnapshotUnsupported | ErrorOther string

datatype admission_state = AdmissionStateOpen | AdmissionStateBlocked | AdmissionStateUnknown
  | AdmissionStateOther string

datatype admission_reason = AdmissionReasonSlotFull | AdmissionReasonStaticCPUExhausted
  | AdmissionReasonStaticMemoryExhausted | AdmissionReasonFastletMemoryHighWatermark
  | AdmissionReasonFastletMemoryPSI | AdmissionReasonFastletOOMEvent
  | AdmissionReasonHostMemoryPressure | AdmissionReasonNodeMemoryPressure
  | AdmissionReasonTelemetryStale | AdmissionReasonTelemetryMissing
  | AdmissionReasonRecoveryIncomplete | AdmissionReasonUnsupportedProtocol
  | AdmissionReasonOther string

abbreviation no_reason :: admission_reason where
  "no_reason \<equiv> AdmissionReasonOther []"

datatype create_completion = CreateCompletionReady | CreateCompletionRuntimeReady
  | CreateCompletionOther string

datatype create_disposition = CreateDispositionCreated | CreateDispositionExisting
  | CreateDispositionInProgress | CreateDispositionRejectedBeforeSideEffects
  | CreateDispositionFailedNeedsCleanup | CreateDispositionUnknown
  | CreateDispositionGenerationFenced | CreateDispositionOther string

section \<open>Desired state and identity\<close>

record restore_spec =
  rs_ManifestRef :: string
  rs_ArtifactDigest :: string

record sandbox_desired_spec =
  ds_Image :: string
  ds_RuntimeProfileHash :: string
  ds_ResourceProfileHash :: string
  ds_InfraRevision :: string
  ds_Command :: "string list"
  ds_Args :: "string list"
  ds_Env :: "(string, string) gomap option"
  ds_WorkingDir :: string
  ds_Restore :: "restore_spec option"

record sandbox_runtime_limits =
  rl_CPU :: string
  rl_Memory :: string
  rl_PIDs :: int

record sandbox_resource_vector =
  rv_CPU :: string
  rv_Memory :: string

record resolved_sandbox_resources =
  rr_Requests :: sandbox_resource_vector
  rr_Limits :: sandbox_runtime_limits

record sandbox_identity =
  id_SandboxUID :: string
  id_Namespace :: string
  id_Name :: string
  id_InstanceGeneration :: int
  id_RuntimeInstanceID :: string
  id_AssignmentAttempt :: int
  id_RouteGeneration :: int
  id_FastletPodUID :: string

record runtime_sandbox_config =
  rc_Identity :: sandbox_identity
  rc_ActionsAPIVersion :: string
  rc_Desired :: sandbox_desired_spec
  rc_Limits :: sandbox_runtime_limits
  rc_CPURequest :: string

record ensure_sandbox_input =
  ei_RequestID :: string
  ei_Sandbox :: runtime_sandbox_config

section \<open>Observations\<close>

record runtime_observation =
  ro_State :: runtime_state
  ro_Message :: string

record data_plane_observation =
  do_State :: data_plane_state
  do_Message :: string

record action_binding_status =
  ab_Handler :: string
  ab_State :: string
  ab_ObservedSpecGeneration :: int
  ab_DesiredInputDigest :: string
  ab_AppliedInputDigest :: string
  ab_ObservedAssignmentAttempt :: int
  ab_ObservedInstanceGeneration :: int
  ab_ObservedNetworkGeneration :: int
  ab_LastTransitionTime :: gotime
  ab_Message :: string

record infra_component_diagnostic =
  ic_Component :: string
  ic_Protocol :: string
  ic_Port :: "32 word"
  ic_State :: string
  ic_ObservedRouteGeneration :: int
  ic_Message :: string

record sandbox_status =
  ss_SandboxID :: string
  ss_InstanceGeneration :: int
  ss_RuntimeInstanceID :: string
  ss_AssignmentAttempt :: int
  ss_RouteGeneration :: int
  ss_AcceptedGeneration :: int
  ss_AppliedGeneration :: int
  ss_Runtime :: runtime_observation
  ss_DataPlane :: data_plane_observation
  ss_InfraComponents :: "infra_component_diagnostic list"
  ss_ActionBindings :: "action_binding_status list"
  ss_CreatedAt :: int

record resource_admission_status =
  ra_Version :: string
  ra_Epoch :: string
  ra_Revision :: "64 word"
  ra_Capacity :: sandbox_resource_vector
  ra_Committed :: sandbox_resource_vector
  ra_State :: admission_state
  ra_Reason :: admission_reason

record admission_status =
  as_Capacity :: int
  as_Creating :: int
  as_Running :: int
  as_Deleting :: int
  as_Used :: int
  as_Resources :: "resource_admission_status option"

record warm_image_state =
  wi_Image :: string
  wi_State :: string
  wi_Message :: string

record fastlet_status =
  fs_FastletID :: string
  fs_NodeName :: string
  fs_SandboxStatuses :: "sandbox_status list"
  fs_Admission :: admission_status
  fs_RuntimeReady :: bool
  fs_Recovering :: bool
  fs_Draining :: bool
  fs_FastletPodUID :: string
  fs_RuntimeProfileHash :: string
  fs_ResourceProfileHash :: string
  fs_InfraRevision :: string
  fs_InfraReady :: bool
  fs_PreparedArtifacts :: "string list"
  fs_RegistryRevision :: string
  fs_WarmImages :: "warm_image_state list"

record cache_cursor =
  cc_Epoch :: string
  cc_Revision :: "64 word"
  cc_ForceFull :: bool

record cache_snapshot =
  cs_Epoch :: string
  cs_Revision :: "64 word"
  cs_Full :: bool
  cs_Complete :: bool
  cs_Images :: "string list"

record heartbeat_response = fastlet_status +
  hr_Sequence :: "64 word"
  hr_Cache :: cache_snapshot

section \<open>Errors\<close>

text \<open>The error values that cross the protocol: \<^verbatim>\<open>FastletError\<close> and \<^verbatim>\<open>CreateCallError\<close> with
  the error they wrap, a plain \<^verbatim>\<open>errors.New\<close>, and \<^verbatim>\<open>fmt.Errorf\<close> with one \<^verbatim>\<open>%w\<close>.\<close>

datatype go_error =
    ErrorString string
  | WrapError string go_error
  | FastletError fastlet_error_code admission_reason string bool "go_error option"
  | CreateCallError create_disposition "go_error option"

fun unwrap :: "go_error \<Rightarrow> go_error option" where
  "unwrap (ErrorString s) = None"
| "unwrap (WrapError s e) = Some e"
| "unwrap (FastletError c r m t cause) = cause"
| "unwrap (CreateCallError d f) = f"

text \<open>\<^verbatim>\<open>CreateDispositionFromError\<close> walks the chain; \<^verbatim>\<open>errors.As\<close> finds the first
  \<^verbatim>\<open>CreateCallError\<close> on it.\<close>

fun createDispositionFromError :: "go_error \<Rightarrow> create_disposition" where
  "createDispositionFromError (CreateCallError d f) = d"
| "createDispositionFromError (ErrorString s) = CreateDispositionUnknown"
| "createDispositionFromError (WrapError s e) = createDispositionFromError e"
| "createDispositionFromError (FastletError c r m t (Some e)) = createDispositionFromError e"
| "createDispositionFromError (FastletError c r m t None) = CreateDispositionUnknown"

section \<open>Requests and responses\<close>

record action_binding_input =
  bi_Handler :: string
  bi_Input :: string

record create_sandbox_request =
  cr_RequestID :: string
  cr_Identity :: sandbox_identity
  cr_Sandbox :: sandbox_desired_spec
  cr_Resources :: "resolved_sandbox_resources option"
  cr_SpecGeneration :: int
  cr_ActionBindings :: "action_binding_input list"
  cr_Completion :: create_completion

record create_sandbox_response =
  cp_Disposition :: create_disposition
  cp_Sandbox :: "sandbox_status option"
  cp_Admission :: admission_status
  cp_Error :: "go_error option"

record set_draining_request =
  sd_Draining :: bool
  sd_Reason :: string
  sd_DrainID :: string
  sd_FastletPodUID :: string

record set_draining_response =
  sp_Draining :: bool
  sp_DrainID :: string
  sp_FastletPodUID :: string
  sp_Admission :: "admission_status option"
  sp_Recovering :: bool
  sp_RuntimeReady :: bool
  sp_Error :: "go_error option"

section \<open>Legacy runtime state\<close>

text \<open>\<^verbatim>\<open>RuntimeSandboxConfig.UnmarshalJSON\<close>, from the decoded wire struct on: durable state
  written before desired state and limits were separated carries \<^verbatim>\<open>spec\<close> instead of
  \<^verbatim>\<open>desired\<close> and \<^verbatim>\<open>limits\<close>.\<close>

record legacy_runtime_sandbox_spec = sandbox_desired_spec +
  ls_CPU :: string
  ls_Memory :: string
  ls_PIDs :: int

record runtime_sandbox_wire =
  rw_Identity :: sandbox_identity
  rw_ActionsAPIVersion :: string
  rw_Desired :: "sandbox_desired_spec option"
  rw_Limits :: "sandbox_runtime_limits option"
  rw_CPURequest :: string
  rw_Spec :: "legacy_runtime_sandbox_spec option"

definition empty_desired :: sandbox_desired_spec where
  "empty_desired = \<lparr>ds_Image = [], ds_RuntimeProfileHash = [], ds_ResourceProfileHash = [],
     ds_InfraRevision = [], ds_Command = [], ds_Args = [], ds_Env = None, ds_WorkingDir = [],
     ds_Restore = None\<rparr>"

definition empty_limits :: sandbox_runtime_limits where
  "empty_limits = \<lparr>rl_CPU = [], rl_Memory = [], rl_PIDs = 0\<rparr>"

definition unmarshalRuntimeSandboxConfig ::
    "runtime_sandbox_wire \<Rightarrow> string + runtime_sandbox_config" where
  "unmarshalRuntimeSandboxConfig wire =
     (if rw_Desired wire \<noteq> None \<and> rw_Spec wire \<noteq> None
      then Inl ''runtime Sandbox config cannot contain both desired and legacy spec''
      else
        (let c = \<lparr>rc_Identity = rw_Identity wire, rc_ActionsAPIVersion = rw_ActionsAPIVersion wire,
                  rc_Desired = empty_desired, rc_Limits = empty_limits,
                  rc_CPURequest = rw_CPURequest wire\<rparr>
         in case rw_Spec wire of
              Some spec \<Rightarrow> Inr (c\<lparr>rc_Desired := sandbox_desired_spec.truncate spec,
                rc_Limits := \<lparr>rl_CPU = ls_CPU spec, rl_Memory = ls_Memory spec,
                  rl_PIDs = ls_PIDs spec\<rparr>\<rparr>)
            | None \<Rightarrow> Inr (c\<lparr>rc_Desired := (case rw_Desired wire of None \<Rightarrow> rc_Desired c | Some d \<Rightarrow> d),
                rc_Limits := (case rw_Limits wire of None \<Rightarrow> rc_Limits c | Some l \<Rightarrow> l)\<rparr>)))"

end
