(* ===== verification/Image_Cache.thy ===== *)
theory Image_Cache
  imports Fastlet_Protocol
begin

text \<open>
  The Fastlet image cache, \<^verbatim>\<open>src/internal/fastlet/cache\<close>: reference normalisation and the
  revisioned inventory of \<^verbatim>\<open>tracker.go\<close>, and the eviction policy of \<^verbatim>\<open>protection.go\<close>. Both
  objects hold a mutex for each whole call, so an operation is one function on the state. The clock
  of the protection index and the image list of the runtime are arguments.
\<close>

section \<open>References\<close>

definition NormalizeReference :: "string \<Rightarrow> string" where
  "NormalizeReference ref =
     (let ref = trim_space (to_lower ref);
          ref = trim_prefix ref ''https://'';
          ref = trim_prefix ref ''http://'';
          ref = trim_prefix ref ''docker.io/'';
          ref = trim_prefix ref ''library/''
      in ref)"

definition isPlatformOrContentReference :: "string \<Rightarrow> bool" where
  "isPlatformOrContentReference ref \<longleftrightarrow>
     has_prefix ref ''sha256:'' \<or> has_prefix ref ''import-'' \<or> has_prefix ref ''kindest/'' \<or>
     has_prefix ref ''fast-sandbox/'' \<or> has_prefix ref ''registry.k8s.io/'' \<or>
     has_prefix ref ''k8s.gcr.io/''"

text \<open>The source collects a set and sorts it; the sorted list of the distinct elements is the same
  list.\<close>

definition NormalizeInventory :: "string list \<Rightarrow> string list" where
  "NormalizeInventory images =
     sort (remdups (filter (\<lambda>n. n \<noteq> [] \<and> \<not> isPlatformOrContentReference n)
       (map NormalizeReference images)))"

fun equalStrings :: "string list \<Rightarrow> string list \<Rightarrow> bool" where
  "equalStrings [] [] = True"
| "equalStrings (a # as) (b # bs) = (a = b \<and> equalStrings as bs)"
| "equalStrings _ _ = False"

lemma equalStrings_eq [simp]: "equalStrings xs ys \<longleftrightarrow> xs = ys"
  by (induction xs ys rule: equalStrings.induct) auto

lemma NormalizeInventory_sorted [simp]: "sorted (NormalizeInventory images)"
  by (simp add: NormalizeInventory_def)

lemma NormalizeInventory_distinct [simp]: "distinct (NormalizeInventory images)"
  by (simp add: NormalizeInventory_def)

lemma NormalizeInventory_mem:
  "n \<in> set (NormalizeInventory images) \<longleftrightarrow>
     (\<exists>i \<in> set images. n = NormalizeReference i) \<and> n \<noteq> [] \<and> \<not> isPlatformOrContentReference n"
  by (auto simp: NormalizeInventory_def)

lemma NormalizeInventory_perm:
  assumes "set xs = set ys"
  shows "NormalizeInventory xs = NormalizeInventory ys"
  by (rule sorted_distinct_set_unique) (auto simp: NormalizeInventory_mem assms)

section \<open>Inventory tracker\<close>

record tracker =
  tk_epoch :: string
  tk_revision :: "64 word"
  tk_inventory :: "string list"
  tk_initialized :: bool
  tk_maxInventory :: int

definition DefaultMaxInventory :: int where
  "DefaultMaxInventory = 4096"

definition NewTracker :: "string \<Rightarrow> int \<Rightarrow> tracker" where
  "NewTracker epoch maxInventory =
     \<lparr>tk_epoch = epoch, tk_revision = 0, tk_inventory = [], tk_initialized = False,
      tk_maxInventory = (if maxInventory \<le> 0 then DefaultMaxInventory else maxInventory)\<rparr>"

text \<open>\<^verbatim>\<open>source\<close> is what \<^verbatim>\<open>ListImages\<close> returns for this call: \<^verbatim>\<open>None\<close> when the tracker has no
  source, \<^verbatim>\<open>Inl\<close> an error, \<^verbatim>\<open>Inr\<close> the images.\<close>

definition refresh :: "tracker \<Rightarrow> string list \<Rightarrow> tracker" where
  "refresh t normalized =
     (if \<not> tk_initialized t \<or> \<not> equalStrings (tk_inventory t) normalized
      then t\<lparr>tk_revision := tk_revision t + 1, tk_inventory := normalized, tk_initialized := True\<rparr>
      else t)"

definition tracker_Snapshot ::
    "tracker \<Rightarrow> (string + string list) option \<Rightarrow> cache_cursor
     \<Rightarrow> (cache_snapshot \<times> string option) \<times> tracker" where
  "tracker_Snapshot t source cursor =
     (case source of
        None \<Rightarrow> ((\<lparr>cs_Epoch = tk_epoch t, cs_Revision = 0, cs_Full = False, cs_Complete = False,
                   cs_Images = []\<rparr>, None), t)
      | Some (Inl err) \<Rightarrow>
          ((\<lparr>cs_Epoch = tk_epoch t, cs_Revision = tk_revision t, cs_Full = False,
             cs_Complete = False, cs_Images = []\<rparr>, Some err), t)
      | Some (Inr raw) \<Rightarrow>
          (let normalized = NormalizeInventory raw;
               complete = int (length normalized) \<le> tk_maxInventory t;
               normalized = (if complete then normalized else []);
               t = refresh t normalized;
               snapshot = \<lparr>cs_Epoch = tk_epoch t, cs_Revision = tk_revision t, cs_Full = False,
                  cs_Complete = complete, cs_Images = []\<rparr>;
               snapshot = (if cc_ForceFull cursor \<or> cc_Epoch cursor \<noteq> tk_epoch t
                             \<or> cc_Revision cursor \<noteq> tk_revision t
                  then snapshot\<lparr>cs_Full := True, cs_Images := (if complete then tk_inventory t else [])\<rparr>
                  else snapshot)
           in ((snapshot, None), t)))"

section \<open>Eviction protection\<close>

datatype protection_reason = ProtectWarm | ProtectActive | ProtectInfra | ProtectHot
  | ProtectOther string

record protection =
  pr_counts :: "(protection_reason, int) gomap"
  pr_hotUntil :: gotime

type_synonym protection_index = "(string, protection) gomap"

definition itemLocked :: "protection_index \<Rightarrow> string \<Rightarrow> protection" where
  "itemLocked p reference = (case gm_get p reference of
     None \<Rightarrow> \<lparr>pr_counts = [], pr_hotUntil = time_zero\<rparr>
   | Some item \<Rightarrow> item)"

text \<open>\<^verbatim>\<open>item.counts[reason]\<close> reads 0 for an absent key.\<close>

definition reasonCount :: "protection \<Rightarrow> protection_reason \<Rightarrow> int" where
  "reasonCount item reason = (case gm_get (pr_counts item) reason of None \<Rightarrow> 0 | Some n \<Rightarrow> n)"

definition deleteEmptyLocked ::
    "gotime \<Rightarrow> string \<Rightarrow> protection \<Rightarrow> protection_index \<Rightarrow> protection_index" where
  "deleteEmptyLocked now reference item p =
     (if pr_counts item = [] \<and> \<not> now < pr_hotUntil item then gm_del reference p else p)"

definition Protect :: "protection_index \<Rightarrow> string \<Rightarrow> protection_reason \<Rightarrow> protection_index" where
  "Protect p reference reason =
     (let reference = NormalizeReference reference in
      if reference = [] then p
      else let item = itemLocked p reference in
        gm_put reference (item\<lparr>pr_counts := gm_put reason (reasonCount item reason + 1) (pr_counts item)\<rparr>) p)"

definition Unprotect ::
    "gotime \<Rightarrow> protection_index \<Rightarrow> string \<Rightarrow> protection_reason \<Rightarrow> protection_index" where
  "Unprotect now p reference reason =
     (let reference = NormalizeReference reference in
      case gm_get p reference of
        None \<Rightarrow> p
      | Some item \<Rightarrow>
          (let item = (if reasonCount item reason > 1
             then item\<lparr>pr_counts := gm_put reason (reasonCount item reason - 1) (pr_counts item)\<rparr>
             else item\<lparr>pr_counts := gm_del reason (pr_counts item)\<rparr>)
           in deleteEmptyLocked now reference item (gm_put reference item p)))"

definition ProtectHotUntil :: "protection_index \<Rightarrow> string \<Rightarrow> gotime \<Rightarrow> protection_index" where
  "ProtectHotUntil p reference until =
     (let reference = NormalizeReference reference in
      if reference = [] then p
      else let item = itemLocked p reference in
        gm_put reference (if until > pr_hotUntil item then item\<lparr>pr_hotUntil := until\<rparr> else item) p)"

text \<open>The first loop visits every entry of the index; entries are deleted while the map is ranged
  over, which Go allows.\<close>

definition dropReason :: "gotime \<Rightarrow> protection_reason \<Rightarrow> protection_index \<Rightarrow> protection_index" where
  "dropReason now reason p = gm_each (\<lambda>reference item.
     let item = item\<lparr>pr_counts := gm_del reason (pr_counts item)\<rparr>
     in if pr_counts item = [] \<and> \<not> now < pr_hotUntil item then None else Some item) p"

fun addReason :: "protection_reason \<Rightarrow> string list \<Rightarrow> protection_index \<Rightarrow> protection_index" where
  "addReason reason [] p = p"
| "addReason reason (reference # references) p =
     (let reference = NormalizeReference reference in
      if reference = [] then addReason reason references p
      else let item = itemLocked p reference in
        addReason reason references
          (gm_put reference (item\<lparr>pr_counts := gm_put reason 1 (pr_counts item)\<rparr>) p))"

definition Replace ::
    "gotime \<Rightarrow> protection_index \<Rightarrow> protection_reason \<Rightarrow> string list \<Rightarrow> protection_index" where
  "Replace now p reason references = addReason reason references (dropReason now reason p)"

definition IsProtected :: "gotime \<Rightarrow> protection_index \<Rightarrow> string \<Rightarrow> bool \<times> protection_index" where
  "IsProtected now p reference =
     (let reference = NormalizeReference reference in
      case gm_get p reference of
        None \<Rightarrow> (False, p)
      | Some item \<Rightarrow>
          if pr_counts item \<noteq> [] \<or> now < pr_hotUntil item then (True, p)
          else (False, gm_del reference p))"

text \<open>\<^verbatim>\<open>PlanEviction\<close> asks \<^verbatim>\<open>IsProtected\<close> for each candidate in turn, and the clock is read
  again for each: \<^verbatim>\<open>clock i\<close> is the time at which candidate \<^verbatim>\<open>i\<close> is asked for.\<close>

fun planLoop ::
    "(nat \<Rightarrow> gotime) \<Rightarrow> nat \<Rightarrow> protection_index \<Rightarrow> string list \<Rightarrow> string list \<times> protection_index" where
  "planLoop clock i p [] = ([], p)"
| "planLoop clock i p (c # cs) =
     (let (protected, p) = IsProtected (clock i) p c; (rest, p) = planLoop clock (Suc i) p cs
      in (if protected then rest else NormalizeReference c # rest, p))"

definition PlanEviction ::
    "(nat \<Rightarrow> gotime) \<Rightarrow> protection_index \<Rightarrow> string list \<Rightarrow> string list \<times> protection_index" where
  "PlanEviction clock p candidates =
     (let (result, p) = planLoop clock 0 p candidates in (sort result, p))"

subsection \<open>What the index promises\<close>

text \<open>A reference is held while some reason counts it or its hot period lasts. \<^verbatim>\<open>holders\<close> is the
  abstract view: how often each reason protects each reference.\<close>

definition held :: "gotime \<Rightarrow> protection_index \<Rightarrow> string \<Rightarrow> bool" where
  "held now p reference = (case gm_get p reference of
     None \<Rightarrow> False | Some item \<Rightarrow> pr_counts item \<noteq> [] \<or> now < pr_hotUntil item)"

definition holders :: "protection_index \<Rightarrow> string \<Rightarrow> protection_reason \<Rightarrow> int" where
  "holders p reference reason = (case gm_get p reference of
     None \<Rightarrow> 0 | Some item \<Rightarrow> reasonCount item reason)"

definition item_wf :: "protection \<Rightarrow> bool" where
  "item_wf item \<longleftrightarrow> gm_wf (pr_counts item) \<and> gm_all (\<lambda>r n. 1 \<le> n) (pr_counts item)"

definition index_wf :: "protection_index \<Rightarrow> bool" where
  "index_wf p \<longleftrightarrow> gm_wf p \<and> gm_all (\<lambda>ref item. item_wf item) p"

lemma IsProtected_held: "fst (IsProtected now p r) = held now p (NormalizeReference r)"
  by (auto simp: IsProtected_def held_def Let_def split: option.splits)

text \<open>Asking only forgets items that hold nothing any more.\<close>

definition forgets :: "gotime \<Rightarrow> protection_index \<Rightarrow> protection_index \<Rightarrow> bool" where
  "forgets now p p' \<longleftrightarrow>
     (\<forall>r. gm_get p' r = gm_get p r \<or> gm_get p' r = None \<and> \<not> held now p r)"

lemma held_antimono: "now \<le> now' \<Longrightarrow> \<not> held now p r \<Longrightarrow> \<not> held now' p r"
  by (auto simp: held_def split: option.splits)

lemma forgets_refl: "forgets now p p"
  by (simp add: forgets_def)

lemma forgets_held:
  assumes "forgets now p p'" "now \<le> now'"
  shows "held now' p' r = held now' p r"
proof (cases "gm_get p' r = gm_get p r")
  case True
  then show ?thesis by (simp add: held_def)
next
  case False
  with assms(1) have "gm_get p' r = None" "\<not> held now p r" by (auto simp: forgets_def)
  with held_antimono[OF assms(2)] show ?thesis by (auto simp: held_def)
qed

lemma IsProtected_get:
  "gm_get (snd (IsProtected now p c)) r =
     (if r = NormalizeReference c \<and> \<not> held now p r then None else gm_get p r)"
  by (auto simp: IsProtected_def held_def Let_def split: option.splits)

lemma IsProtected_forgets:
  assumes "forgets now0 p p'" "now0 \<le> now"
  shows "forgets now p (snd (IsProtected now p' c))"
proof -
  have "gm_get (snd (IsProtected now p' c)) r = gm_get p r \<or>
      gm_get (snd (IsProtected now p' c)) r = None \<and> \<not> held now p r" for r
  proof (cases "gm_get p' r = gm_get p r")
    case True
    then show ?thesis using forgets_held[OF assms, of r] by (auto simp: IsProtected_get)
  next
    case False
    with assms(1) have "gm_get p' r = None" "\<not> held now0 p r" by (auto simp: forgets_def)
    then show ?thesis using held_antimono[OF assms(2)] by (simp add: IsProtected_get)
  qed
  then show ?thesis by (simp add: forgets_def)
qed

lemma planLoop_step:
  "fst (planLoop clock i p (c # cs)) =
     (let rest = fst (planLoop clock (Suc i) (snd (IsProtected (clock i) p c)) cs)
      in if fst (IsProtected (clock i) p c) then rest else NormalizeReference c # rest)"
  by (simp add: split_beta Let_def)

lemma planLoop_enumerate:
  assumes "mono clock" "forgets now0 p p'" "now0 \<le> clock i"
  shows "fst (planLoop clock i p' cs) =
    map (NormalizeReference \<circ> snd)
      (filter (\<lambda>(j, c). \<not> held (clock j) p (NormalizeReference c)) (enumerate i cs))"
  using assms(2,3)
proof (induction cs arbitrary: i p' now0)
  case Nil
  then show ?case by simp
next
  case (Cons c cs)
  have next_forgets: "forgets (clock i) p (snd (IsProtected (clock i) p' c))"
    by (rule IsProtected_forgets[OF Cons.prems])
  have "clock i \<le> clock (Suc i)" by (rule monoD[OF assms(1)]) simp
  note IH = Cons.IH[OF next_forgets this]
  show ?case
    using IH IsProtected_held[of "clock i" p' c]
      forgets_held[OF Cons.prems, of "NormalizeReference c"]
    by (simp add: planLoop_step del: planLoop.simps)
qed

text \<open>Each operation on the abstract view. The index stays well formed: one entry per reference,
  one positive count per reason.\<close>

lemma item_wf_ops [wf_intros]:
  assumes "item_wf item"
  shows "1 \<le> n \<Longrightarrow> item_wf (item\<lparr>pr_counts := gm_put r n (pr_counts item)\<rparr>)"
    and "item_wf (item\<lparr>pr_counts := gm_del r (pr_counts item)\<rparr>)"
    and "item_wf (item\<lparr>pr_hotUntil := t\<rparr>)"
  using assms by (auto simp: item_wf_def intro: wf_intros)

lemma index_wf_ops [wf_intros]:
  assumes "index_wf p"
  shows "item_wf item \<Longrightarrow> index_wf (gm_put r item p)" and "index_wf (gm_del r p)"
  using assms by (auto simp: index_wf_def intro: wf_intros)

lemma index_wf_item: "index_wf p \<Longrightarrow> gm_get p r = Some item \<Longrightarrow> item_wf item"
  unfolding index_wf_def by (blast dest: gm_all_get)

lemma itemLocked_wf [wf_intros]: "index_wf p \<Longrightarrow> item_wf (itemLocked p r)"
  by (auto simp: itemLocked_def item_wf_def split: option.splits)
    (auto simp: item_wf_def dest: index_wf_item)

lemma reasonCount_nonneg [wf_intros]: "item_wf item \<Longrightarrow> 0 \<le> reasonCount item r"
  by (force simp: reasonCount_def item_wf_def split: option.splits dest: gm_all_get)

lemma Protect_wf: "index_wf p \<Longrightarrow> index_wf (Protect p r reason)"
  using reasonCount_nonneg[OF itemLocked_wf, of p "NormalizeReference r" reason]
  by (auto simp: Protect_def Let_def intro!: wf_intros)

lemma deleteEmptyLocked_wf [wf_intros]: "index_wf p \<Longrightarrow> index_wf (deleteEmptyLocked now r item p)"
  by (simp add: deleteEmptyLocked_def index_wf_ops)

lemma Unprotect_wf: "index_wf p \<Longrightarrow> index_wf (Unprotect now p r reason)"
  by (simp add: Unprotect_def Let_def split: option.splits)
    (metis deleteEmptyLocked_wf index_wf_item index_wf_ops(1) item_wf_ops(1,2) zle_diff1_eq)

lemma ProtectHotUntil_wf: "index_wf p \<Longrightarrow> index_wf (ProtectHotUntil p r t)"
  by (auto simp: ProtectHotUntil_def Let_def intro!: wf_intros)

lemma addReason_wf: "index_wf p \<Longrightarrow> index_wf (addReason reason rs p)"
  by (induction rs arbitrary: p) (simp_all add: Let_def index_wf_ops item_wf_ops itemLocked_wf)

lemma dropReason_wf: "index_wf p \<Longrightarrow> index_wf (dropReason now reason p)"
  by (auto simp: index_wf_def dropReason_def Let_def item_wf_ops split: if_splits elim!: gm_each_all)

lemma Replace_wf: "index_wf p \<Longrightarrow> index_wf (Replace now p reason rs)"
  by (simp add: Replace_def addReason_wf dropReason_wf)

lemma IsProtected_wf: "index_wf p \<Longrightarrow> index_wf (snd (IsProtected now p r))"
  by (auto simp: IsProtected_def Let_def split: option.splits intro!: wf_intros)

lemma holders_simps [simp]:
  "holders (gm_put r item p) r' reason = (if r' = r then reasonCount item reason else holders p r' reason)"
  "holders (gm_del r p) r' reason = (if r' = r then 0 else holders p r' reason)"
  "reasonCount (item\<lparr>pr_counts := gm_put x n (pr_counts item)\<rparr>) y =
     (if y = x then n else reasonCount item y)"
  "reasonCount (item\<lparr>pr_counts := gm_del x (pr_counts item)\<rparr>) y =
     (if y = x then 0 else reasonCount item y)"
  "reasonCount (item\<lparr>pr_hotUntil := t\<rparr>) y = reasonCount item y"
  by (auto simp: holders_def reasonCount_def)

lemma reasonCount_itemLocked [simp]: "reasonCount (itemLocked p r) reason = holders p r reason"
  by (simp add: itemLocked_def holders_def reasonCount_def split: option.splits)

lemma reasonCount_none: "pr_counts item = [] \<Longrightarrow> reasonCount item reason = 0"
  by (simp add: reasonCount_def)

lemma holders_held: "holders p r reason \<noteq> 0 \<Longrightarrow> held now p r"
  by (auto simp: holders_def held_def reasonCount_none split: option.splits)

lemma holders_nonneg: "index_wf p \<Longrightarrow> 0 \<le> holders p r reason"
  by (auto simp: holders_def split: option.splits intro: reasonCount_nonneg dest: index_wf_item)

lemma Protect_holders:
  "holders (Protect p r reason) r' reason' = holders p r' reason' +
     (if r' = NormalizeReference r \<and> reason' = reason \<and> r' \<noteq> [] then 1 else 0)"
  by (auto simp: Protect_def Let_def)

lemma deleteEmptyLocked_holders [simp]:
  "gm_get p r = Some item \<Longrightarrow> holders (deleteEmptyLocked now r item p) r' reason = holders p r' reason"
  by (auto simp: deleteEmptyLocked_def holders_def reasonCount_none)

lemma Unprotect_holders:
  assumes "index_wf p"
  shows "holders (Unprotect now p r reason) r' reason' =
    (if r' = NormalizeReference r \<and> reason' = reason
     then max 0 (holders p r' reason' - 1) else holders p r' reason')"
  using holders_nonneg[OF assms, of "NormalizeReference r"]
  by (auto simp: Unprotect_def Let_def holders_def[of p] split: option.splits)

lemma ProtectHotUntil_holders: "holders (ProtectHotUntil p r t) r' reason = holders p r' reason"
  by (auto simp: ProtectHotUntil_def Let_def)

lemma IsProtected_holders: "holders (snd (IsProtected now p r)) r' reason = holders p r' reason"
  using holders_held[of p r' reason now] by (auto simp: holders_def IsProtected_get)

lemma dropReason_holders:
  "index_wf p \<Longrightarrow> holders (dropReason now reason p) r reason' =
     (if reason' = reason then 0 else holders p r reason')"
  by (auto simp: dropReason_def holders_def index_wf_def Let_def reasonCount_def
      split: option.splits) (metis gm_get_simps(2) gm_get_Nil option.distinct(1))

lemma addReason_holders:
  "holders (addReason reason rs p) r reason' =
     (if reason' = reason \<and> r \<noteq> [] \<and> r \<in> NormalizeReference ` set rs then 1 else holders p r reason')"
  by (induction rs arbitrary: p) (auto simp: Let_def)

lemma Replace_holders:
  "index_wf p \<Longrightarrow> holders (Replace now p reason rs) r reason' =
     (if reason' = reason then (if r \<noteq> [] \<and> r \<in> NormalizeReference ` set rs then 1 else 0)
      else holders p r reason')"
  by (simp add: Replace_def addReason_holders dropReason_holders)

text \<open>Any sequence of operations on one index, and its effect on the abstract view.\<close>

datatype protection_op =
    OpProtect string protection_reason
  | OpUnprotect gotime string protection_reason
  | OpProtectHotUntil string gotime
  | OpReplace gotime protection_reason "string list"
  | OpIsProtected gotime string

fun protection_step :: "protection_op \<Rightarrow> protection_index \<Rightarrow> protection_index" where
  "protection_step (OpProtect r reason) p = Protect p r reason"
| "protection_step (OpUnprotect now r reason) p = Unprotect now p r reason"
| "protection_step (OpProtectHotUntil r t) p = ProtectHotUntil p r t"
| "protection_step (OpReplace now reason rs) p = Replace now p reason rs"
| "protection_step (OpIsProtected now r) p = snd (IsProtected now p r)"

fun holders_step ::
    "protection_op \<Rightarrow> (string \<Rightarrow> protection_reason \<Rightarrow> int) \<Rightarrow> string \<Rightarrow> protection_reason \<Rightarrow> int" where
  "holders_step (OpProtect r reason) h r' reason' =
     h r' reason' + (if r' = NormalizeReference r \<and> reason' = reason \<and> r' \<noteq> [] then 1 else 0)"
| "holders_step (OpUnprotect now r reason) h r' reason' =
     (if r' = NormalizeReference r \<and> reason' = reason then max 0 (h r' reason' - 1) else h r' reason')"
| "holders_step (OpReplace now reason rs) h r' reason' =
     (if reason' = reason then (if r' \<noteq> [] \<and> r' \<in> NormalizeReference ` set rs then 1 else 0)
      else h r' reason')"
| "holders_step (OpProtectHotUntil r t) h r' reason' = h r' reason'"
| "holders_step (OpIsProtected now r) h r' reason' = h r' reason'"

definition protection_run :: "protection_op list \<Rightarrow> protection_index" where
  "protection_run ops = fold protection_step ops []"

definition holders_run :: "protection_op list \<Rightarrow> string \<Rightarrow> protection_reason \<Rightarrow> int" where
  "holders_run ops = fold holders_step ops (\<lambda>r reason. 0)"

lemma protection_step_wf: "index_wf p \<Longrightarrow> index_wf (protection_step c p)"
  by (cases c) (simp_all add: Protect_wf Unprotect_wf ProtectHotUntil_wf Replace_wf IsProtected_wf)

lemma protection_step_holders:
  "index_wf p \<Longrightarrow> holders (protection_step c p) = holders_step c (holders p)"
  by (intro ext, cases c) (simp_all add: Protect_holders Unprotect_holders ProtectHotUntil_holders
      Replace_holders IsProtected_holders)

lemma protection_run_refines:
  "index_wf p \<Longrightarrow> holders (fold protection_step ops p) = fold holders_step ops (holders p)"
  by (induction ops arbitrary: p) (simp_all add: protection_step_wf protection_step_holders)

lemma planLoop_never_held:
  assumes "mono clock" "r \<in> set (fst (PlanEviction clock p cs))"
  shows "holders p r reason = 0"
proof -
  from assms(2) have "r \<in> set (fst (planLoop clock 0 p cs))"
    by (simp add: PlanEviction_def split: prod.splits)
  then show ?thesis
    using planLoop_enumerate[OF assms(1) forgets_refl, of "clock 0" 0 p cs]
      holders_held by fastforce
qed

section \<open>Properties\<close>

text \<open>C13: an eviction plan is exact. With a clock that does not run backwards, the plan lists the
  normalised form of precisely those candidates that no reason counts and whose hot period is over
  when they are asked for, in sorted order; forgetting expired items on the way changes nothing.\<close>

theorem PlanEviction_exact:
  assumes "mono clock"
  shows "fst (PlanEviction clock p candidates) =
    sort (map (NormalizeReference \<circ> snd)
      (filter (\<lambda>(i, c). \<not> held (clock i) p (NormalizeReference c)) (enumerate 0 candidates)))"
  using planLoop_enumerate[OF assms forgets_refl, of "clock 0" 0 p candidates]
  by (simp add: PlanEviction_def split_beta)

theorem PlanEviction_exact_witness:
  "mono (\<lambda>i::nat. 100 + int i) \<and>
   fst (PlanEviction (\<lambda>i. 100 + int i)
     [(''n'', \<lparr>pr_counts = [(ProtectWarm, 1)], pr_hotUntil = 0\<rparr>),
      (''r'', \<lparr>pr_counts = [], pr_hotUntil = 101\<rparr>)]
     [''r'', ''library/N'', ''r'', ''b'']) = [''b'', ''r'']"
proof -
  have clock: "mono (\<lambda>i::nat. 100 + int i)" by (simp add: mono_def)
  show ?thesis unfolding PlanEviction_exact[OF clock] by (rule conjI[OF clock]) code_simp
qed

text \<open>C31: the index implements reference counting per reason. After any sequence of calls on an
  empty index, the count it holds for a reference and a reason is the one of the abstract machine:
  \<^verbatim>\<open>Protect\<close> adds a holder, \<^verbatim>\<open>Unprotect\<close> removes one and stops at zero, \<^verbatim>\<open>Replace\<close> makes its
  list the exact holder set of its reason and leaves the other reasons alone, and neither hot
  periods nor questions change a count.\<close>

theorem protection_run_counts: "holders (protection_run ops) = holders_run ops"
proof -
  have "index_wf []" by (simp add: index_wf_def)
  moreover have "holders [] = (\<lambda>r reason. 0)" by (intro ext) (simp add: holders_def)
  ultimately show ?thesis
    by (simp add: protection_run_def holders_run_def protection_run_refines)
qed

text \<open>C32: no reference with a holder left is ever planned for eviction, whatever calls came before
  and whichever candidates are offered.\<close>

theorem eviction_respects_holders:
  assumes "mono clock" and "0 < holders_run ops r reason"
  shows "r \<notin> set (fst (PlanEviction clock (protection_run ops) candidates))"
proof -
  have "holders (protection_run ops) = holders_run ops"
    by (simp add: protection_run_def holders_run_def protection_run_refines index_wf_def
        holders_def[of "[]", abs_def])
  then show ?thesis using planLoop_never_held[OF assms(1)] assms(2) by fastforce
qed

theorem eviction_respects_holders_witness:
  "''nginx'' \<notin> set (fst (PlanEviction (\<lambda>i. 100 + int i)
     (protection_run [OpProtect ''nginx'' ProtectActive, OpProtect ''docker.io/nginx'' ProtectActive,
        OpUnprotect 50 ''nginx'' ProtectActive, OpReplace 60 ProtectWarm [''redis'']])
     [''nginx'', ''redis'', ''busybox'']))"
  by (rule eviction_respects_holders[where reason = ProtectActive])
    (simp add: mono_def, code_simp)

end
