(* ===== verification/Resource_Profile.thy ===== *)
theory Resource_Profile
  imports Fastlet_Protocol
begin

text \<open>
  The per-Sandbox resource policy, \<^verbatim>\<open>src/api/v1alpha2/resource_profile.go\<close>, with the types it
  takes from \<^verbatim>\<open>sandboxpool_types.go\<close> and \<^verbatim>\<open>sandbox_types.go\<close>. Kubernetes quantities are code of
  another module: a record of the operations the sources call is an argument of every definition
  that uses them, and \<^verbatim>\<open>quantity_laws\<close> states what the operations document.
\<close>

section \<open>Kubernetes quantities\<close>

record 'q quantity_api =
  q_zero :: 'q
  q_Sign :: "'q \<Rightarrow> int"
  q_MilliValue :: "'q \<Rightarrow> int"
  q_Value :: "'q \<Rightarrow> int"
  q_Add :: "'q \<Rightarrow> 'q \<Rightarrow> 'q"
  q_Sub :: "'q \<Rightarrow> 'q \<Rightarrow> 'q"
  q_Mul :: "'q \<Rightarrow> int \<Rightarrow> 'q"
  q_Cmp :: "'q \<Rightarrow> 'q \<Rightarrow> int"
  q_Parse :: "string \<Rightarrow> 'q option"
  q_AsDec :: "'q \<Rightarrow> rat"
  q_NewMilliQuantity :: "int \<Rightarrow> 'q"
  q_NewQuantity :: "int \<Rightarrow> 'q"

definition ceil_div :: "int \<Rightarrow> int \<Rightarrow> int" where
  "ceil_div a b = - ((- a) div b)"

text \<open>A quantity is an exact decimal, at most nano precise: \<^verbatim>\<open>nano q\<close> is its value in units of
  \<^verbatim>\<open>10\<^sup>-\<^sup>9\<close>. Arithmetic and comparison are exact; \<^verbatim>\<open>MilliValue\<close> and \<^verbatim>\<open>Value\<close> round a non-negative
  value up, when the result fits an \<^verbatim>\<open>int64\<close>.\<close>

definition quantity_laws :: "'q quantity_api \<Rightarrow> ('q \<Rightarrow> int) \<Rightarrow> bool" where
  "quantity_laws Q nano \<longleftrightarrow>
     nano (q_zero Q) = 0 \<and>
     (\<forall>q. q_Sign Q q = sgn (nano q)) \<and>
     (\<forall>a b. nano (q_Add Q a b) = nano a + nano b) \<and>
     (\<forall>a b. nano (q_Sub Q a b) = nano a - nano b) \<and>
     (\<forall>a n. nano (q_Mul Q a n) = nano a * n) \<and>
     (\<forall>a b. q_Cmp Q a b = sgn (nano a - nano b)) \<and>
     (\<forall>q. q_AsDec Q q = of_int (nano q) / 10 ^ 9) \<and>
     (\<forall>n. nano (q_NewMilliQuantity Q n) = n * 10 ^ 6) \<and>
     (\<forall>n. nano (q_NewQuantity Q n) = n * 10 ^ 9) \<and>
     map_option nano (q_Parse Q ''1'') = Some (10 ^ 9) \<and>
     (\<forall>q. 0 \<le> nano q \<longrightarrow> ceil_div (nano q) (10 ^ 6) \<le> max_int64 \<longrightarrow>
        q_MilliValue Q q = ceil_div (nano q) (10 ^ 6)) \<and>
     (\<forall>q. 0 \<le> nano q \<longrightarrow> ceil_div (nano q) (10 ^ 9) \<le> max_int64 \<longrightarrow>
        q_Value Q q = ceil_div (nano q) (10 ^ 9))"

lemma quantity_simps:
  assumes "quantity_laws Q nano"
  shows "nano (q_zero Q) = 0" "q_Sign Q q = sgn (nano q)"
    "nano (q_Add Q a b) = nano a + nano b" "nano (q_Sub Q a b) = nano a - nano b"
    "nano (q_Mul Q a n) = nano a * n" "q_Cmp Q a b = sgn (nano a - nano b)"
    "q_AsDec Q q = of_int (nano q) / 10 ^ 9"
    "nano (q_NewMilliQuantity Q n) = n * 10 ^ 6" "nano (q_NewQuantity Q n) = n * 10 ^ 9"
    "0 \<le> nano q \<Longrightarrow> ceil_div (nano q) (10 ^ 6) \<le> max_int64 \<Longrightarrow>
       q_MilliValue Q q = ceil_div (nano q) (10 ^ 6)"
    "0 \<le> nano q \<Longrightarrow> ceil_div (nano q) (10 ^ 9) \<le> max_int64 \<Longrightarrow>
       q_Value Q q = ceil_div (nano q) (10 ^ 9)"
  using assms by (auto simp: quantity_laws_def)

lemma quantity_sign:
  assumes "quantity_laws Q nano"
  shows "0 < q_Sign Q q \<longleftrightarrow> 0 < nano q" "q_Sign Q q \<le> 0 \<longleftrightarrow> nano q \<le> 0"
    "q_Sign Q q < 0 \<longleftrightarrow> nano q < 0"
  by (auto simp: quantity_simps(2)[OF assms] sgn_if)

lemma quantity_cmp:
  assumes "quantity_laws Q nano"
  shows "q_Cmp Q a b \<le> 0 \<longleftrightarrow> nano a \<le> nano b" "q_Cmp Q a b < 0 \<longleftrightarrow> nano a < nano b"
    "q_Cmp Q a b = 0 \<longleftrightarrow> nano a = nano b"
  by (auto simp: quantity_simps(6)[OF assms] sgn_if)

lemma ceil_div_bounds:
  assumes "0 < (b::int)"
  shows "a \<le> ceil_div a b * b" "ceil_div a b * b < a + b"
proof -
  have "(- a) div b * b + (- a) mod b = - a" by simp
  moreover have "0 \<le> (- a) mod b" "(- a) mod b < b" using assms by simp_all
  moreover have "ceil_div a b * b = - ((- a) div b * b)" by (simp add: ceil_div_def)
  ultimately show "a \<le> ceil_div a b * b" "ceil_div a b * b < a + b" by linarith+
qed

lemma ceil_div_le_iff:
  assumes "0 < (b::int)"
  shows "ceil_div a b \<le> n \<longleftrightarrow> a \<le> n * b"
proof
  assume "ceil_div a b \<le> n"
  then have "ceil_div a b * b \<le> n * b" using assms by (simp add: mult_right_mono)
  with ceil_div_bounds(1)[OF assms, of a] show "a \<le> n * b" by linarith
next
  assume "a \<le> n * b"
  with ceil_div_bounds(2)[OF assms, of a] have "ceil_div a b * b < (n + 1) * b"
    by (simp add: algebra_simps)
  then show "ceil_div a b \<le> n" using assms by (simp add: mult_less_cancel_right)
qed

lemma ceil_div_add_le: "0 < (b::int) \<Longrightarrow> ceil_div (x + y) b \<le> ceil_div x b + ceil_div y b"
  using ceil_div_bounds(1)[of b x] ceil_div_bounds(1)[of b y]
  by (simp add: ceil_div_le_iff distrib_right)

lemma ceil_div_mono: "0 < (b::int) \<Longrightarrow> x \<le> y \<Longrightarrow> ceil_div x b \<le> ceil_div y b"
  using ceil_div_bounds(1)[of b y] by (simp add: ceil_div_le_iff)

lemma ceil_div_nonneg: "0 < (b::int) \<Longrightarrow> 0 \<le> x \<Longrightarrow> 0 \<le> ceil_div x b"
  using ceil_div_mono[of b 0 x] by (simp add: ceil_div_def)

lemma ceil_div_pos: "0 < (b::int) \<Longrightarrow> 0 < x \<Longrightarrow> 0 < ceil_div x b"
  using ceil_div_le_iff[of b x 0] by simp

lemma ceil_div_mult [simp]: "0 < (b::int) \<Longrightarrow> ceil_div (n * b) b = n"
  by (simp add: ceil_div_def flip: mult_minus_left)

section \<open>The profile\<close>

datatype runtime_name = RuntimeContainer | RuntimeGVisor | RuntimeKataQemu | RuntimeKataFc
  | RuntimeKataClh | RuntimeKataDragonball | RuntimeFirecracker | RuntimeNameOther string

abbreviation no_runtime :: runtime_name where
  "no_runtime \<equiv> RuntimeNameOther []"

datatype sandbox_resource_mode = SandboxResourceModeInvalid | SandboxResourceModeLegacySlot
  | SandboxResourceModeResourceAware | SandboxResourceModeOther string

text \<open>The empty string is the named constant \<^verbatim>\<open>SandboxResourceModeInvalid\<close>; as the value of
  \<^verbatim>\<open>Mode\<close> it means that the field was omitted.\<close>

record 'q sandbox_compute_resources =
  sc_CPU :: 'q
  sc_Memory :: 'q

record 'q sandbox_overcommit_ratio =
  oc_CPU :: 'q
  oc_Memory :: 'q

record 'q sandbox_resource_profile =
  rp_Mode :: sandbox_resource_mode
  rp_CPU :: "'q option"
  rp_Memory :: "'q option"
  rp_OvercommitRatio :: "'q sandbox_overcommit_ratio option"
  rp_PIDs :: int

record 'q sandbox_resource_requirements =
  rq_Limits :: "'q sandbox_compute_resources"

text \<open>\<^verbatim>\<open>fmt.Errorf\<close> with \<^verbatim>\<open>%w\<close> of the package's sentinel, or a plain error.\<close>

datatype profile_error = ErrInvalidSandboxResourceProfile string | ProfileError string

definition NewLegacySandboxResourceProfile :: "'q \<Rightarrow> 'q \<Rightarrow> int \<Rightarrow> 'q sandbox_resource_profile" where
  "NewLegacySandboxResourceProfile cpu memory pids =
     \<lparr>rp_Mode = SandboxResourceModeInvalid, rp_CPU = Some cpu, rp_Memory = Some memory,
      rp_OvercommitRatio = None, rp_PIDs = pids\<rparr>"

definition NewResourceAwareSandboxResourceProfile ::
    "'q \<Rightarrow> 'q \<Rightarrow> 'q \<Rightarrow> 'q \<Rightarrow> int \<Rightarrow> 'q sandbox_resource_profile" where
  "NewResourceAwareSandboxResourceProfile cpuLimit memoryLimit cpuRatio memoryRatio pids =
     \<lparr>rp_Mode = SandboxResourceModeResourceAware, rp_CPU = Some cpuLimit,
      rp_Memory = Some memoryLimit,
      rp_OvercommitRatio = Some \<lparr>oc_CPU = cpuRatio, oc_Memory = memoryRatio\<rparr>, rp_PIDs = pids\<rparr>"

definition ResourceMode :: "'q sandbox_resource_profile \<Rightarrow> sandbox_resource_mode" where
  "ResourceMode p =
     (if rp_CPU p = None \<or> rp_Memory p = None then SandboxResourceModeInvalid
      else case rp_Mode p of
        SandboxResourceModeInvalid \<Rightarrow>
          if rp_OvercommitRatio p \<noteq> None then SandboxResourceModeInvalid
          else SandboxResourceModeLegacySlot
      | SandboxResourceModeLegacySlot \<Rightarrow>
          if rp_OvercommitRatio p \<noteq> None then SandboxResourceModeInvalid
          else SandboxResourceModeLegacySlot
      | SandboxResourceModeResourceAware \<Rightarrow>
          if rp_OvercommitRatio p = None then SandboxResourceModeInvalid
          else SandboxResourceModeResourceAware
      | SandboxResourceModeOther s \<Rightarrow> SandboxResourceModeInvalid)"

definition LimitResources :: "'q sandbox_resource_profile \<Rightarrow> 'q sandbox_compute_resources option" where
  "LimitResources p =
     (if ResourceMode p = SandboxResourceModeInvalid then None
      else Some \<lparr>sc_CPU = the (rp_CPU p), sc_Memory = the (rp_Memory p)\<rparr>)"

definition divideRoundUp :: "'q quantity_api \<Rightarrow> int \<Rightarrow> 'q \<Rightarrow> string + int" where
  "divideRoundUp Q v ratio =
     (if v \<le> 0 \<or> q_Sign Q ratio \<le> 0 then Inl ''value and ratio must be greater than zero''
      else let ratioValue = q_AsDec Q ratio in
      if ratioValue \<le> 0 then Inl ''invalid ratio''
      else let (numerator, denominator) = quotient_of (of_int v / ratioValue);
               result = numerator div denominator;
               result = (if numerator mod denominator \<noteq> 0 then result + 1 else result)
      in if \<not> (min_int64 \<le> result \<and> result \<le> max_int64) \<or> result \<le> 0
         then Inl ''derived request is outside int64 range'' else Inr result)"

definition DeriveRequests ::
    "'q quantity_api \<Rightarrow> 'q sandbox_resource_profile \<Rightarrow> 'q sandbox_compute_resources
     \<Rightarrow> profile_error + 'q sandbox_compute_resources" where
  "DeriveRequests Q p limits =
     (case (ResourceMode p, rp_OvercommitRatio p) of
        (SandboxResourceModeResourceAware, Some ratio) \<Rightarrow>
          (case divideRoundUp Q (q_MilliValue Q (sc_CPU limits)) (oc_CPU ratio) of
             Inl err \<Rightarrow> Inl (ProfileError (''derive cpu request: '' @ err))
           | Inr cpuMilli \<Rightarrow>
               (case divideRoundUp Q (q_Value Q (sc_Memory limits)) (oc_Memory ratio) of
                  Inl err \<Rightarrow> Inl (ProfileError (''derive memory request: '' @ err))
                | Inr memoryBytes \<Rightarrow>
                    Inr \<lparr>sc_CPU = q_NewMilliQuantity Q cpuMilli,
                         sc_Memory = q_NewQuantity Q memoryBytes\<rparr>))
      | _ \<Rightarrow> Inl (ErrInvalidSandboxResourceProfile ''ResourceAware overcommit policy is required''))"

definition RequestResources ::
    "'q quantity_api \<Rightarrow> 'q sandbox_resource_profile \<Rightarrow> 'q sandbox_compute_resources option" where
  "RequestResources Q p =
     (if ResourceMode p \<noteq> SandboxResourceModeResourceAware then None
      else case DeriveRequests Q p (the (LimitResources p)) of Inl err \<Rightarrow> None | Inr r \<Rightarrow> Some r)"

definition ResolveLimits ::
    "'q quantity_api \<Rightarrow> 'q sandbox_resource_profile \<Rightarrow> 'q sandbox_resource_requirements option
     \<Rightarrow> profile_error + 'q sandbox_compute_resources" where
  "ResolveLimits Q p override =
     (case LimitResources p of
        None \<Rightarrow> Inl (ErrInvalidSandboxResourceProfile [])
      | Some limits \<Rightarrow>
          if override \<noteq> None \<and> ResourceMode p \<noteq> SandboxResourceModeResourceAware
          then Inl (ErrInvalidSandboxResourceProfile ''per-Sandbox resources require ResourceAware mode'')
          else let limits = (case override of None \<Rightarrow> limits | Some requirements \<Rightarrow> rq_Limits requirements) in
          if q_Sign Q (sc_CPU limits) \<le> 0 \<or> q_Sign Q (sc_Memory limits) \<le> 0
          then Inl (ErrInvalidSandboxResourceProfile ''cpu and memory limits must be greater than zero'')
          else if q_MilliValue Q (sc_CPU limits) < 10
          then Inl (ErrInvalidSandboxResourceProfile ''cpu limit must be at least 10m for Linux CFS enforcement'')
          else Inr limits)"

definition ResolveFastletCapacity ::
    "'q quantity_api \<Rightarrow> 'q sandbox_resource_profile \<Rightarrow> int
     \<Rightarrow> profile_error + 'q sandbox_compute_resources \<times> 'q sandbox_compute_resources" where
  "ResolveFastletCapacity Q p maxSandboxes =
     (if maxSandboxes \<le> 0 then Inl (ProfileError ''maxSandboxesPerPod must be greater than zero'')
      else case RequestResources Q p of
        None \<Rightarrow> Inl (ErrInvalidSandboxResourceProfile ''ResourceAware requests cannot be derived'')
      | Some requests \<Rightarrow>
          (let limits = the (LimitResources p);
               capacity = \<lparr>sc_CPU = q_Mul Q (sc_CPU requests) maxSandboxes,
                           sc_Memory = q_Mul Q (sc_Memory requests) maxSandboxes\<rparr>;
               runtimeBudget = capacity;
               runtimeBudget = (if q_Cmp Q (sc_CPU runtimeBudget) (sc_CPU limits) < 0
                 then runtimeBudget\<lparr>sc_CPU := sc_CPU limits\<rparr> else runtimeBudget);
               runtimeBudget = (if q_Cmp Q (sc_Memory runtimeBudget) (sc_Memory limits) < 0
                 then runtimeBudget\<lparr>sc_Memory := sc_Memory limits\<rparr> else runtimeBudget)
           in Inr (capacity, runtimeBudget)))"

text \<open>\<^verbatim>\<open>one\<close> is \<^verbatim>\<open>resource.MustParse("1")\<close>.\<close>

definition ValidateSandboxResourceProfile ::
    "'q quantity_api \<Rightarrow> 'q sandbox_resource_profile \<Rightarrow> profile_error option" where
  "ValidateSandboxResourceProfile Q p =
     (if rp_PIDs p \<le> 0 then Some (ErrInvalidSandboxResourceProfile ''pids must be greater than zero'')
      else case LimitResources p of
        None \<Rightarrow> Some (ErrInvalidSandboxResourceProfile
          ''cpu and memory plus a valid mode-specific overcommit policy are required'')
      | Some limits \<Rightarrow>
          if q_Sign Q (sc_CPU limits) \<le> 0 \<or> q_Sign Q (sc_Memory limits) \<le> 0
          then Some (ErrInvalidSandboxResourceProfile ''cpu and memory limits must be greater than zero'')
          else if q_MilliValue Q (sc_CPU limits) < 10
          then Some (ErrInvalidSandboxResourceProfile ''cpu limit must be at least 10m for Linux CFS enforcement'')
          else if ResourceMode p = SandboxResourceModeLegacySlot then None
          else let one = the (q_Parse Q ''1''); ratio = the (rp_OvercommitRatio p) in
          if q_Cmp Q (oc_CPU ratio) one < 0 \<or> q_Cmp Q (oc_Memory ratio) one < 0
          then Some (ErrInvalidSandboxResourceProfile ''cpu and memory overcommit ratios must be at least 1'')
          else case DeriveRequests Q p limits of
            Inl err \<Rightarrow> Some (ErrInvalidSandboxResourceProfile ''cannot derive positive cpu and memory requests'')
          | Inr requests \<Rightarrow>
              if q_Sign Q (sc_CPU requests) \<le> 0 \<or> q_Sign Q (sc_Memory requests) \<le> 0
              then Some (ErrInvalidSandboxResourceProfile ''cannot derive positive cpu and memory requests'')
              else None)"

section \<open>Derived requests\<close>

lemma quotient_ceiling:
  "(let (n, d) = quotient_of r; k = n div d in if n mod d \<noteq> 0 then k + 1 else k) = \<lceil>r\<rceil>"
proof -
  obtain n d where q: "quotient_of r = (n, d)" by fastforce
  then have "0 < d" and r: "r = of_int n / of_int d"
    by (simp_all add: quotient_of_denom_pos quotient_of_div)
  have "\<lceil>r\<rceil> = - (- n div d)" unfolding r by (simp add: ceiling_divide_eq_div)
  also have "\<dots> = (if n mod d \<noteq> 0 then n div d + 1 else n div d)"
    using \<open>0 < d\<close> by (simp add: zdiv_zminus1_eq_if)
  finally show ?thesis by (simp add: q)
qed

lemma divideRoundUp_eq:
  assumes "quantity_laws Q nano"
  shows "divideRoundUp Q v ratio =
    (if v \<le> 0 \<or> nano ratio \<le> 0 then Inl ''value and ratio must be greater than zero''
     else if ceil_div (v * 10 ^ 9) (nano ratio) > max_int64
     then Inl ''derived request is outside int64 range''
     else Inr (ceil_div (v * 10 ^ 9) (nano ratio)))"
proof (cases "v \<le> 0 \<or> nano ratio \<le> 0")
  case True
  then show ?thesis by (auto simp: divideRoundUp_def quantity_sign[OF assms])
next
  case False
  let ?r = "of_int v / q_AsDec Q ratio :: rat"
  have "?r = of_int (v * 10 ^ 9) / of_int (nano ratio)"
    by (simp add: quantity_simps(7)[OF assms])
  then have ceil: "\<lceil>?r\<rceil> = ceil_div (v * 10 ^ 9) (nano ratio)"
    by (simp only: ceiling_divide_eq_div ceil_div_def)
  moreover have "0 < ceil_div (v * 10 ^ 9) (nano ratio)"
    using False by (simp add: ceil_div_pos)
  moreover have "0 < q_AsDec Q ratio" using False by (simp add: quantity_simps(7)[OF assms])
  ultimately show ?thesis
    using False quotient_ceiling[of ?r]
    by (auto simp: divideRoundUp_def quantity_sign[OF assms] Let_def split_beta min_int64_def
        split: if_splits)
qed

text \<open>A ratio of at least one never derives a request above the limit.\<close>

lemma ceil_div_ratio:
  assumes "0 < v" "10 ^ 9 \<le> ratio"
  shows "0 < ceil_div (v * 10 ^ 9) ratio" "ceil_div (v * 10 ^ 9) ratio \<le> v"
proof -
  have "0 < ratio" using assms(2) by simp
  then show "0 < ceil_div (v * 10 ^ 9) ratio" using assms(1) by (simp add: ceil_div_pos)
  have "v * 10 ^ 9 \<le> v * ratio" using assms by (intro mult_left_mono) auto
  then show "ceil_div (v * 10 ^ 9) ratio \<le> v" using \<open>0 < ratio\<close> by (simp add: ceil_div_le_iff)
qed

definition fits_int64 :: "('q \<Rightarrow> int) \<Rightarrow> 'q sandbox_compute_resources \<Rightarrow> bool" where
  "fits_int64 nano limits \<longleftrightarrow> ceil_div (nano (sc_CPU limits)) (10 ^ 6) \<le> max_int64 \<and>
     ceil_div (nano (sc_Memory limits)) (10 ^ 9) \<le> max_int64"

text \<open>The request of one resource, as the policy states it: the limit in whole units, divided by
  the ratio and rounded up.\<close>

definition derived_units :: "('q \<Rightarrow> int) \<Rightarrow> int \<Rightarrow> 'q \<Rightarrow> 'q \<Rightarrow> int" where
  "derived_units nano unit limit ratio =
     ceil_div (ceil_div (nano limit) unit * 10 ^ 9) (nano ratio)"

lemma derived_units_bounds:
  assumes "0 < unit" "0 < nano limit" "10 ^ 9 \<le> nano ratio"
  shows "0 < derived_units nano unit limit ratio"
    "derived_units nano unit limit ratio \<le> ceil_div (nano limit) unit"
  using ceil_div_ratio[OF ceil_div_pos[OF assms(1,2)] assms(3)] by (simp_all add: derived_units_def)

lemma DeriveRequests_units:
  assumes laws: "quantity_laws Q nano" and mode: "ResourceMode p = SandboxResourceModeResourceAware"
    and ratio: "rp_OvercommitRatio p = Some ratio" "10 ^ 9 \<le> nano (oc_CPU ratio)" "10 ^ 9 \<le> nano (oc_Memory ratio)"
    and limits: "0 < nano (sc_CPU limits)" "0 < nano (sc_Memory limits)" "fits_int64 nano limits"
  shows "DeriveRequests Q p limits =
    Inr \<lparr>sc_CPU = q_NewMilliQuantity Q (derived_units nano (10 ^ 6) (sc_CPU limits) (oc_CPU ratio)),
         sc_Memory = q_NewQuantity Q (derived_units nano (10 ^ 9) (sc_Memory limits) (oc_Memory ratio))\<rparr>"
proof -
  have cpu: "q_MilliValue Q (sc_CPU limits) = ceil_div (nano (sc_CPU limits)) (10 ^ 6)"
    and memory: "q_Value Q (sc_Memory limits) = ceil_div (nano (sc_Memory limits)) (10 ^ 9)"
    using quantity_simps(10,11)[OF laws] limits by (simp_all add: fits_int64_def)
  have "divideRoundUp Q (q_MilliValue Q (sc_CPU limits)) (oc_CPU ratio)
      = Inr (derived_units nano (10 ^ 6) (sc_CPU limits) (oc_CPU ratio))"
    using derived_units_bounds(2)[of "10 ^ 6" nano "sc_CPU limits" "oc_CPU ratio"]
      ceil_div_pos[of "10 ^ 6" "nano (sc_CPU limits)"] ratio limits
    by (simp add: divideRoundUp_eq[OF laws] cpu fits_int64_def derived_units_def)
  moreover have "divideRoundUp Q (q_Value Q (sc_Memory limits)) (oc_Memory ratio)
      = Inr (derived_units nano (10 ^ 9) (sc_Memory limits) (oc_Memory ratio))"
    using derived_units_bounds(2)[of "10 ^ 9" nano "sc_Memory limits" "oc_Memory ratio"]
      ceil_div_pos[of "10 ^ 9" "nano (sc_Memory limits)"] ratio limits
    by (simp add: divideRoundUp_eq[OF laws] memory fits_int64_def derived_units_def)
  ultimately show ?thesis by (simp add: DeriveRequests_def mode ratio(1))
qed

lemma Validate_ResourceAware:
  assumes laws: "quantity_laws Q nano" and valid: "ValidateSandboxResourceProfile Q p = None"
    and mode: "ResourceMode p = SandboxResourceModeResourceAware"
  obtains limits ratio where "LimitResources p = Some limits" "rp_OvercommitRatio p = Some ratio"
    "0 < nano (sc_CPU limits)" "0 < nano (sc_Memory limits)"
    "10 ^ 9 \<le> nano (oc_CPU ratio)" "10 ^ 9 \<le> nano (oc_Memory ratio)"
proof -
  obtain limits where limits: "LimitResources p = Some limits"
    using mode by (simp add: LimitResources_def)
  obtain ratio where ratio: "rp_OvercommitRatio p = Some ratio"
    using mode by (auto simp: ResourceMode_def split: if_splits sandbox_resource_mode.splits)
  obtain one where one: "q_Parse Q ''1'' = Some one" "nano one = 10 ^ 9"
    using laws by (auto simp: quantity_laws_def)
  show ?thesis
    using valid that[OF limits ratio]
    by (auto simp: ValidateSandboxResourceProfile_def limits ratio one mode quantity_sign[OF laws]
        quantity_cmp[OF laws] not_less not_le Let_def split: if_splits)
qed

text \<open>A concrete quantity type that satisfies the laws: whole numbers of nano units, with a parser
  for unsigned decimal integers. It instantiates the parameter where a property is evaluated.\<close>

definition parse_digits :: "string \<Rightarrow> int option" where
  "parse_digits s =
     (if s \<noteq> [] \<and> list_all (\<lambda>c. CHR ''0'' \<le> c \<and> c \<le> CHR ''9'') s
      then Some (fold (\<lambda>c n. n * 10 + (int (of_char c) - 48)) s 0) else None)"

definition nano_quantity :: "int quantity_api" where
  "nano_quantity = \<lparr>q_zero = 0, q_Sign = sgn, q_MilliValue = (\<lambda>q. ceil_div q (10 ^ 6)),
     q_Value = (\<lambda>q. ceil_div q (10 ^ 9)), q_Add = (+), q_Sub = (-), q_Mul = (*),
     q_Cmp = (\<lambda>a b. sgn (a - b)), q_Parse = (\<lambda>s. map_option (\<lambda>n. n * 10 ^ 9) (parse_digits s)),
     q_AsDec = (\<lambda>q. of_int q / 10 ^ 9), q_NewMilliQuantity = (\<lambda>n. n * 10 ^ 6),
     q_NewQuantity = (\<lambda>n. n * 10 ^ 9)\<rparr>"

lemma nano_quantity_laws: "quantity_laws nano_quantity id"
proof -
  have "parse_digits ''1'' = Some 1" by code_simp
  then show ?thesis by (simp add: quantity_laws_def nano_quantity_def)
qed

section \<open>Properties\<close>

text \<open>C30: a profile that validation accepts in ResourceAware mode can be scheduled. For every
  positive number of Sandboxes per Pod, default requests and Fastlet capacity are derived without
  error; each request is the limit in whole units divided by the ratio and rounded up, so it is
  positive and at most the limit rounded up to a whole millicore or byte; the commitment capacity
  is the number of Sandboxes times the request; and the runtime budget is the larger of that
  capacity and one Sandbox's limit, per resource. The limits are assumed to fit an \<^verbatim>\<open>int64\<close>.\<close>

theorem validated_profile_capacity:
  assumes laws: "quantity_laws Q nano"
    and valid: "ValidateSandboxResourceProfile Q p = None"
    and mode: "ResourceMode p = SandboxResourceModeResourceAware"
    and range: "LimitResources p = Some limits" "fits_int64 nano limits"
    and n: "0 < n"
  shows "\<exists>requests capacity budget ratio.
    RequestResources Q p = Some requests \<and>
    ResolveFastletCapacity Q p n = Inr (capacity, budget) \<and>
    rp_OvercommitRatio p = Some ratio \<and>
    nano (sc_CPU requests) = derived_units nano (10 ^ 6) (sc_CPU limits) (oc_CPU ratio) * 10 ^ 6 \<and>
    nano (sc_Memory requests) = derived_units nano (10 ^ 9) (sc_Memory limits) (oc_Memory ratio) * 10 ^ 9 \<and>
    0 < nano (sc_CPU requests) \<and> 0 < nano (sc_Memory requests) \<and>
    nano (sc_CPU requests) \<le> ceil_div (nano (sc_CPU limits)) (10 ^ 6) * 10 ^ 6 \<and>
    nano (sc_Memory requests) \<le> ceil_div (nano (sc_Memory limits)) (10 ^ 9) * 10 ^ 9 \<and>
    nano (sc_CPU capacity) = nano (sc_CPU requests) * n \<and>
    nano (sc_Memory capacity) = nano (sc_Memory requests) * n \<and>
    nano (sc_CPU budget) = max (nano (sc_CPU capacity)) (nano (sc_CPU limits)) \<and>
    nano (sc_Memory budget) = max (nano (sc_Memory capacity)) (nano (sc_Memory limits))"
proof -
  obtain ratio where *: "rp_OvercommitRatio p = Some ratio"
    "0 < nano (sc_CPU limits)" "0 < nano (sc_Memory limits)"
    "10 ^ 9 \<le> nano (oc_CPU ratio)" "10 ^ 9 \<le> nano (oc_Memory ratio)"
    using Validate_ResourceAware[OF laws valid mode] range(1) by (metis option.inject)
  have requests: "RequestResources Q p =
      Some \<lparr>sc_CPU = q_NewMilliQuantity Q (derived_units nano (10 ^ 6) (sc_CPU limits) (oc_CPU ratio)),
        sc_Memory = q_NewQuantity Q (derived_units nano (10 ^ 9) (sc_Memory limits) (oc_Memory ratio))\<rparr>"
    using DeriveRequests_units[OF laws mode *(1,4,5,2,3) range(2)]
    by (simp add: RequestResources_def mode range(1))
  note bounds = derived_units_bounds[of "10 ^ 6" nano "sc_CPU limits" "oc_CPU ratio", OF _ *(2,4)]
    derived_units_bounds[of "10 ^ 9" nano "sc_Memory limits" "oc_Memory ratio", OF _ *(3,5)]
  show ?thesis
    using n requests bounds *(1)
    by (simp add: ResolveFastletCapacity_def Let_def range(1) quantity_simps[OF laws]
        quantity_cmp[OF laws] max_def)
qed

theorem validated_profile_capacity_witness:
  "let p = NewResourceAwareSandboxResourceProfile (500 * 10 ^ 6) (10 ^ 18) (3 * 10 ^ 9) (15 * 10 ^ 8) 64
   in ValidateSandboxResourceProfile nano_quantity p = None \<and>
      (\<exists>requests. RequestResources nano_quantity p = Some requests \<and> sc_CPU requests = 167 * 10 ^ 6)"
proof -
  let ?p = "NewResourceAwareSandboxResourceProfile (500 * 10 ^ 6) (10 ^ 18) (3 * 10 ^ 9) (15 * 10 ^ 8) 64"
  let ?limits = "\<lparr>sc_CPU = 500 * 10 ^ 6, sc_Memory = 10 ^ 18\<rparr> :: int sandbox_compute_resources"
  have valid: "ValidateSandboxResourceProfile nano_quantity ?p = None"
    and mode: "ResourceMode ?p = SandboxResourceModeResourceAware"
    and limits: "LimitResources ?p = Some ?limits" and fits: "fits_int64 id ?limits"
    by code_simp+
  have units: "derived_units id (10 ^ 6) (500 * 10 ^ 6) (3 * 10 ^ 9) = (167 :: int)" by code_simp
  show ?thesis
    using validated_profile_capacity[OF nano_quantity_laws valid mode limits fits, of 4] valid units
    by (auto simp: NewResourceAwareSandboxResourceProfile_def)
qed

end
