(* ===== verification/Placement.thy ===== *)
theory Placement
  imports Image_Cache Resource_Profile
begin

text \<open>
  The in-memory placement registry, \<^verbatim>\<open>src/internal/controlplane/placement/registry.go\<close>: the local
  scheduling view of every Fastlet Pod, how the Pod watch, heartbeats, request feedback and local
  reservations change it, and the Top-K selection over it. Each exported method holds the slot's
  lock while it changes the slot, so it is one function on the registry; \<^verbatim>\<open>clone...\<close> copies are the
  identity on values. Slot counters are unbounded integers; sums of \<^verbatim>\<open>MilliValue\<close> and
  \<^verbatim>\<open>Value\<close> wrap at 64 bits as in the code. Metrics are left out.
\<close>

section \<open>Data\<close>

type_synonym fastlet_id = string

definition NewFastletID :: "string \<Rightarrow> string \<Rightarrow> fastlet_id" where
  "NewFastletID namespace name =
     (if namespace = [] \<or> namespace = ''default'' then name else namespace @ ''/'' @ name)"

definition DefaultObservationStaleAfter :: goduration where
  "DefaultObservationStaleAfter = 45 * second"

record 'q resource_demand =
  rd_CPU :: 'q
  rd_Memory :: 'q

record resource_revision =
  rf_Epoch :: string
  rf_Revision :: "64 word"

datatype registry_error = HeartbeatIsNil | ErrFastletNotFound | ErrStalePodIdentity
  | ErrStaleHeartbeat | ErrProfileMismatch

record 'q fastlet_info =
  fi_ID :: fastlet_id
  fi_Namespace :: string
  fi_PodName :: string
  fi_PodUID :: string
  fi_PodIP :: string
  fi_NodeName :: string
  fi_PoolName :: string
  fi_RuntimeName :: runtime_name
  fi_RuntimeProfileHash :: string
  fi_ResourceProfileHash :: string
  fi_InfraRevision :: string
  fi_FastletRevision :: string
  fi_InfraReady :: bool
  fi_PreparedArtifacts :: "string list"
  fi_RegistryRevision :: string
  fi_WarmImages :: "warm_image_state list"
  fi_PodReady :: bool
  fi_RuntimeReady :: bool
  fi_DrainRequested :: bool
  fi_Draining :: bool
  fi_Admission :: admission_status
  fi_ResourceCapacity :: "'q resource_demand"
  fi_ResourceCommitted :: "'q resource_demand"
  fi_InFlightResources :: "'q resource_demand"
  fi_InFlightSlots :: int
  fi_ResourceReceivedAt :: gotime
  fi_resourceFence :: resource_revision
  fi_Images :: "string list"
  fi_CacheEpoch :: string
  fi_CacheRevision :: "64 word"
  fi_CacheComplete :: bool
  fi_SandboxStatuses :: "(string, sandbox_status) gomap"
  fi_HeartbeatSequence :: "64 word"
  fi_LastHeartbeat :: gotime
  fi_PodObservedAt :: gotime
  fi_RejectedUntil :: gotime

definition Used :: "'q fastlet_info \<Rightarrow> int" where
  "Used i = as_Used (fi_Admission i)"

definition Capacity :: "'q fastlet_info \<Rightarrow> int" where
  "Capacity i = as_Capacity (fi_Admission i)"

definition SchedulingUsed :: "'q fastlet_info \<Rightarrow> int" where
  "SchedulingUsed i = as_Used (fi_Admission i) + fi_InFlightSlots i"

record 'q candidate_request =
  cq_Namespace :: string
  cq_PoolName :: string
  cq_RuntimeName :: runtime_name
  cq_RuntimeProfileHash :: string
  cq_ResourceProfileHash :: string
  cq_InfraRevision :: string
  cq_FastletRevision :: string
  cq_ResourceMode :: sandbox_resource_mode
  cq_Demand :: "'q resource_demand"
  cq_Image :: string
  cq_StableKey :: string
  cq_Now :: gotime
  cq_ExcludedFastlets :: "fastlet_id list"

record local_feedback =
  lf_PodUID :: string
  lf_BaseResourceEpoch :: string
  lf_BaseResourceRevision :: "64 word"
  lf_Code :: fastlet_error_code
  lf_Reason :: admission_reason
  lf_Admission :: "admission_status option"
  lf_Sandbox :: "sandbox_status option"
  lf_ObservedAt :: gotime
  lf_RetryAfter :: goduration

record 'q ranked_fastlet =
  rk_slot :: "'q fastlet_info"
  rk_id :: fastlet_id
  rk_imageHit :: bool
  rk_loadBucket :: int
  rk_serverOrder :: "64 word"
  rk_stableOrder :: "64 word"

record 'q in_memory_registry =
  rg_fastlets :: "(fastlet_id, 'q fastlet_info) gomap"
  rg_staleAfter :: goduration
  rg_serverSeed :: string

definition NewInMemoryRegistry :: "'q in_memory_registry" where
  "NewInMemoryRegistry =
     \<lparr>rg_fastlets = [], rg_staleAfter = DefaultObservationStaleAfter, rg_serverSeed = []\<rparr>"

definition SetStaleAfter :: "goduration \<Rightarrow> 'q in_memory_registry \<Rightarrow> 'q in_memory_registry" where
  "SetStaleAfter duration r = r\<lparr>rg_staleAfter := duration\<rparr>"

definition SetServerSeed :: "string \<Rightarrow> 'q in_memory_registry \<Rightarrow> 'q in_memory_registry" where
  "SetServerSeed seed r = r\<lparr>rg_serverSeed := seed\<rparr>"

text \<open>Change the slot of one Fastlet.\<close>

definition set_slot :: "fastlet_id \<Rightarrow> 'q fastlet_info \<Rightarrow> 'q in_memory_registry \<Rightarrow> 'q in_memory_registry" where
  "set_slot fid info r = r\<lparr>rg_fastlets := gm_put fid info (rg_fastlets r)\<rparr>"

section \<open>Local reservations\<close>

definition sum3 :: "int \<Rightarrow> int \<Rightarrow> int \<Rightarrow> int" where
  "sum3 a b c = wrap64 (wrap64 (a + b) + c)"

text \<open>The body of \<^verbatim>\<open>ReserveLocal\<close> on the locked slot, \<^verbatim>\<open>None\<close> when it returns false.\<close>

definition reserve_slot ::
    "'q quantity_api \<Rightarrow> 'q resource_demand \<Rightarrow> 'q fastlet_info \<Rightarrow> 'q fastlet_info option" where
  "reserve_slot Q demand info =
     (if SchedulingUsed info \<ge> Capacity info then None
      else if q_Sign Q (rd_CPU demand) > 0 \<and> q_Sign Q (rd_Memory demand) > 0
      then let cpu = sum3 (q_MilliValue Q (rd_CPU (fi_ResourceCommitted info)))
                 (q_MilliValue Q (rd_CPU (fi_InFlightResources info))) (q_MilliValue Q (rd_CPU demand));
               memory = sum3 (q_Value Q (rd_Memory (fi_ResourceCommitted info)))
                 (q_Value Q (rd_Memory (fi_InFlightResources info))) (q_Value Q (rd_Memory demand))
           in if cpu > q_MilliValue Q (rd_CPU (fi_ResourceCapacity info)) \<or>
                 memory > q_Value Q (rd_Memory (fi_ResourceCapacity info)) then None
              else Some (info\<lparr>fi_InFlightResources :=
                  \<lparr>rd_CPU = q_Add Q (rd_CPU (fi_InFlightResources info)) (rd_CPU demand),
                   rd_Memory = q_Add Q (rd_Memory (fi_InFlightResources info)) (rd_Memory demand)\<rparr>,
                fi_InFlightSlots := fi_InFlightSlots info + 1\<rparr>)
      else Some (info\<lparr>fi_InFlightSlots := fi_InFlightSlots info + 1\<rparr>))"

definition ReserveLocal ::
    "'q quantity_api \<Rightarrow> fastlet_id \<Rightarrow> 'q resource_demand \<Rightarrow> 'q in_memory_registry
     \<Rightarrow> bool \<times> 'q in_memory_registry" where
  "ReserveLocal Q fid demand r =
     (case gm_get (rg_fastlets r) fid of
        None \<Rightarrow> (False, r)
      | Some info \<Rightarrow> (case reserve_slot Q demand info of
          None \<Rightarrow> (False, r) | Some info \<Rightarrow> (True, set_slot fid info r)))"

definition release_slot ::
    "'q quantity_api \<Rightarrow> 'q resource_demand \<Rightarrow> 'q fastlet_info \<Rightarrow> 'q fastlet_info" where
  "release_slot Q demand info =
     (let info = (if fi_InFlightSlots info > 0
            then info\<lparr>fi_InFlightSlots := fi_InFlightSlots info - 1\<rparr> else info)
      in if q_Sign Q (rd_CPU demand) > 0 \<and> q_Sign Q (rd_Memory demand) > 0
         then info\<lparr>fi_InFlightResources :=
             \<lparr>rd_CPU = q_Sub Q (rd_CPU (fi_InFlightResources info)) (rd_CPU demand),
              rd_Memory = q_Sub Q (rd_Memory (fi_InFlightResources info)) (rd_Memory demand)\<rparr>\<rparr>
         else info)"

definition ReleaseLocal ::
    "'q quantity_api \<Rightarrow> fastlet_id \<Rightarrow> 'q resource_demand \<Rightarrow> 'q in_memory_registry
     \<Rightarrow> 'q in_memory_registry" where
  "ReleaseLocal Q fid demand r =
     (case gm_get (rg_fastlets r) fid of
        None \<Rightarrow> r | Some info \<Rightarrow> set_slot fid (release_slot Q demand info) r)"

section \<open>Pod watch\<close>

definition preserveHeartbeat :: "'q fastlet_info \<Rightarrow> 'q fastlet_info \<Rightarrow> 'q fastlet_info" where
  "preserveHeartbeat target previous = target\<lparr>
     fi_RuntimeReady := fi_RuntimeReady previous,
     fi_InfraReady := fi_InfraReady previous,
     fi_Draining := fi_DrainRequested target \<or> fi_Draining previous,
     fi_Admission := fi_Admission previous,
     fi_ResourceReceivedAt := fi_ResourceReceivedAt previous,
     fi_ResourceCommitted := fi_ResourceCommitted previous,
     fi_InFlightResources := fi_InFlightResources previous,
     fi_InFlightSlots := fi_InFlightSlots previous,
     fi_resourceFence := fi_resourceFence previous,
     fi_Images := fi_Images previous,
     fi_PreparedArtifacts := fi_PreparedArtifacts previous,
     fi_RegistryRevision := fi_RegistryRevision previous,
     fi_WarmImages := fi_WarmImages previous,
     fi_CacheEpoch := fi_CacheEpoch previous,
     fi_CacheRevision := fi_CacheRevision previous,
     fi_CacheComplete := fi_CacheComplete previous,
     fi_SandboxStatuses := fi_SandboxStatuses previous,
     fi_HeartbeatSequence := fi_HeartbeatSequence previous,
     fi_LastHeartbeat := fi_LastHeartbeat previous,
     fi_RejectedUntil := fi_RejectedUntil previous\<rparr>"

text \<open>A slot that does not exist yet starts with an empty Pod UID, so nothing is preserved.\<close>

definition UpsertPod :: "'q fastlet_info \<Rightarrow> 'q in_memory_registry \<Rightarrow> 'q in_memory_registry" where
  "UpsertPod info r =
     (if fi_ID info = [] then r
      else set_slot (fi_ID info) (case gm_get (rg_fastlets r) (fi_ID info) of
          None \<Rightarrow> info
        | Some slot \<Rightarrow> if fi_PodUID slot \<noteq> [] \<and> fi_PodUID slot = fi_PodUID info
            then preserveHeartbeat info slot else info) r)"

definition RemoveIfPodUID :: "fastlet_id \<Rightarrow> string \<Rightarrow> 'q in_memory_registry \<Rightarrow> 'q in_memory_registry" where
  "RemoveIfPodUID fid podUID r =
     (case gm_get (rg_fastlets r) fid of
        None \<Rightarrow> r
      | Some slot \<Rightarrow> if fi_PodUID slot = podUID
          then r\<lparr>rg_fastlets := gm_del fid (rg_fastlets r)\<rparr> else r)"

definition GetAllFastlets :: "'q in_memory_registry \<Rightarrow> 'q fastlet_info list" where
  "GetAllFastlets r = gm_vals (rg_fastlets r)"

definition GetFastletByID :: "fastlet_id \<Rightarrow> 'q in_memory_registry \<Rightarrow> 'q fastlet_info option" where
  "GetFastletByID fid r = gm_get (rg_fastlets r) fid"

section \<open>Heartbeats\<close>

definition parseResourceVector ::
    "'q quantity_api \<Rightarrow> sandbox_resource_vector \<Rightarrow> 'q resource_demand option" where
  "parseResourceVector Q vector =
     (case q_Parse Q (rv_CPU vector) of
        None \<Rightarrow> None
      | Some cpu \<Rightarrow> if q_Sign Q cpu < 0 then None
          else (case q_Parse Q (rv_Memory vector) of
            None \<Rightarrow> None
          | Some memory \<Rightarrow> if q_Sign Q memory < 0 then None
              else Some \<lparr>rd_CPU = cpu, rd_Memory = memory\<rparr>))"

definition applyAdmissionResources :: "'q quantity_api \<Rightarrow> 'q fastlet_info \<Rightarrow> 'q fastlet_info" where
  "applyAdmissionResources Q info =
     (case as_Resources (fi_Admission info) of
        None \<Rightarrow> info
      | Some status \<Rightarrow>
          (case (parseResourceVector Q (ra_Capacity status), parseResourceVector Q (ra_Committed status)) of
             (Some capacity, Some committed) \<Rightarrow>
               if q_Sign Q (rd_CPU (fi_ResourceCapacity info)) > 0 \<and>
                  (q_Cmp Q (rd_CPU capacity) (rd_CPU (fi_ResourceCapacity info)) \<noteq> 0 \<or>
                   q_Cmp Q (rd_Memory capacity) (rd_Memory (fi_ResourceCapacity info)) \<noteq> 0)
               then info\<lparr>fi_ResourceReceivedAt := time_zero\<rparr>
               else info\<lparr>fi_ResourceCapacity := capacity, fi_ResourceCommitted := committed\<rparr>
           | _ \<Rightarrow> info\<lparr>fi_ResourceReceivedAt := time_zero\<rparr>))"

definition applyHeartbeatAdmission ::
    "'q fastlet_info \<Rightarrow> admission_status \<Rightarrow> gotime \<Rightarrow> 'q fastlet_info" where
  "applyHeartbeatAdmission info incoming observedAt =
     (case as_Resources incoming of
        None \<Rightarrow> if as_Resources (fi_Admission info) = None
          then info\<lparr>fi_Admission := incoming\<rparr> else info
      | Some resourceStatus \<Rightarrow>
          (let current = as_Resources (fi_Admission info);
               accept = (case current of None \<Rightarrow> True | Some current \<Rightarrow>
                 ra_Epoch resourceStatus \<noteq> ra_Epoch current \<or>
                 ra_Revision resourceStatus \<ge> ra_Revision current);
               accept = (if ra_Epoch resourceStatus = rf_Epoch (fi_resourceFence info) \<and>
                            ra_Revision resourceStatus \<le> rf_Revision (fi_resourceFence info)
                 then (case current of None \<Rightarrow> False | Some current \<Rightarrow>
                   ra_Epoch resourceStatus = ra_Epoch current \<and>
                   ra_Revision resourceStatus = ra_Revision current \<and>
                   ra_State current = ra_State resourceStatus \<and>
                   ra_Reason current = ra_Reason resourceStatus)
                 else accept);
               info = (if accept then info\<lparr>fi_Admission := incoming\<rparr> else info)
           in case as_Resources (fi_Admission info) of
                None \<Rightarrow> info
              | Some accepted \<Rightarrow>
                  if ra_Epoch accepted = ra_Epoch resourceStatus \<and>
                     ra_Revision accepted = ra_Revision resourceStatus
                  then info\<lparr>fi_ResourceReceivedAt := observedAt\<rparr> else info))"

definition resourceRejectionCleared :: "'q fastlet_info \<Rightarrow> bool" where
  "resourceRejectionCleared info =
     (case as_Resources (fi_Admission info) of
        None \<Rightarrow> True
      | Some status \<Rightarrow> ra_State status = AdmissionStateOpen \<and>
          (rf_Epoch (fi_resourceFence info) = [] \<or>
           ra_Epoch status \<noteq> rf_Epoch (fi_resourceFence info) \<or>
           ra_Revision status > rf_Revision (fi_resourceFence info)))"

text \<open>The cache part of \<^verbatim>\<open>ApplyHeartbeat\<close>: a full snapshot replaces the image list; a revision
  gap without one empties it.\<close>

definition applyHeartbeatCache :: "cache_snapshot \<Rightarrow> 'q fastlet_info \<Rightarrow> 'q fastlet_info" where
  "applyHeartbeatCache cache info =
     (let info = (if cs_Full cache
            then info\<lparr>fi_CacheComplete := cs_Complete cache,
              fi_Images := (if cs_Complete cache then NormalizeInventory (cs_Images cache) else [])\<rparr>
            else if cs_Epoch cache \<noteq> fi_CacheEpoch info \<or> cs_Revision cache \<noteq> fi_CacheRevision info
            then info\<lparr>fi_CacheComplete := False, fi_Images := []\<rparr>
            else info)
      in info\<lparr>fi_CacheEpoch := cs_Epoch cache, fi_CacheRevision := cs_Revision cache\<rparr>)"

definition heartbeatProfileMismatch :: "heartbeat_response \<Rightarrow> 'q fastlet_info \<Rightarrow> bool" where
  "heartbeatProfileMismatch heartbeat info \<longleftrightarrow>
     (fi_RuntimeProfileHash info \<noteq> [] \<and> fs_RuntimeProfileHash heartbeat \<noteq> fi_RuntimeProfileHash info) \<or>
     (fi_ResourceProfileHash info \<noteq> [] \<and> fs_ResourceProfileHash heartbeat \<noteq> fi_ResourceProfileHash info) \<or>
     (fi_InfraRevision info \<noteq> [] \<and> fs_InfraRevision heartbeat \<noteq> fi_InfraRevision info)"

definition statuses_by_id :: "sandbox_status list \<Rightarrow> (string, sandbox_status) gomap" where
  "statuses_by_id statuses = fold (\<lambda>status. gm_put (ss_SandboxID status) status) statuses []"

definition heartbeatReadiness :: "heartbeat_response \<Rightarrow> 'q fastlet_info \<Rightarrow> 'q fastlet_info" where
  "heartbeatReadiness heartbeat info = info\<lparr>
     fi_RuntimeReady := fs_RuntimeReady heartbeat,
     fi_InfraReady := fs_InfraReady heartbeat,
     fi_Draining := fi_DrainRequested info \<or> fs_Draining heartbeat,
     fi_PreparedArtifacts := fs_PreparedArtifacts heartbeat,
     fi_RegistryRevision := fs_RegistryRevision heartbeat,
     fi_WarmImages := fs_WarmImages heartbeat\<rparr>"

definition adoptProfiles :: "heartbeat_response \<Rightarrow> 'q fastlet_info \<Rightarrow> 'q fastlet_info" where
  "adoptProfiles heartbeat info =
     (let info = (if fi_RuntimeProfileHash info = []
            then info\<lparr>fi_RuntimeProfileHash := fs_RuntimeProfileHash heartbeat\<rparr> else info);
          info = (if fi_ResourceProfileHash info = []
            then info\<lparr>fi_ResourceProfileHash := fs_ResourceProfileHash heartbeat\<rparr> else info)
      in if fi_InfraRevision info = []
         then info\<lparr>fi_InfraRevision := fs_InfraRevision heartbeat\<rparr> else info)"

text \<open>What an accepted heartbeat does to the slot.\<close>

definition acceptHeartbeat ::
    "'q quantity_api \<Rightarrow> heartbeat_response \<Rightarrow> gotime \<Rightarrow> 'q fastlet_info \<Rightarrow> 'q fastlet_info" where
  "acceptHeartbeat Q heartbeat observedAt info =
     (let info = heartbeatReadiness heartbeat info;
          info = applyHeartbeatAdmission info (fs_Admission heartbeat) observedAt;
          info = applyAdmissionResources Q info;
          info = adoptProfiles heartbeat info;
          info = info\<lparr>fi_SandboxStatuses := statuses_by_id (fs_SandboxStatuses heartbeat)\<rparr>;
          info = applyHeartbeatCache (hr_Cache heartbeat) info;
          info = info\<lparr>fi_HeartbeatSequence := hr_Sequence heartbeat, fi_LastHeartbeat := observedAt\<rparr>
      in if resourceRejectionCleared info then info\<lparr>fi_RejectedUntil := time_zero\<rparr> else info)"

definition ApplyHeartbeat ::
    "'q quantity_api \<Rightarrow> fastlet_id \<Rightarrow> string \<Rightarrow> heartbeat_response option \<Rightarrow> gotime
     \<Rightarrow> 'q in_memory_registry \<Rightarrow> registry_error option \<times> 'q in_memory_registry" where
  "ApplyHeartbeat Q fid expectedPodUID heartbeat observedAt r =
     (case heartbeat of
        None \<Rightarrow> (Some HeartbeatIsNil, r)
      | Some heartbeat \<Rightarrow>
          (case gm_get (rg_fastlets r) fid of
             None \<Rightarrow> (Some ErrFastletNotFound, r)
           | Some info \<Rightarrow>
               if fi_PodUID info = [] \<or> fi_PodUID info \<noteq> expectedPodUID \<or>
                  fs_FastletPodUID heartbeat \<noteq> expectedPodUID
               then (Some ErrStalePodIdentity, r)
               else if cs_Epoch (hr_Cache heartbeat) = fi_CacheEpoch info \<and>
                  hr_Sequence heartbeat \<le> fi_HeartbeatSequence info
               then (Some ErrStaleHeartbeat, r)
               else if heartbeatProfileMismatch heartbeat info
               then (Some ErrProfileMismatch,
                 set_slot fid (info\<lparr>fi_RuntimeReady := False, fi_LastHeartbeat := observedAt\<rparr>) r)
               else (None, set_slot fid (acceptHeartbeat Q heartbeat observedAt info) r)))"

section \<open>Request feedback\<close>

definition applyFeedbackAdmission ::
    "'q fastlet_info \<Rightarrow> admission_status \<Rightarrow> local_feedback \<Rightarrow> 'q fastlet_info option" where
  "applyFeedbackAdmission info incoming feedback =
     (case as_Resources incoming of
        None \<Rightarrow> None
      | Some resourceStatus \<Rightarrow>
          if (case as_Resources (fi_Admission info) of
                None \<Rightarrow> False
              | Some current \<Rightarrow>
                  if ra_Epoch resourceStatus = ra_Epoch current
                  then ra_Revision resourceStatus < ra_Revision current
                  else lf_BaseResourceEpoch feedback \<noteq> ra_Epoch current \<or>
                       lf_BaseResourceRevision feedback \<noteq> ra_Revision current)
          then None
          else let info = info\<lparr>fi_Admission := incoming, fi_ResourceReceivedAt := lf_ObservedAt feedback\<rparr>
          in Some (if lf_Code feedback = ErrorCapacityRejected \<or>
                      ra_State resourceStatus = AdmissionStateBlocked \<or>
                      ra_State resourceStatus = AdmissionStateUnknown
             then info\<lparr>fi_resourceFence :=
               \<lparr>rf_Epoch = ra_Epoch resourceStatus, rf_Revision = ra_Revision resourceStatus\<rparr>\<rparr>
             else info))"

definition sandboxObservationAtOrAfter :: "sandbox_status \<Rightarrow> sandbox_status \<Rightarrow> bool" where
  "sandboxObservationAtOrAfter incoming current =
     (if ss_InstanceGeneration incoming \<noteq> ss_InstanceGeneration current
      then ss_InstanceGeneration incoming > ss_InstanceGeneration current
      else if ss_AssignmentAttempt incoming \<noteq> ss_AssignmentAttempt current
      then ss_AssignmentAttempt incoming > ss_AssignmentAttempt current
      else if ss_AcceptedGeneration incoming \<noteq> ss_AcceptedGeneration current
      then ss_AcceptedGeneration incoming > ss_AcceptedGeneration current
      else ss_AppliedGeneration incoming \<ge> ss_AppliedGeneration current)"

definition rejectingCode :: "fastlet_error_code \<Rightarrow> bool" where
  "rejectingCode code \<longleftrightarrow> code \<in> {ErrorCapacityRejected, ErrorDraining, ErrorRuntimeUnavailable,
     ErrorNetworkUnavailable, ErrorInfraUnavailable}"

text \<open>The three parts of \<^verbatim>\<open>RecordFeedback\<close> on the locked slot, after the defaults for time and
  delay: the admission snapshot (\<^verbatim>\<open>None\<close> when it is not accepted, and then nothing else of the
  feedback is), the Sandbox observation, and the rejection window.\<close>

definition recordAdmission ::
    "'q quantity_api \<Rightarrow> local_feedback \<Rightarrow> 'q fastlet_info \<Rightarrow> 'q fastlet_info option" where
  "recordAdmission Q feedback info =
     (case lf_Admission feedback of
        None \<Rightarrow> Some info
      | Some admission \<Rightarrow> if as_Resources admission = None then Some info
          else map_option (applyAdmissionResources Q) (applyFeedbackAdmission info admission feedback))"

definition recordSandbox :: "local_feedback \<Rightarrow> 'q fastlet_info \<Rightarrow> 'q fastlet_info" where
  "recordSandbox feedback info =
     (case lf_Sandbox feedback of
        None \<Rightarrow> info
      | Some status \<Rightarrow>
          if ss_SandboxID status \<noteq> [] \<and>
             (case gm_get (fi_SandboxStatuses info) (ss_SandboxID status) of
                None \<Rightarrow> True | Some current \<Rightarrow> sandboxObservationAtOrAfter status current)
          then info\<lparr>fi_SandboxStatuses := gm_put (ss_SandboxID status) status (fi_SandboxStatuses info)\<rparr>
          else info)"

definition recordRejection :: "local_feedback \<Rightarrow> 'q fastlet_info \<Rightarrow> 'q fastlet_info" where
  "recordRejection feedback info =
     (if rejectingCode (lf_Code feedback)
      then info\<lparr>fi_RejectedUntil := time_add (lf_ObservedAt feedback) (lf_RetryAfter feedback)\<rparr>
      else if resourceRejectionCleared info then info\<lparr>fi_RejectedUntil := time_zero\<rparr>
      else info)"

definition record_feedback_slot ::
    "'q quantity_api \<Rightarrow> local_feedback \<Rightarrow> 'q fastlet_info \<Rightarrow> 'q fastlet_info" where
  "record_feedback_slot Q feedback info =
     (if lf_PodUID feedback \<noteq> [] \<and> fi_PodUID info \<noteq> lf_PodUID feedback then info
      else case recordAdmission Q feedback info of
        None \<Rightarrow> info
      | Some info \<Rightarrow> recordRejection feedback (recordSandbox feedback info))"

definition RecordFeedback ::
    "'q quantity_api \<Rightarrow> gotime \<Rightarrow> fastlet_id \<Rightarrow> local_feedback \<Rightarrow> 'q in_memory_registry
     \<Rightarrow> 'q in_memory_registry" where
  "RecordFeedback Q now fid feedback r =
     (case gm_get (rg_fastlets r) fid of
        None \<Rightarrow> r
      | Some info \<Rightarrow>
          (let feedback = (if time_is_zero (lf_ObservedAt feedback)
                 then feedback\<lparr>lf_ObservedAt := now\<rparr> else feedback);
               feedback = (if lf_RetryAfter feedback \<le> 0
                 then feedback\<lparr>lf_RetryAfter := 5 * second\<rparr> else feedback)
           in set_slot fid (record_feedback_slot Q feedback info) r))"

section \<open>Schedulability\<close>

definition HasFreshHostMemoryPressure :: "'q fastlet_info \<Rightarrow> gotime \<Rightarrow> goduration \<Rightarrow> bool" where
  "HasFreshHostMemoryPressure info now staleAfter =
     (case as_Resources (fi_Admission info) of
        None \<Rightarrow> False
      | Some status \<Rightarrow>
          fi_NodeName info \<noteq> [] \<and> ra_Version status = ''v2'' \<and>
          ra_State status = AdmissionStateBlocked \<and>
          (ra_Reason status = AdmissionReasonHostMemoryPressure \<or>
           ra_Reason status = AdmissionReasonNodeMemoryPressure) \<and>
          \<not> time_is_zero (fi_ResourceReceivedAt info) \<and>
          time_sub now (fi_ResourceReceivedAt info) \<le> staleAfter \<and>
          \<not> time_is_zero (fi_LastHeartbeat info) \<and>
          time_sub now (fi_LastHeartbeat info) \<le> staleAfter)"

definition FreshHostMemoryPressureNodes ::
    "'q fastlet_info list \<Rightarrow> gotime \<Rightarrow> goduration \<Rightarrow> string set" where
  "FreshHostMemoryPressureNodes infos now staleAfter =
     set (map fi_NodeName (filter (\<lambda>info. HasFreshHostMemoryPressure info now staleAfter) infos))"

record 'q schedulability_view =
  sv_Schedulable :: bool
  sv_FreeSlots :: int
  sv_FreeResources :: "'q resource_demand"

definition no_view :: "'q quantity_api \<Rightarrow> 'q schedulability_view" where
  "no_view Q = \<lparr>sv_Schedulable = False, sv_FreeSlots = 0,
     sv_FreeResources = \<lparr>rd_CPU = q_zero Q, rd_Memory = q_zero Q\<rparr>\<rparr>"

definition Fits :: "'q quantity_api \<Rightarrow> 'q schedulability_view \<Rightarrow> 'q resource_demand \<Rightarrow> bool" where
  "Fits Q v demand \<longleftrightarrow> sv_Schedulable v \<and> q_Sign Q (rd_CPU demand) > 0 \<and>
     q_Sign Q (rd_Memory demand) > 0 \<and>
     q_Cmp Q (rd_CPU demand) (rd_CPU (sv_FreeResources v)) \<le> 0 \<and>
     q_Cmp Q (rd_Memory demand) (rd_Memory (sv_FreeResources v)) \<le> 0"

text \<open>The first guard of \<^verbatim>\<open>ResourceSchedulability\<close>, negated.\<close>

definition freshAndOpen :: "'q fastlet_info \<Rightarrow> gotime \<Rightarrow> goduration \<Rightarrow> bool" where
  "freshAndOpen info now staleAfter \<longleftrightarrow>
     \<not> (\<not> fi_PodReady info \<or> \<not> fi_RuntimeReady info \<or> \<not> fi_InfraReady info \<or> fi_Draining info \<or>
        fi_DrainRequested info \<or> time_is_zero (fi_LastHeartbeat info) \<or>
        time_sub now (fi_LastHeartbeat info) > staleAfter \<or> now < fi_RejectedUntil info \<or>
        (case as_Resources (fi_Admission info) of None \<Rightarrow> True | Some status \<Rightarrow>
           ra_Version status \<noteq> ''v2'' \<or> time_is_zero (fi_ResourceReceivedAt info) \<or>
           time_sub now (fi_ResourceReceivedAt info) > staleAfter \<or>
           ra_State status \<noteq> AdmissionStateOpen))"

definition free_resources :: "'q quantity_api \<Rightarrow> 'q fastlet_info \<Rightarrow> 'q resource_demand" where
  "free_resources Q info =
     \<lparr>rd_CPU = q_Sub Q (q_Sub Q (rd_CPU (fi_ResourceCapacity info)) (rd_CPU (fi_ResourceCommitted info)))
         (rd_CPU (fi_InFlightResources info)),
      rd_Memory = q_Sub Q (q_Sub Q (rd_Memory (fi_ResourceCapacity info)) (rd_Memory (fi_ResourceCommitted info)))
         (rd_Memory (fi_InFlightResources info))\<rparr>"

definition ResourceSchedulability ::
    "'q quantity_api \<Rightarrow> 'q fastlet_info \<Rightarrow> gotime \<Rightarrow> goduration \<Rightarrow> 'q schedulability_view" where
  "ResourceSchedulability Q info now staleAfter =
     (if \<not> freshAndOpen info now staleAfter then no_view Q
      else let free = free_resources Q info;
               freeSlots = wrap32 (max 0 (Capacity info - SchedulingUsed info))
      in if freeSlots \<le> 0 \<or> q_Sign Q (rd_CPU free) \<le> 0 \<or> q_Sign Q (rd_Memory free) \<le> 0
         then no_view Q
         else \<lparr>sv_Schedulable = True, sv_FreeSlots = freeSlots, sv_FreeResources = free\<rparr>)"

definition EffectiveFreeCapacity ::
    "'q quantity_api \<Rightarrow> 'q fastlet_info \<Rightarrow> 'q resource_demand \<Rightarrow> gotime \<Rightarrow> goduration \<Rightarrow> int" where
  "EffectiveFreeCapacity Q info demand now staleAfter =
     (let view = ResourceSchedulability Q info now staleAfter in
      if \<not> Fits Q view demand then 0
      else let cpuFree = go_div (q_MilliValue Q (rd_CPU (sv_FreeResources view))) (q_MilliValue Q (rd_CPU demand));
               memoryFree = go_div (q_Value Q (rd_Memory (sv_FreeResources view))) (q_Value Q (rd_Memory demand));
               free = min (sv_FreeSlots view) (min cpuFree memoryFree)
      in if free \<le> 0 then 0 else wrap32 free)"

definition resourceEligible ::
    "'q quantity_api \<Rightarrow> 'q fastlet_info \<Rightarrow> 'q candidate_request \<Rightarrow> goduration \<Rightarrow> bool" where
  "resourceEligible Q info request staleAfter =
     Fits Q (ResourceSchedulability Q info (cq_Now request) staleAfter) (cq_Demand request)"

section \<open>Selection\<close>

definition hardFilter ::
    "'q quantity_api \<Rightarrow> 'q fastlet_info \<Rightarrow> 'q candidate_request \<Rightarrow> goduration \<Rightarrow> string set \<Rightarrow> bool" where
  "hardFilter Q info request staleAfter blockedNodes =
     (if fi_ID info \<in> set (cq_ExcludedFastlets request) then False
      else if fi_Namespace info \<noteq> cq_Namespace request \<or> fi_PoolName info \<noteq> cq_PoolName request then False
      else if \<not> fi_PodReady info \<or> \<not> fi_RuntimeReady info \<or> \<not> fi_InfraReady info \<or> fi_Draining info \<or>
              time_is_zero (fi_LastHeartbeat info) then False
      else if time_sub (cq_Now request) (fi_LastHeartbeat info) > staleAfter \<or>
              cq_Now request < fi_RejectedUntil info then False
      else if Capacity info \<le> 0 \<or> SchedulingUsed info \<ge> Capacity info then False
      else if cq_RuntimeName request \<noteq> no_runtime \<and> fi_RuntimeName info \<noteq> cq_RuntimeName request then False
      else if cq_RuntimeProfileHash request \<noteq> [] \<and>
              fi_RuntimeProfileHash info \<noteq> cq_RuntimeProfileHash request then False
      else if cq_ResourceProfileHash request \<noteq> [] \<and>
              fi_ResourceProfileHash info \<noteq> cq_ResourceProfileHash request then False
      else if cq_InfraRevision request \<noteq> [] \<and> fi_InfraRevision info \<noteq> cq_InfraRevision request then False
      else if cq_FastletRevision request \<noteq> [] \<and>
              fi_FastletRevision info \<noteq> cq_FastletRevision request then False
      else if cq_ResourceMode request = SandboxResourceModeResourceAware
      then (if fi_NodeName info \<in> blockedNodes then False else resourceEligible Q info request staleAfter)
      else True)"

text \<open>Go's division by a zero capacity would give an infinity or NaN; the filter lets no such
  Fastlet through while its in-flight resources are not negative, see \<^verbatim>\<open>eligible_load_defined\<close>.\<close>

definition dominantResourceLoad :: "'q quantity_api \<Rightarrow> 'q fastlet_info \<Rightarrow> 'q candidate_request \<Rightarrow> rat" where
  "dominantResourceLoad Q info request =
     (let slotLoad = f64_div (f64_of_int (SchedulingUsed info)) (f64_of_int (Capacity info)) in
      if cq_ResourceMode request \<noteq> SandboxResourceModeResourceAware then slotLoad
      else let cpuLoad = f64_div
                 (f64_of_int (wrap64 (q_MilliValue Q (rd_CPU (fi_ResourceCommitted info)) +
                    q_MilliValue Q (rd_CPU (fi_InFlightResources info)))))
                 (f64_of_int (q_MilliValue Q (rd_CPU (fi_ResourceCapacity info))));
               memoryLoad = f64_div
                 (f64_of_int (wrap64 (q_Value Q (rd_Memory (fi_ResourceCommitted info)) +
                    q_Value Q (rd_Memory (fi_InFlightResources info)))))
                 (f64_of_int (q_Value Q (rd_Memory (fi_ResourceCapacity info))))
      in max slotLoad (max cpuLoad memoryLoad))"

definition imageHit :: "'q fastlet_info \<Rightarrow> string \<Rightarrow> bool" where
  "imageHit info ref =
     (if ref = [] \<or> \<not> fi_CacheComplete info then False
      else let index = search_strings (fi_Images info) ref
      in index < length (fi_Images info) \<and> fi_Images info ! index = ref)"

definition stableOrder :: "string \<Rightarrow> fastlet_id \<Rightarrow> 64 word" where
  "stableOrder key fid = fnv64a (key @ ''|'' @ fid)"

definition rank_fastlet ::
    "'q quantity_api \<Rightarrow> string \<Rightarrow> 'q candidate_request \<Rightarrow> 'q fastlet_info \<Rightarrow> 'q ranked_fastlet" where
  "rank_fastlet Q serverSeed request info =
     \<lparr>rk_slot = info, rk_id = fi_ID info, rk_imageHit = imageHit info (cq_Image request),
      rk_loadBucket = int_of_f64 (f64_mul (dominantResourceLoad Q info request) 10),
      rk_serverOrder = (if serverSeed \<noteq> [] then stableOrder serverSeed (fi_ID info) else 0),
      rk_stableOrder = stableOrder (cq_StableKey request) (fi_ID info)\<rparr>"

definition rankedLess :: "'q ranked_fastlet \<Rightarrow> 'q ranked_fastlet \<Rightarrow> bool" where
  "rankedLess left right =
     (if rk_imageHit left \<noteq> rk_imageHit right then rk_imageHit left
      else if rk_loadBucket left \<noteq> rk_loadBucket right then rk_loadBucket left < rk_loadBucket right
      else if rk_serverOrder left \<noteq> rk_serverOrder right then rk_serverOrder left < rk_serverOrder right
      else if rk_stableOrder left \<noteq> rk_stableOrder right then rk_stableOrder left < rk_stableOrder right
      else rk_id left < rk_id right)"

text \<open>The request after its defaults, the eligible Fastlets in map order, and the ranking.\<close>

definition normalizedRequest :: "gotime \<Rightarrow> 'q candidate_request \<Rightarrow> 'q candidate_request" where
  "normalizedRequest now request =
     (if time_is_zero (cq_Now request) then request\<lparr>cq_Now := now\<rparr> else request)
       \<lparr>cq_Image := NormalizeReference (cq_Image request)\<rparr>"

definition eligible ::
    "'q quantity_api \<Rightarrow> 'q in_memory_registry \<Rightarrow> 'q candidate_request \<Rightarrow> 'q fastlet_info list" where
  "eligible Q r request =
     (let slots = gm_vals (rg_fastlets r);
          blockedNodes = FreshHostMemoryPressureNodes slots (cq_Now request) (rg_staleAfter r)
      in filter (\<lambda>info. hardFilter Q info request (rg_staleAfter r) blockedNodes) slots)"

definition TopK ::
    "'q quantity_api \<Rightarrow> gotime \<Rightarrow> 'q in_memory_registry \<Rightarrow> 'q candidate_request \<Rightarrow> int
     \<Rightarrow> 'q fastlet_info list" where
  "TopK Q now r request k =
     (let request = normalizedRequest now request;
          ranked = map (rank_fastlet Q (rg_serverSeed r) request) (eligible Q r request);
          ranked = sort_slice rankedLess ranked;
          ranked = (if k > 0 \<and> int (length ranked) > k then take (nat k) ranked else ranked)
      in map rk_slot ranked)"

end
