(* ===== verification/Placement_Selection.thy ===== *)
theory Placement_Selection
  imports Placement
begin

text \<open>
  What the registry keeps invariant under every operation, and what \<^verbatim>\<open>TopK\<close> selects: the best
  ranked of exactly the eligible Fastlets, independent of the order in which Go visits the map.
\<close>

section \<open>Invariant\<close>

definition slot_wf :: "fastlet_id \<Rightarrow> 'q fastlet_info \<Rightarrow> bool" where
  "slot_wf fid info \<longleftrightarrow> fi_ID info = fid \<and> sorted (fi_Images info) \<and>
     gm_wf (fi_SandboxStatuses info) \<and> 0 \<le> fi_InFlightSlots info"

definition registry_wf :: "'q in_memory_registry \<Rightarrow> bool" where
  "registry_wf r \<longleftrightarrow> gm_wf (rg_fastlets r) \<and> gm_all slot_wf (rg_fastlets r)"

lemma registry_wf_slot: "registry_wf r \<Longrightarrow> gm_get (rg_fastlets r) fid = Some info \<Longrightarrow> slot_wf fid info"
  by (auto simp: registry_wf_def dest: gm_all_get)

lemma registry_wf_set_slot: "registry_wf r \<Longrightarrow> slot_wf fid info \<Longrightarrow> registry_wf (set_slot fid info r)"
  by (auto simp: registry_wf_def set_slot_def intro: wf_intros)

lemma GetFastletByID_set_slot [simp]:
  "GetFastletByID i (set_slot fid info r) = (if i = fid then Some info else GetFastletByID i r)"
  by (simp add: GetFastletByID_def set_slot_def)

lemma gm_wf_statuses_by_id [simp]: "gm_wf (statuses_by_id xs)"
proof -
  have "gm_wf m \<Longrightarrow> gm_wf (fold (\<lambda>s. gm_put (ss_SandboxID s) s) xs m)" for m
    by (induction xs arbitrary: m) auto
  then show ?thesis by (simp add: statuses_by_id_def)
qed

lemma reserve_slot_wf: "slot_wf fid info \<Longrightarrow> reserve_slot Q d info = Some info' \<Longrightarrow> slot_wf fid info'"
  by (auto simp: reserve_slot_def slot_wf_def Let_def split: if_splits)

lemma release_slot_wf: "slot_wf fid info \<Longrightarrow> slot_wf fid (release_slot Q d info)"
  by (auto simp: release_slot_def slot_wf_def Let_def)

lemma applyHeartbeatAdmission_frame [simp]:
  "fi_ID (applyHeartbeatAdmission i a t) = fi_ID i"
  "fi_Images (applyHeartbeatAdmission i a t) = fi_Images i"
  "fi_SandboxStatuses (applyHeartbeatAdmission i a t) = fi_SandboxStatuses i"
  "fi_InFlightSlots (applyHeartbeatAdmission i a t) = fi_InFlightSlots i"
  "fi_PodUID (applyHeartbeatAdmission i a t) = fi_PodUID i"
  "fi_CacheEpoch (applyHeartbeatAdmission i a t) = fi_CacheEpoch i"
  "fi_CacheRevision (applyHeartbeatAdmission i a t) = fi_CacheRevision i"
  "fi_CacheComplete (applyHeartbeatAdmission i a t) = fi_CacheComplete i"
  "fi_resourceFence (applyHeartbeatAdmission i a t) = fi_resourceFence i"
  "fi_RejectedUntil (applyHeartbeatAdmission i a t) = fi_RejectedUntil i"
  "fi_RuntimeReady (applyHeartbeatAdmission i a t) = fi_RuntimeReady i"
  "fi_InFlightResources (applyHeartbeatAdmission i a t) = fi_InFlightResources i"
  by (simp_all add: applyHeartbeatAdmission_def Let_def split: option.splits)

lemma applyAdmissionResources_frame [simp]:
  "fi_ID (applyAdmissionResources Q i) = fi_ID i"
  "fi_Images (applyAdmissionResources Q i) = fi_Images i"
  "fi_SandboxStatuses (applyAdmissionResources Q i) = fi_SandboxStatuses i"
  "fi_InFlightSlots (applyAdmissionResources Q i) = fi_InFlightSlots i"
  "fi_PodUID (applyAdmissionResources Q i) = fi_PodUID i"
  "fi_CacheEpoch (applyAdmissionResources Q i) = fi_CacheEpoch i"
  "fi_CacheRevision (applyAdmissionResources Q i) = fi_CacheRevision i"
  "fi_CacheComplete (applyAdmissionResources Q i) = fi_CacheComplete i"
  "fi_resourceFence (applyAdmissionResources Q i) = fi_resourceFence i"
  "fi_RejectedUntil (applyAdmissionResources Q i) = fi_RejectedUntil i"
  "fi_RuntimeReady (applyAdmissionResources Q i) = fi_RuntimeReady i"
  "fi_InFlightResources (applyAdmissionResources Q i) = fi_InFlightResources i"
  "fi_Admission (applyAdmissionResources Q i) = fi_Admission i"
  by (simp_all add: applyAdmissionResources_def split: option.splits)

lemma applyHeartbeatCache_frame [simp]:
  "fi_ID (applyHeartbeatCache c i) = fi_ID i"
  "fi_SandboxStatuses (applyHeartbeatCache c i) = fi_SandboxStatuses i"
  "fi_InFlightSlots (applyHeartbeatCache c i) = fi_InFlightSlots i"
  "fi_PodUID (applyHeartbeatCache c i) = fi_PodUID i"
  "fi_resourceFence (applyHeartbeatCache c i) = fi_resourceFence i"
  "fi_RejectedUntil (applyHeartbeatCache c i) = fi_RejectedUntil i"
  "fi_InFlightResources (applyHeartbeatCache c i) = fi_InFlightResources i"
  "fi_Admission (applyHeartbeatCache c i) = fi_Admission i"
  "fi_CacheEpoch (applyHeartbeatCache c i) = cs_Epoch c"
  "fi_CacheRevision (applyHeartbeatCache c i) = cs_Revision c"
  "sorted (fi_Images i) \<Longrightarrow> sorted (fi_Images (applyHeartbeatCache c i))"
  by (simp_all add: applyHeartbeatCache_def Let_def)

lemma heartbeat_parts_frame [simp]:
  "fi_ID (heartbeatReadiness h i) = fi_ID i" "fi_ID (adoptProfiles h i) = fi_ID i"
  "fi_PodUID (heartbeatReadiness h i) = fi_PodUID i" "fi_PodUID (adoptProfiles h i) = fi_PodUID i"
  "fi_InFlightSlots (heartbeatReadiness h i) = fi_InFlightSlots i"
  "fi_InFlightSlots (adoptProfiles h i) = fi_InFlightSlots i"
  "fi_InFlightResources (heartbeatReadiness h i) = fi_InFlightResources i"
  "fi_InFlightResources (adoptProfiles h i) = fi_InFlightResources i"
  "fi_resourceFence (heartbeatReadiness h i) = fi_resourceFence i"
  "fi_resourceFence (adoptProfiles h i) = fi_resourceFence i"
  "fi_RejectedUntil (heartbeatReadiness h i) = fi_RejectedUntil i"
  "fi_RejectedUntil (adoptProfiles h i) = fi_RejectedUntil i"
  "fi_Admission (heartbeatReadiness h i) = fi_Admission i" "fi_Admission (adoptProfiles h i) = fi_Admission i"
  "fi_Images (heartbeatReadiness h i) = fi_Images i" "fi_Images (adoptProfiles h i) = fi_Images i"
  "fi_CacheEpoch (heartbeatReadiness h i) = fi_CacheEpoch i" "fi_CacheEpoch (adoptProfiles h i) = fi_CacheEpoch i"
  "fi_CacheRevision (heartbeatReadiness h i) = fi_CacheRevision i"
  "fi_CacheRevision (adoptProfiles h i) = fi_CacheRevision i"
  "fi_CacheComplete (heartbeatReadiness h i) = fi_CacheComplete i"
  "fi_CacheComplete (adoptProfiles h i) = fi_CacheComplete i"
  by (simp_all add: heartbeatReadiness_def adoptProfiles_def Let_def)

lemma acceptHeartbeat_frame [simp]:
  "fi_ID (acceptHeartbeat Q h t i) = fi_ID i"
  "fi_PodUID (acceptHeartbeat Q h t i) = fi_PodUID i"
  "fi_InFlightSlots (acceptHeartbeat Q h t i) = fi_InFlightSlots i"
  "fi_InFlightResources (acceptHeartbeat Q h t i) = fi_InFlightResources i"
  "fi_resourceFence (acceptHeartbeat Q h t i) = fi_resourceFence i"
  "fi_CacheEpoch (acceptHeartbeat Q h t i) = cs_Epoch (hr_Cache h)"
  "fi_CacheRevision (acceptHeartbeat Q h t i) = cs_Revision (hr_Cache h)"
  "fi_HeartbeatSequence (acceptHeartbeat Q h t i) = hr_Sequence h"
  "fi_LastHeartbeat (acceptHeartbeat Q h t i) = t"
  "fi_SandboxStatuses (acceptHeartbeat Q h t i) = statuses_by_id (fs_SandboxStatuses h)"
  by (simp_all add: acceptHeartbeat_def Let_def)

lemma acceptHeartbeat_wf: "slot_wf fid info \<Longrightarrow> slot_wf fid (acceptHeartbeat Q h t info)"
  by (auto simp: slot_wf_def) (simp add: acceptHeartbeat_def Let_def)

lemma applyFeedbackAdmission_frame:
  assumes "applyFeedbackAdmission i a f = Some i'"
  shows "fi_ID i' = fi_ID i" "fi_Images i' = fi_Images i" "fi_PodUID i' = fi_PodUID i"
    "fi_SandboxStatuses i' = fi_SandboxStatuses i" "fi_InFlightSlots i' = fi_InFlightSlots i"
    "fi_CacheEpoch i' = fi_CacheEpoch i" "fi_HeartbeatSequence i' = fi_HeartbeatSequence i"
  using assms by (auto simp: applyFeedbackAdmission_def Let_def split: option.splits if_splits)

lemma recordAdmission_wf: "slot_wf fid i \<Longrightarrow> recordAdmission Q f i = Some i' \<Longrightarrow> slot_wf fid i'"
  by (auto simp: recordAdmission_def slot_wf_def applyFeedbackAdmission_frame
      split: option.splits if_splits)

lemma record_frame [simp]:
  "slot_wf fid i \<Longrightarrow> slot_wf fid (recordSandbox f i)" "slot_wf fid i \<Longrightarrow> slot_wf fid (recordRejection f i)"
  by (auto simp: recordSandbox_def recordRejection_def slot_wf_def split: option.splits)

lemma record_feedback_slot_wf: "slot_wf fid info \<Longrightarrow> slot_wf fid (record_feedback_slot Q f info)"
  by (simp add: record_feedback_slot_def recordAdmission_wf split: option.splits)

text \<open>What the Pod informer passes to \<^verbatim>\<open>UpsertPod\<close>: no heartbeat state.\<close>

definition pod_info :: "'q fastlet_info \<Rightarrow> bool" where
  "pod_info info \<longleftrightarrow> fi_Images info = [] \<and> fi_SandboxStatuses info = [] \<and> fi_InFlightSlots info = 0 \<and>
     fi_CacheEpoch info = []"

text \<open>One call on the registry, by whichever component makes it.\<close>

inductive registry_step :: "'q quantity_api \<Rightarrow> 'q in_memory_registry \<Rightarrow> 'q in_memory_registry \<Rightarrow> bool"
  for Q where
  upsert: "pod_info info \<Longrightarrow> registry_step Q r (UpsertPod info r)"
| remove: "registry_step Q r (RemoveIfPodUID fid uid r)"
| heartbeat: "registry_step Q r (snd (ApplyHeartbeat Q fid uid h t r))"
| feedback: "registry_step Q r (RecordFeedback Q now fid f r)"
| reserve: "registry_step Q r (snd (ReserveLocal Q fid d r))"
| release: "registry_step Q r (ReleaseLocal Q fid d r)"
| stale_after: "registry_step Q r (SetStaleAfter duration r)"
| server_seed: "registry_step Q r (SetServerSeed seed r)"

inductive_cases registry_step_cases: "registry_step Q r r'"

lemma UpsertPod_wf:
  assumes "pod_info info" "registry_wf r"
  shows "registry_wf (UpsertPod info r)"
proof (cases "gm_get (rg_fastlets r) (fi_ID info)")
  case None
  then show ?thesis
    using assms by (auto simp: UpsertPod_def pod_info_def slot_wf_def intro!: registry_wf_set_slot)
next
  case (Some slot)
  then show ?thesis
    using assms registry_wf_slot[OF assms(2) Some]
    by (auto simp: UpsertPod_def pod_info_def slot_wf_def preserveHeartbeat_def
        intro!: registry_wf_set_slot)
qed

lemma ApplyHeartbeat_wf:
  assumes "registry_wf r"
  shows "registry_wf (snd (ApplyHeartbeat Q fid uid h t r))"
proof -
  have "slot_wf fid (info\<lparr>fi_RuntimeReady := False, fi_LastHeartbeat := t\<rparr>)" if "slot_wf fid info" for info
    using that by (simp add: slot_wf_def)
  then show ?thesis
    using assms
    by (auto simp: ApplyHeartbeat_def split: option.splits
        intro!: registry_wf_set_slot acceptHeartbeat_wf dest: registry_wf_slot)
qed

lemma RemoveIfPodUID_wf: "registry_wf r \<Longrightarrow> registry_wf (RemoveIfPodUID fid uid r)"
  by (auto simp: RemoveIfPodUID_def registry_wf_def split: option.splits intro: wf_intros)

lemma RecordFeedback_wf: "registry_wf r \<Longrightarrow> registry_wf (RecordFeedback Q now fid f r)"
  by (auto simp: RecordFeedback_def Let_def split: option.splits
      intro!: registry_wf_set_slot record_feedback_slot_wf dest: registry_wf_slot)

lemma ReserveLocal_wf: "registry_wf r \<Longrightarrow> registry_wf (snd (ReserveLocal Q fid d r))"
  by (auto simp: ReserveLocal_def split: option.splits
      intro!: registry_wf_set_slot dest: registry_wf_slot reserve_slot_wf)

lemma ReleaseLocal_wf: "registry_wf r \<Longrightarrow> registry_wf (ReleaseLocal Q fid d r)"
  by (auto simp: ReleaseLocal_def split: option.splits
      intro!: registry_wf_set_slot release_slot_wf dest: registry_wf_slot)

lemma registry_step_wf: "registry_step Q r r' \<Longrightarrow> registry_wf r \<Longrightarrow> registry_wf r'"
  by (induction rule: registry_step.induct)
    (simp_all add: UpsertPod_wf ApplyHeartbeat_wf RemoveIfPodUID_wf RecordFeedback_wf ReserveLocal_wf
      ReleaseLocal_wf, simp_all add: SetStaleAfter_def SetServerSeed_def registry_wf_def)

definition registry_reachable :: "'q quantity_api \<Rightarrow> 'q in_memory_registry \<Rightarrow> bool" where
  "registry_reachable Q r \<longleftrightarrow> (registry_step Q)\<^sup>*\<^sup>* NewInMemoryRegistry r"

lemma registry_reachable_wf: "registry_reachable Q r \<Longrightarrow> registry_wf r"
  unfolding registry_reachable_def
proof (induction rule: rtranclp_induct)
  case base
  show ?case by (simp add: NewInMemoryRegistry_def registry_wf_def)
next
  case (step r r')
  then show ?case by (blast intro: registry_step_wf)
qed

section \<open>Ranking\<close>

definition rank_key :: "'q ranked_fastlet \<Rightarrow> bool \<times> int \<times> 64 word \<times> 64 word \<times> fastlet_id" where
  "rank_key x = (\<not> rk_imageHit x, rk_loadBucket x, rk_serverOrder x, rk_stableOrder x, rk_id x)"

lemma rankedLess_key: "rankedLess x y \<longleftrightarrow> rank_key x < rank_key y"
  by (auto simp: rankedLess_def rank_key_def less_prod_def' less_bool_def)

interpretation rank: key_comparator rankedLess rank_key
  by unfold_locales (rule rankedLess_key)

lemma imageHit_iff:
  "sorted (fi_Images info) \<Longrightarrow>
     imageHit info ref \<longleftrightarrow> ref \<noteq> [] \<and> fi_CacheComplete info \<and> ref \<in> set (fi_Images info)"
  by (simp add: imageHit_def Let_def search_strings_found)

text \<open>The whole ranking, before it is cut to the first \<^verbatim>\<open>k\<close>.\<close>

definition ranking ::
    "'q quantity_api \<Rightarrow> 'q in_memory_registry \<Rightarrow> 'q candidate_request \<Rightarrow> 'q ranked_fastlet list" where
  "ranking Q r request = sort_slice rankedLess (map (rank_fastlet Q (rg_serverSeed r) request) (eligible Q r request))"

definition cut :: "int \<Rightarrow> 'a list \<Rightarrow> 'a list" where
  "cut k xs = (if k > 0 \<and> int (length xs) > k then take (nat k) xs else xs)"

lemma TopK_ranking: "TopK Q now r request k = map rk_slot (cut k (ranking Q r (normalizedRequest now request)))"
  by (simp add: TopK_def ranking_def cut_def Let_def)

lemma rank_fastlet_simps [simp]:
  "rk_slot (rank_fastlet Q seed request info) = info" "rk_id (rank_fastlet Q seed request info) = fi_ID info"
  by (simp_all add: rank_fastlet_def)

lemma eligible_subset: "set (eligible Q r request) \<subseteq> set (gm_vals (rg_fastlets r))"
  by (auto simp: eligible_def Let_def)

lemma registry_wf_vals:
  assumes "registry_wf r"
  shows "map fi_ID (gm_vals (rg_fastlets r)) = gm_keys (rg_fastlets r)"
  using assms by (force simp: registry_wf_def gm_all_def slot_wf_def gm_vals_def gm_keys_def)

lemma eligible_distinct:
  assumes "registry_wf r"
  shows "distinct (map fi_ID (eligible Q r request))"
proof -
  have "distinct (map fi_ID (gm_vals (rg_fastlets r)))"
    using assms by (simp add: registry_wf_vals) (simp add: registry_wf_def gm_wf_def gm_keys_def)
  then show ?thesis by (simp add: eligible_def Let_def distinct_map_filter)
qed

lemma rank_key_inj:
  assumes "registry_wf r"
  shows "inj_on rank_key (rank_fastlet Q seed request ` set (eligible Q r request))"
proof (rule inj_onI)
  fix x y
  assume "x \<in> rank_fastlet Q seed request ` set (eligible Q r request)"
    "y \<in> rank_fastlet Q seed request ` set (eligible Q r request)" "rank_key x = rank_key y"
  then obtain i j where ij: "i \<in> set (eligible Q r request)" "j \<in> set (eligible Q r request)"
      "x = rank_fastlet Q seed request i" "y = rank_fastlet Q seed request j" "fi_ID i = fi_ID j"
    by (auto simp: rank_key_def)
  then have "i = j" using eligible_distinct[OF assms, of Q request]
    by (meson distinct_map inj_onD)
  then show "x = y" by (simp add: ij)
qed

lemma eligible_perm:
  assumes "mset (rg_fastlets r) = mset (rg_fastlets r')" "rg_staleAfter r = rg_staleAfter r'"
  shows "mset (eligible Q r request) = mset (eligible Q r' request)"
proof -
  have vals: "mset (gm_vals (rg_fastlets r)) = mset (gm_vals (rg_fastlets r'))"
    using assms(1) by (simp add: gm_vals_def)
  have "FreshHostMemoryPressureNodes (gm_vals (rg_fastlets r)) t d
      = FreshHostMemoryPressureNodes (gm_vals (rg_fastlets r')) t d" for t d
    using mset_eq_setD[OF vals] by (simp add: FreshHostMemoryPressureNodes_def)
  then show ?thesis using vals assms(2) by (simp add: eligible_def Let_def)
qed

lemma set_ranking: "rk_slot ` set (ranking Q r request) = set (eligible Q r request)"
  by (force simp: ranking_def)

lemma ranking_ids_distinct:
  assumes "registry_wf r"
  shows "distinct (map rk_id (ranking Q r request))"
proof -
  have "mset (map rk_id (ranking Q r request)) = mset (map fi_ID (eligible Q r request))"
    by (simp add: ranking_def image_mset.compositionality comp_def)
  then show ?thesis using eligible_distinct[OF assms] mset_eq_imp_distinct_iff by blast
qed

lemma ranking_strict:
  assumes "registry_wf r"
  shows "sorted_wrt rankedLess (ranking Q r request)"
proof -
  let ?L = "ranking Q r request"
  have "sorted (map rank_key ?L)" unfolding ranking_def by (rule rank.sort_slice_sorted)
  moreover have "inj_on rank_key (set ?L)"
    using rank_key_inj[OF assms, of Q "rg_serverSeed r" request] by (simp add: ranking_def)
  then have "distinct (map rank_key ?L)"
    using ranking_ids_distinct[OF assms, of Q request] by (simp add: distinct_map)
  ultimately have "sorted_wrt (<) (map rank_key ?L)" by (simp add: strict_sorted_iff)
  then show ?thesis by (simp add: sorted_wrt_map rankedLess_key[abs_def])
qed

lemma rank_of_ranking:
  "x \<in> set (ranking Q r request) \<Longrightarrow> rank_fastlet Q (rg_serverSeed r) request (rk_slot x) = x"
  by (auto simp: ranking_def)

lemma cut_split: "xs = cut k xs @ (if k > 0 \<and> int (length xs) > k then drop (nat k) xs else [])"
  by (simp add: cut_def)

lemma TopK_split:
  assumes "registry_wf r"
  obtains rest where
    "sorted_wrt rankedLess (map (rank_fastlet Q (rg_serverSeed r) (normalizedRequest now request))
       (TopK Q now r request k @ rest))"
    "set (TopK Q now r request k @ rest) = set (eligible Q r (normalizedRequest now request))"
    "distinct (map fi_ID (TopK Q now r request k @ rest))"
proof -
  let ?req = "normalizedRequest now request"
  let ?L = "ranking Q r ?req"
  obtain rest where rest: "cut k ?L @ rest = ?L" using cut_split[of ?L k] by metis
  have all: "TopK Q now r request k @ map rk_slot rest = map rk_slot ?L"
    unfolding TopK_ranking map_append[symmetric] rest ..
  have ranks: "map (rank_fastlet Q (rg_serverSeed r) ?req) (map rk_slot ?L) = ?L"
    by (simp add: map_idI rank_of_ranking)
  have "fi_ID (rk_slot x) = rk_id x" if "x \<in> set ?L" for x
    using rank_of_ranking[OF that] by (metis rank_fastlet_simps(2))
  then have ids: "map fi_ID (map rk_slot ?L) = map rk_id ?L" by simp
  show ?thesis
    using that[of "map rk_slot rest"] ranking_strict[OF assms] ranking_ids_distinct[OF assms]
    by (simp only: all ranks ids set_map set_ranking)
qed

section \<open>Eligibility\<close>

lemma Fits_schedulable:
  assumes laws: "quantity_laws Q nano" and fits: "Fits Q (ResourceSchedulability Q info now stale) demand"
  shows "freshAndOpen info now stale"
    "0 < nano (rd_CPU demand)" "0 < nano (rd_Memory demand)"
    "nano (rd_CPU demand) \<le> nano (rd_CPU (fi_ResourceCapacity info)) -
       nano (rd_CPU (fi_ResourceCommitted info)) - nano (rd_CPU (fi_InFlightResources info))"
    "nano (rd_Memory demand) \<le> nano (rd_Memory (fi_ResourceCapacity info)) -
       nano (rd_Memory (fi_ResourceCommitted info)) - nano (rd_Memory (fi_InFlightResources info))"
  using fits
  by (auto simp: Fits_def ResourceSchedulability_def no_view_def free_resources_def Let_def
      quantity_sign[OF laws] quantity_cmp[OF laws] quantity_simps(4)[OF laws] split: if_splits)

lemma hardFilter_base:
  assumes "hardFilter Q info request stale blocked"
  shows "fi_ID info \<notin> set (cq_ExcludedFastlets request)" "fi_Namespace info = cq_Namespace request"
    "fi_PoolName info = cq_PoolName request" "fi_PodReady info" "fi_RuntimeReady info" "fi_InfraReady info"
    "\<not> fi_Draining info" "time_sub (cq_Now request) (fi_LastHeartbeat info) \<le> stale"
    "fi_RejectedUntil info \<le> cq_Now request" "0 < Capacity info" "SchedulingUsed info < Capacity info"
  using assms by (simp_all add: hardFilter_def split: if_split_asm)

lemma hardFilter_resources:
  assumes "hardFilter Q info request stale blocked"
    "cq_ResourceMode request = SandboxResourceModeResourceAware"
  shows "fi_NodeName info \<notin> blocked" "Fits Q (ResourceSchedulability Q info (cq_Now request) stale) (cq_Demand request)"
  using assms by (simp_all add: hardFilter_def resourceEligible_def split: if_split_asm)

lemma eligible_iff:
  "info \<in> set (eligible Q r request) \<longleftrightarrow> info \<in> set (gm_vals (rg_fastlets r)) \<and>
     hardFilter Q info request (rg_staleAfter r)
       (FreshHostMemoryPressureNodes (gm_vals (rg_fastlets r)) (cq_Now request) (rg_staleAfter r))"
  by (auto simp: eligible_def Let_def)

lemma TopK_eligible:
  "info \<in> set (TopK Q now r request k) \<Longrightarrow> info \<in> set (eligible Q r (normalizedRequest now request))"
  unfolding TopK_ranking set_ranking[symmetric] cut_def
  by (auto dest: in_set_takeD split: if_splits)

lemma normalizedRequest_simps [simp]:
  "cq_ExcludedFastlets (normalizedRequest now q) = cq_ExcludedFastlets q"
  "cq_Namespace (normalizedRequest now q) = cq_Namespace q"
  "cq_PoolName (normalizedRequest now q) = cq_PoolName q"
  "cq_ResourceMode (normalizedRequest now q) = cq_ResourceMode q"
  "cq_Demand (normalizedRequest now q) = cq_Demand q"
  "cq_Image (normalizedRequest now q) = NormalizeReference (cq_Image q)"
  "cq_Now (normalizedRequest now q) = (if time_is_zero (cq_Now q) then now else cq_Now q)"
  by (simp_all add: normalizedRequest_def)

text \<open>A Fastlet that passes the filter for a ResourceAware request has positive capacity in every
  dimension the load divides by, as long as the ledger holds no negative amounts.\<close>

lemma eligible_load_defined:
  assumes laws: "quantity_laws Q nano" and filt: "hardFilter Q info request stale blocked"
    and mode: "cq_ResourceMode request = SandboxResourceModeResourceAware"
    and ledger: "0 \<le> nano (rd_CPU (fi_ResourceCommitted info))" "0 \<le> nano (rd_CPU (fi_InFlightResources info))"
      "0 \<le> nano (rd_Memory (fi_ResourceCommitted info))" "0 \<le> nano (rd_Memory (fi_InFlightResources info))"
  shows "0 < Capacity info" "0 < nano (rd_CPU (fi_ResourceCapacity info))"
    "0 < nano (rd_Memory (fi_ResourceCapacity info))"
  using hardFilter_base(10)[OF filt] Fits_schedulable[OF laws hardFilter_resources(2)[OF filt mode]] ledger
  by linarith+

section \<open>A sample registry\<close>

text \<open>Two Pods of one Pool on two nodes, each after one heartbeat; the second has the image.\<close>

definition no_demand :: "int resource_demand" where
  "no_demand = \<lparr>rd_CPU = 0, rd_Memory = 0\<rparr>"

definition sample_pod :: "string \<Rightarrow> int fastlet_info" where
  "sample_pod name = \<lparr>fi_ID = NewFastletID ''default'' name, fi_Namespace = ''default'', fi_PodName = name,
     fi_PodUID = ''u'' @ name, fi_PodIP = ''10.0.0.1'', fi_NodeName = ''n'' @ name, fi_PoolName = ''p'',
     fi_RuntimeName = RuntimeContainer, fi_RuntimeProfileHash = [], fi_ResourceProfileHash = [],
     fi_InfraRevision = [], fi_FastletRevision = [], fi_InfraReady = False, fi_PreparedArtifacts = [],
     fi_RegistryRevision = [], fi_WarmImages = [], fi_PodReady = True, fi_RuntimeReady = False,
     fi_DrainRequested = False, fi_Draining = False,
     fi_Admission = \<lparr>as_Capacity = 0, as_Creating = 0, as_Running = 0, as_Deleting = 0, as_Used = 0,
       as_Resources = None\<rparr>,
     fi_ResourceCapacity = \<lparr>rd_CPU = 4 * 10 ^ 9, rd_Memory = 8 * 10 ^ 9\<rparr>, fi_ResourceCommitted = no_demand,
     fi_InFlightResources = no_demand, fi_InFlightSlots = 0, fi_ResourceReceivedAt = time_zero,
     fi_resourceFence = \<lparr>rf_Epoch = [], rf_Revision = 0\<rparr>, fi_Images = [], fi_CacheEpoch = [],
     fi_CacheRevision = 0, fi_CacheComplete = False, fi_SandboxStatuses = [], fi_HeartbeatSequence = 0,
     fi_LastHeartbeat = time_zero, fi_PodObservedAt = 1, fi_RejectedUntil = time_zero\<rparr>"

definition sample_resources :: "64 word \<Rightarrow> admission_state \<Rightarrow> resource_admission_status" where
  "sample_resources revision state = \<lparr>ra_Version = ''v2'', ra_Epoch = ''e'', ra_Revision = revision,
     ra_Capacity = \<lparr>rv_CPU = ''4'', rv_Memory = ''8''\<rparr>, ra_Committed = \<lparr>rv_CPU = ''1'', rv_Memory = ''2''\<rparr>,
     ra_State = state, ra_Reason = no_reason\<rparr>"

definition sample_admission :: "64 word \<Rightarrow> admission_state \<Rightarrow> admission_status" where
  "sample_admission revision state = \<lparr>as_Capacity = 4, as_Creating = 0, as_Running = 1, as_Deleting = 0,
     as_Used = 1, as_Resources = Some (sample_resources revision state)\<rparr>"

definition sample_heartbeat :: "string \<Rightarrow> 64 word \<Rightarrow> admission_status \<Rightarrow> string list \<Rightarrow> heartbeat_response" where
  "sample_heartbeat name sequence admission images = \<lparr>fs_FastletID = name, fs_NodeName = ''n'' @ name,
     fs_SandboxStatuses = [], fs_Admission = admission, fs_RuntimeReady = True, fs_Recovering = False,
     fs_Draining = False, fs_FastletPodUID = ''u'' @ name, fs_RuntimeProfileHash = ''rh'',
     fs_ResourceProfileHash = ''sh'', fs_InfraRevision = ''ir'', fs_InfraReady = True,
     fs_PreparedArtifacts = [], fs_RegistryRevision = [], fs_WarmImages = [], hr_Sequence = sequence,
     hr_Cache = \<lparr>cs_Epoch = ''c'', cs_Revision = 1, cs_Full = True, cs_Complete = True, cs_Images = images\<rparr>\<rparr>"

definition sample_registry :: "int in_memory_registry" where
  "sample_registry =
     snd (ApplyHeartbeat nano_quantity ''b'' ''ub''
           (Some (sample_heartbeat ''b'' 1 (sample_admission 1 AdmissionStateOpen) [''img''])) 100
       (snd (ApplyHeartbeat nano_quantity ''a'' ''ua''
           (Some (sample_heartbeat ''a'' 1 (sample_admission 1 AdmissionStateOpen) [])) 100
         (UpsertPod (sample_pod ''b'') (UpsertPod (sample_pod ''a'') NewInMemoryRegistry)))))"

definition sample_request :: "int candidate_request" where
  "sample_request = \<lparr>cq_Namespace = ''default'', cq_PoolName = ''p'', cq_RuntimeName = RuntimeContainer,
     cq_RuntimeProfileHash = ''rh'', cq_ResourceProfileHash = ''sh'', cq_InfraRevision = ''ir'',
     cq_FastletRevision = [], cq_ResourceMode = SandboxResourceModeResourceAware,
     cq_Demand = \<lparr>rd_CPU = 10 ^ 9, rd_Memory = 2 * 10 ^ 9\<rparr>, cq_Image = ''docker.io/img'', cq_StableKey = ''k'',
     cq_Now = 0, cq_ExcludedFastlets = []\<rparr>"

lemma sample_registry_reachable: "registry_reachable nano_quantity sample_registry"
proof -
  have pods: "pod_info (sample_pod name)" for name
    by (simp add: pod_info_def sample_pod_def)
  show ?thesis
    unfolding registry_reachable_def sample_registry_def
    by (rule rtranclp.rtrancl_into_rtrancl[OF rtranclp.rtrancl_into_rtrancl[OF
          rtranclp.rtrancl_into_rtrancl[OF rtranclp.rtrancl_into_rtrancl[OF rtranclp.rtrancl_refl]]]])
      (rule registry_step.intros pods)+
qed

lemma sample_eligible:
  "length (eligible nano_quantity sample_registry (normalizedRequest 200 sample_request)) = 2"
  by code_simp

section \<open>Properties\<close>

text \<open>C1: selection is optimal and complete. In every reachable registry, \<^verbatim>\<open>TopK\<close> returns
  distinct Fastlets, in strictly increasing rank order; it returns \<^verbatim>\<open>k\<close> of them, or all eligible ones
  when there are fewer or \<^verbatim>\<open>k\<close> is not positive; all of them pass the hard filter; and every eligible
  Fastlet left out ranks strictly after every one returned. The rank compares, in this order, the
  image hit, the load bucket, the server preference, the request hash and the Fastlet ID.\<close>

theorem TopK_best:
  assumes reach: "registry_reachable Q r"
  shows "let req = normalizedRequest now request; all = eligible Q r req;
             rank = rank_fastlet Q (rg_serverSeed r) req; selected = TopK Q now r request k
         in set selected \<subseteq> set all \<and> distinct (map fi_ID selected) \<and>
            int (length selected) = (if 0 < k then min k (int (length all)) else int (length all)) \<and>
            sorted_wrt rankedLess (map rank selected) \<and>
            (\<forall>i \<in> set selected. \<forall>j \<in> set all - set selected. rankedLess (rank i) (rank j))"
proof -
  let ?req = "normalizedRequest now request"
  have len: "int (length (TopK Q now r request k)) =
      (if 0 < k then min k (int (length (eligible Q r ?req))) else int (length (eligible Q r ?req)))"
    by (simp add: TopK_ranking cut_def ranking_def)
  obtain rest where
    "sorted_wrt rankedLess (map (rank_fastlet Q (rg_serverSeed r) ?req) (TopK Q now r request k @ rest))"
    "set (TopK Q now r request k @ rest) = set (eligible Q r ?req)"
    "distinct (map fi_ID (TopK Q now r request k @ rest))"
    using TopK_split[OF registry_reachable_wf[OF reach]] by blast
  then show ?thesis using len by (auto simp: Let_def sorted_wrt_append)
qed

theorem TopK_best_witness:
  "registry_reachable nano_quantity sample_registry \<and>
   length (eligible nano_quantity sample_registry (normalizedRequest 200 sample_request)) = 2 \<and>
   int (length (TopK nano_quantity 200 sample_registry sample_request 1)) = 1"
  using TopK_best[OF sample_registry_reachable, of 200 sample_request 1] sample_eligible
    sample_registry_reachable
  by (simp add: Let_def)

text \<open>C14: the result does not depend on the order in which Go visits the map of Fastlets. Two
  reachable registries that hold the same entries and settings select the same list.\<close>

theorem TopK_map_order:
  assumes "registry_reachable Q r" "mset (rg_fastlets r) = mset (rg_fastlets r')"
    "rg_staleAfter r = rg_staleAfter r'" "rg_serverSeed r = rg_serverSeed r'"
  shows "TopK Q now r request k = TopK Q now r' request k"
proof -
  let ?req = "normalizedRequest now request"
  have "ranking Q r ?req = ranking Q r' ?req"
    unfolding ranking_def assms(4)
    using rank_key_inj[OF registry_reachable_wf[OF assms(1)]] eligible_perm[OF assms(2,3)]
    by (intro rank.sort_slice_perm) auto
  then show ?thesis by (simp add: TopK_ranking)
qed

theorem TopK_map_order_witness:
  "TopK nano_quantity 200 sample_registry sample_request 2 =
   TopK nano_quantity 200 (sample_registry\<lparr>rg_fastlets := rev (rg_fastlets sample_registry)\<rparr>) sample_request 2"
  by (rule TopK_map_order[OF sample_registry_reachable]) simp_all

text \<open>C6: nothing unsafe is selected. Every Fastlet \<^verbatim>\<open>TopK\<close> returns in a reachable registry is the
  registry's current entry for its ID, belongs to the requested namespace and Pool, is not excluded,
  is ready on all three counts and not draining, has a heartbeat that is not stale, is outside its
  rejection window and has a free slot. A ResourceAware request in addition only gets Fastlets whose
  admission is open and fresh and whose free CPU and memory cover the demand, and none on a node on
  which any Fastlet, of whatever Pool, reports fresh host memory pressure.\<close>

theorem TopK_sound:
  assumes laws: "quantity_laws Q nano" and reach: "registry_reachable Q r"
    and sel: "info \<in> set (TopK Q now r request k)"
  shows "let t = cq_Now (normalizedRequest now request); stale = rg_staleAfter r in
    GetFastletByID (fi_ID info) r = Some info \<and>
    fi_Namespace info = cq_Namespace request \<and> fi_PoolName info = cq_PoolName request \<and>
    fi_ID info \<notin> set (cq_ExcludedFastlets request) \<and>
    fi_PodReady info \<and> fi_RuntimeReady info \<and> fi_InfraReady info \<and> \<not> fi_Draining info \<and>
    time_sub t (fi_LastHeartbeat info) \<le> stale \<and> fi_RejectedUntil info \<le> t \<and>
    SchedulingUsed info < Capacity info \<and>
    (cq_ResourceMode request = SandboxResourceModeResourceAware \<longrightarrow>
       freshAndOpen info t stale \<and>
       nano (rd_CPU (cq_Demand request)) \<le> nano (rd_CPU (fi_ResourceCapacity info)) -
         nano (rd_CPU (fi_ResourceCommitted info)) - nano (rd_CPU (fi_InFlightResources info)) \<and>
       nano (rd_Memory (cq_Demand request)) \<le> nano (rd_Memory (fi_ResourceCapacity info)) -
         nano (rd_Memory (fi_ResourceCommitted info)) - nano (rd_Memory (fi_InFlightResources info)) \<and>
       (\<forall>other \<in> set (GetAllFastlets r). fi_NodeName other = fi_NodeName info \<longrightarrow>
          \<not> HasFreshHostMemoryPressure other t stale))"
proof -
  let ?req = "normalizedRequest now request"
  have wf: "registry_wf r" using reach by (rule registry_reachable_wf)
  have filt: "hardFilter Q info ?req (rg_staleAfter r)
      (FreshHostMemoryPressureNodes (gm_vals (rg_fastlets r)) (cq_Now ?req) (rg_staleAfter r))"
    and mem: "info \<in> set (gm_vals (rg_fastlets r))"
    using TopK_eligible[OF sel] by (simp_all add: eligible_iff)
  obtain fid where "gm_get (rg_fastlets r) fid = Some info"
    using mem wf by (auto simp: registry_wf_def gm_vals_iff)
  moreover from this have "fi_ID info = fid"
    using registry_wf_slot[OF wf] by (simp add: slot_wf_def)
  ultimately have cur: "GetFastletByID (fi_ID info) r = Some info" by (simp add: GetFastletByID_def)
  note base = hardFilter_base[OF filt]
  note resources = hardFilter_resources[OF filt]
  have pressure: "\<not> HasFreshHostMemoryPressure other (cq_Now ?req) (rg_staleAfter r)"
    if "cq_ResourceMode request = SandboxResourceModeResourceAware"
      "other \<in> set (GetAllFastlets r)" "fi_NodeName other = fi_NodeName info" for other
  proof
    assume "HasFreshHostMemoryPressure other (cq_Now ?req) (rg_staleAfter r)"
    then have "fi_NodeName other \<in>
        FreshHostMemoryPressureNodes (gm_vals (rg_fastlets r)) (cq_Now ?req) (rg_staleAfter r)"
      using that(2) by (simp add: FreshHostMemoryPressureNodes_def GetAllFastlets_def)
    then show False using resources(1) that(1,3) by simp
  qed
  show ?thesis
    using base cur pressure Fits_schedulable[OF laws resources(2)]
    unfolding Let_def by (simp del: normalizedRequest_simps(7))
qed

theorem TopK_sound_witness:
  "\<exists>info \<in> set (TopK nano_quantity 200 sample_registry sample_request 2).
     GetFastletByID (fi_ID info) sample_registry = Some info \<and> fi_PoolName info = ''p'' \<and>
     freshAndOpen info 200 DefaultObservationStaleAfter"
proof -
  let ?top = "TopK nano_quantity 200 sample_registry sample_request 2"
  have "length ?top = 2" by (simp add: TopK_ranking cut_def ranking_def sample_eligible)
  then obtain info where info: "info \<in> set ?top" by (cases ?top) auto
  have "rg_staleAfter sample_registry = DefaultObservationStaleAfter" by code_simp
  then show ?thesis
    using TopK_sound[OF nano_quantity_laws sample_registry_reachable info] info
    by (auto simp: sample_request_def time_is_zero_def)
qed

text \<open>C15: the binary search over a Fastlet's image list decides membership. In a reachable registry
  every image list is sorted, so \<^verbatim>\<open>imageHit\<close> holds for exactly the non-empty references that a
  complete list contains.\<close>

theorem imageHit_membership:
  assumes "registry_reachable Q r" and "GetFastletByID fid r = Some info"
  shows "imageHit info ref \<longleftrightarrow> ref \<noteq> [] \<and> fi_CacheComplete info \<and> ref \<in> set (fi_Images info)"
proof -
  have "slot_wf fid info"
    using registry_wf_slot[OF registry_reachable_wf[OF assms(1)]] assms(2) by (simp add: GetFastletByID_def)
  then show ?thesis by (simp add: slot_wf_def imageHit_iff)
qed

theorem imageHit_membership_witness:
  "\<exists>info. GetFastletByID ''b'' sample_registry = Some info \<and> imageHit info ''img'' \<and> \<not> imageHit info ''im''"
proof -
  have "map_option (\<lambda>i. (fi_Images i, fi_CacheComplete i)) (GetFastletByID ''b'' sample_registry)
      = Some ([''img''], True)" by code_simp
  then obtain info where info: "GetFastletByID ''b'' sample_registry = Some info"
      "fi_Images info = [''img'']" "fi_CacheComplete info" by auto
  then show ?thesis using imageHit_membership[OF sample_registry_reachable info(1)] by simp
qed

end
