(* ===== verification/Placement_Ledger.thy ===== *)
theory Placement_Ledger
  imports Placement_Selection
begin

text \<open>
  The local in-flight ledger of the registry: what a reservation guarantees, that releasing undoes
  reserving in any order, how many Sandboxes a Fastlet can still take, and what happens when a Pod
  is replaced between the two calls.
\<close>

section \<open>One slot\<close>

definition counted :: "'q quantity_api \<Rightarrow> 'q resource_demand \<Rightarrow> bool" where
  "counted Q d \<longleftrightarrow> q_Sign Q (rd_CPU d) > 0 \<and> q_Sign Q (rd_Memory d) > 0"

text \<open>The amounts of a ledger in whole millicores and bytes, as \<^verbatim>\<open>MilliValue\<close> and \<^verbatim>\<open>Value\<close> report
  them, and the range in which their sums do not wrap.\<close>

definition cpu_units :: "('q \<Rightarrow> int) \<Rightarrow> 'q resource_demand \<Rightarrow> int" where
  "cpu_units nano d = ceil_div (nano (rd_CPU d)) (10 ^ 6)"

definition memory_units :: "('q \<Rightarrow> int) \<Rightarrow> 'q resource_demand \<Rightarrow> int" where
  "memory_units nano d = ceil_div (nano (rd_Memory d)) (10 ^ 9)"

definition in_range :: "('q \<Rightarrow> int) \<Rightarrow> 'q resource_demand \<Rightarrow> bool" where
  "in_range nano d \<longleftrightarrow> 0 \<le> nano (rd_CPU d) \<and> 0 \<le> nano (rd_Memory d) \<and>
     cpu_units nano d \<le> 2 ^ 61 \<and> memory_units nano d \<le> 2 ^ 61"

lemma in_range_units:
  assumes "quantity_laws Q nano" "in_range nano d"
  shows "q_MilliValue Q (rd_CPU d) = cpu_units nano d" "q_Value Q (rd_Memory d) = memory_units nano d"
    "0 \<le> cpu_units nano d" "0 \<le> memory_units nano d" "cpu_units nano d \<le> 2 ^ 61" "memory_units nano d \<le> 2 ^ 61"
  using assms(2) quantity_simps(10,11)[OF assms(1)]
  by (auto simp: in_range_def cpu_units_def memory_units_def max_int64_def ceil_div_nonneg)

lemma sum3_exact:
  assumes "0 \<le> a" "a \<le> 2 ^ 61" "0 \<le> b" "b \<le> 2 ^ 61" "0 \<le> c" "c \<le> 2 ^ 61"
  shows "sum3 a b c = a + b + c"
  using assms by (simp add: sum3_def wrap64_id min_int64_def max_int64_def)

lemma reserve_slot_Some:
  assumes "reserve_slot Q d info = Some info'"
  shows "SchedulingUsed info < Capacity info" "fi_InFlightSlots info' = fi_InFlightSlots info + 1"
    "fi_InFlightResources info' = (if counted Q d
       then \<lparr>rd_CPU = q_Add Q (rd_CPU (fi_InFlightResources info)) (rd_CPU d),
             rd_Memory = q_Add Q (rd_Memory (fi_InFlightResources info)) (rd_Memory d)\<rparr>
       else fi_InFlightResources info)"
    "info'\<lparr>fi_InFlightResources := fi_InFlightResources info, fi_InFlightSlots := fi_InFlightSlots info\<rparr> = info"
  using assms by (auto simp: reserve_slot_def counted_def Let_def split: if_splits)

lemma release_slot_simps:
  assumes "0 < fi_InFlightSlots info"
  shows "fi_InFlightSlots (release_slot Q d info) = fi_InFlightSlots info - 1"
    "fi_InFlightResources (release_slot Q d info) = (if counted Q d
       then \<lparr>rd_CPU = q_Sub Q (rd_CPU (fi_InFlightResources info)) (rd_CPU d),
             rd_Memory = q_Sub Q (rd_Memory (fi_InFlightResources info)) (rd_Memory d)\<rparr>
       else fi_InFlightResources info)"
    "(release_slot Q d info)\<lparr>fi_InFlightResources := a, fi_InFlightSlots := b\<rparr>
       = info\<lparr>fi_InFlightResources := a, fi_InFlightSlots := b\<rparr>"
  using assms by (simp_all add: release_slot_def counted_def Let_def)

lemma reserve_slot_capacity:
  assumes laws: "quantity_laws Q nano" and ok: "reserve_slot Q d info = Some info'"
    and counted: "counted Q d" and range: "in_range nano (fi_ResourceCommitted info)"
    "in_range nano (fi_InFlightResources info)" "in_range nano (fi_ResourceCapacity info)" "in_range nano d"
  shows "cpu_units nano (fi_ResourceCommitted info) + cpu_units nano (fi_InFlightResources info')
      \<le> cpu_units nano (fi_ResourceCapacity info)"
    "memory_units nano (fi_ResourceCommitted info) + memory_units nano (fi_InFlightResources info')
      \<le> memory_units nano (fi_ResourceCapacity info)"
proof -
  note units = range[THEN in_range_units(1)[OF laws]] range[THEN in_range_units(2)[OF laws]]
    range[THEN in_range_units(3)[OF laws]] range[THEN in_range_units(4)[OF laws]]
    range[THEN in_range_units(5)[OF laws]] range[THEN in_range_units(6)[OF laws]]
  have exact: "sum3 (cpu_units nano (fi_ResourceCommitted info)) (cpu_units nano (fi_InFlightResources info))
        (cpu_units nano d) = cpu_units nano (fi_ResourceCommitted info)
          + cpu_units nano (fi_InFlightResources info) + cpu_units nano d"
      "sum3 (memory_units nano (fi_ResourceCommitted info)) (memory_units nano (fi_InFlightResources info))
        (memory_units nano d) = memory_units nano (fi_ResourceCommitted info)
          + memory_units nano (fi_InFlightResources info) + memory_units nano d"
    by (intro sum3_exact units)+
  have sums: "cpu_units nano (fi_ResourceCommitted info) + cpu_units nano (fi_InFlightResources info)
        + cpu_units nano d \<le> cpu_units nano (fi_ResourceCapacity info)"
      "memory_units nano (fi_ResourceCommitted info) + memory_units nano (fi_InFlightResources info)
        + memory_units nano d \<le> memory_units nano (fi_ResourceCapacity info)"
    using ok counted by (auto simp: reserve_slot_def counted_def Let_def units(1-8) exact split: if_splits)
  have "cpu_units nano (fi_InFlightResources info') \<le> cpu_units nano (fi_InFlightResources info) + cpu_units nano d"
    "memory_units nano (fi_InFlightResources info') \<le> memory_units nano (fi_InFlightResources info) + memory_units nano d"
    using counted
    by (simp_all add: reserve_slot_Some(3)[OF ok] cpu_units_def memory_units_def quantity_simps(3)[OF laws]
        ceil_div_add_le)
  with sums show "cpu_units nano (fi_ResourceCommitted info) + cpu_units nano (fi_InFlightResources info')
      \<le> cpu_units nano (fi_ResourceCapacity info)"
    "memory_units nano (fi_ResourceCommitted info) + memory_units nano (fi_InFlightResources info')
      \<le> memory_units nano (fi_ResourceCapacity info)" by linarith+
qed

section \<open>Sequences of reservations\<close>

fun ReserveAll ::
    "'q quantity_api \<Rightarrow> fastlet_id \<Rightarrow> 'q resource_demand list \<Rightarrow> 'q in_memory_registry
     \<Rightarrow> 'q in_memory_registry option" where
  "ReserveAll Q fid [] r = Some r"
| "ReserveAll Q fid (d # ds) r =
     (let (ok, r) = ReserveLocal Q fid d r in if ok then ReserveAll Q fid ds r else None)"

definition ReleaseAll ::
    "'q quantity_api \<Rightarrow> fastlet_id \<Rightarrow> 'q resource_demand list \<Rightarrow> 'q in_memory_registry
     \<Rightarrow> 'q in_memory_registry" where
  "ReleaseAll Q fid ds r = fold (ReleaseLocal Q fid) ds r"

definition demand_total :: "'q quantity_api \<Rightarrow> ('q \<Rightarrow> int) \<Rightarrow> ('q resource_demand \<Rightarrow> 'q) \<Rightarrow> 'q resource_demand list \<Rightarrow> int" where
  "demand_total Q nano sel ds = (\<Sum>d\<leftarrow>ds. if counted Q d then nano (sel d) else 0)"

text \<open>The slot of \<^verbatim>\<open>fid\<close> is that of \<^verbatim>\<open>base\<close> with \<^verbatim>\<open>n\<close> more slots and the given amounts in flight,
  and every other slot is as before.\<close>

definition ledger_shift ::
    "('q \<Rightarrow> int) \<Rightarrow> fastlet_id \<Rightarrow> 'q fastlet_info \<Rightarrow> 'q in_memory_registry \<Rightarrow> int \<Rightarrow> int \<Rightarrow> int
     \<Rightarrow> 'q in_memory_registry \<Rightarrow> bool" where
  "ledger_shift nano fid base r0 n cpu memory r \<longleftrightarrow> (\<exists>info.
     GetFastletByID fid r = Some info \<and>
     fi_InFlightSlots info = fi_InFlightSlots base + n \<and>
     nano (rd_CPU (fi_InFlightResources info)) = nano (rd_CPU (fi_InFlightResources base)) + cpu \<and>
     nano (rd_Memory (fi_InFlightResources info)) = nano (rd_Memory (fi_InFlightResources base)) + memory \<and>
     info\<lparr>fi_InFlightResources := fi_InFlightResources base, fi_InFlightSlots := fi_InFlightSlots base\<rparr> = base \<and>
     (\<forall>other. other \<noteq> fid \<longrightarrow> GetFastletByID other r = GetFastletByID other r0))"

lemma ReserveLocal_shift:
  assumes laws: "quantity_laws Q nano" and shift: "ledger_shift nano fid base r0 n c m r"
    and ok: "ReserveLocal Q fid d r = (True, r')"
  shows "ledger_shift nano fid base r0 (n + 1) (c + (if counted Q d then nano (rd_CPU d) else 0))
    (m + (if counted Q d then nano (rd_Memory d) else 0)) r'"
proof -
  obtain info where info: "GetFastletByID fid r = Some info"
      "fi_InFlightSlots info = fi_InFlightSlots base + n"
      "nano (rd_CPU (fi_InFlightResources info)) = nano (rd_CPU (fi_InFlightResources base)) + c"
      "nano (rd_Memory (fi_InFlightResources info)) = nano (rd_Memory (fi_InFlightResources base)) + m"
      "info\<lparr>fi_InFlightResources := fi_InFlightResources base, fi_InFlightSlots := fi_InFlightSlots base\<rparr> = base"
      "\<forall>other. other \<noteq> fid \<longrightarrow> GetFastletByID other r = GetFastletByID other r0"
    using shift by (auto simp: ledger_shift_def)
  obtain info' where info': "reserve_slot Q d info = Some info'" "r' = set_slot fid info' r"
    using ok info(1) by (auto simp: ReserveLocal_def GetFastletByID_def split: option.splits)
  have "info'\<lparr>fi_InFlightResources := fi_InFlightResources base, fi_InFlightSlots := fi_InFlightSlots base\<rparr>
      = info\<lparr>fi_InFlightResources := fi_InFlightResources base, fi_InFlightSlots := fi_InFlightSlots base\<rparr>"
    using info'(1) by (auto simp: reserve_slot_def Let_def split: if_splits)
  then show ?thesis
    using info reserve_slot_Some(2,3)[OF info'(1)]
    by (auto simp: ledger_shift_def info'(2) quantity_simps(3)[OF laws])
qed

lemma ReleaseLocal_shift:
  assumes laws: "quantity_laws Q nano" and shift: "ledger_shift nano fid base r0 n c m r"
    and pos: "0 < fi_InFlightSlots base + n"
  shows "ledger_shift nano fid base r0 (n - 1) (c - (if counted Q d then nano (rd_CPU d) else 0))
    (m - (if counted Q d then nano (rd_Memory d) else 0)) (ReleaseLocal Q fid d r)"
  using shift pos
  by (auto simp: ledger_shift_def ReleaseLocal_def GetFastletByID_def[of fid r] release_slot_simps
      quantity_simps(4)[OF laws])

lemma ReserveAll_shift:
  assumes "quantity_laws Q nano" "ledger_shift nano fid base r0 n c m r" "ReserveAll Q fid ds r = Some r'"
  shows "ledger_shift nano fid base r0 (n + int (length ds)) (c + demand_total Q nano rd_CPU ds)
    (m + demand_total Q nano rd_Memory ds) r'"
  using assms(2,3)
proof (induction ds arbitrary: r n c m)
  case Nil
  then show ?case by (simp add: demand_total_def)
next
  case (Cons d ds)
  obtain r1 where r1: "ReserveLocal Q fid d r = (True, r1)" "ReserveAll Q fid ds r1 = Some r'"
    using Cons.prems(2) by (auto simp: Let_def split: prod.splits if_splits)
  show ?case
    using Cons.IH[OF ReserveLocal_shift[OF assms(1) Cons.prems(1) r1(1)] r1(2)]
    by (simp add: demand_total_def add.assoc)
qed

lemma ReleaseAll_shift:
  assumes "quantity_laws Q nano" "ledger_shift nano fid base r0 n c m r"
    "int (length ds) \<le> fi_InFlightSlots base + n"
  shows "ledger_shift nano fid base r0 (n - int (length ds)) (c - demand_total Q nano rd_CPU ds)
    (m - demand_total Q nano rd_Memory ds) (ReleaseAll Q fid ds r)"
  using assms(2,3)
proof (induction ds arbitrary: r n c m)
  case Nil
  then show ?case by (simp add: demand_total_def ReleaseAll_def)
next
  case (Cons d ds)
  show ?case
    using Cons.IH[OF ReleaseLocal_shift[OF assms(1) Cons.prems(1), of d]] Cons.prems(2)
    by (simp add: demand_total_def ReleaseAll_def algebra_simps)
qed

section \<open>Free capacity\<close>

lemma schedulable_view:
  assumes "Fits Q (ResourceSchedulability Q info now stale) demand"
  shows "sv_FreeResources (ResourceSchedulability Q info now stale) = free_resources Q info"
    "sv_FreeSlots (ResourceSchedulability Q info now stale) = wrap32 (max 0 (Capacity info - SchedulingUsed info))"
    "0 < sv_FreeSlots (ResourceSchedulability Q info now stale)"
  using assms by (auto simp: Fits_def ResourceSchedulability_def no_view_def Let_def split: if_splits)

lemma div_ge_one: "0 < (b::int) \<Longrightarrow> b \<le> a \<Longrightarrow> 1 \<le> a div b"
  using zdiv_mono1[of b a b] by simp

lemma le_int_div_iff:
  assumes "0 < (b::int)"
  shows "k \<le> a div b \<longleftrightarrow> k * b \<le> a"
proof
  assume "k \<le> a div b"
  then have "k * b \<le> a div b * b" using assms by (simp add: mult_right_mono)
  moreover have "a div b * b + a mod b = a" "0 \<le> a mod b" using assms by simp_all
  ultimately show "k * b \<le> a" by linarith
next
  assume "k * b \<le> a"
  then show "k \<le> a div b" using zdiv_mono1[of "k * b" a b] assms by simp
qed

lemma EffectiveFreeCapacity_units:
  assumes laws: "quantity_laws Q nano" and fits: "Fits Q (ResourceSchedulability Q info now stale) d"
    and range: "in_range nano d" "in_range nano (free_resources Q info)"
    and slots: "Capacity info - SchedulingUsed info < 2 ^ 31"
  shows "EffectiveFreeCapacity Q info d now stale = min (Capacity info - SchedulingUsed info)
    (min (cpu_units nano (free_resources Q info) div cpu_units nano d)
         (memory_units nano (free_resources Q info) div memory_units nano d))"
    and "0 < cpu_units nano d" "0 < memory_units nano d"
    and "0 < EffectiveFreeCapacity Q info d now stale"
proof -
  note view = schedulable_view[OF fits] and demand = Fits_schedulable[OF laws fits]
  note units = range[THEN in_range_units(1)[OF laws]] range[THEN in_range_units(2)[OF laws]]
    range[THEN in_range_units(3)[OF laws]] range[THEN in_range_units(4)[OF laws]]
  show pos: "0 < cpu_units nano d" "0 < memory_units nano d"
    using demand(2,3) by (simp_all add: cpu_units_def memory_units_def ceil_div_pos)
  have free: "sv_FreeSlots (ResourceSchedulability Q info now stale) = Capacity info - SchedulingUsed info"
      "0 < Capacity info - SchedulingUsed info"
    using view(2,3) slots by (simp_all add: wrap32_id max_def split: if_splits)
  have "cpu_units nano d \<le> cpu_units nano (free_resources Q info)"
      "memory_units nano d \<le> memory_units nano (free_resources Q info)"
    using demand(4,5)
    by (simp_all add: cpu_units_def memory_units_def ceil_div_mono free_resources_def quantity_simps(4)[OF laws])
  then have at_least: "1 \<le> cpu_units nano (free_resources Q info) div cpu_units nano d"
      "1 \<le> memory_units nano (free_resources Q info) div memory_units nano d"
    using pos by (simp_all add: div_ge_one)
  let ?n = "min (Capacity info - SchedulingUsed info)
    (min (cpu_units nano (free_resources Q info) div cpu_units nano d)
         (memory_units nano (free_resources Q info) div memory_units nano d))"
  have pos_n: "\<not> ?n \<le> 0" and "?n < 2 ^ 31" using at_least free(2) slots by linarith+
  then have wrap: "wrap32 ?n = ?n" by (intro wrap32_id) linarith+
  have divs: "go_div (q_MilliValue Q (rd_CPU (free_resources Q info))) (q_MilliValue Q (rd_CPU d))
        = cpu_units nano (free_resources Q info) div cpu_units nano d"
      "go_div (q_Value Q (rd_Memory (free_resources Q info))) (q_Value Q (rd_Memory d))
        = memory_units nano (free_resources Q info) div memory_units nano d"
    using pos units by (simp_all add: go_div_nonneg)
  show eq: "EffectiveFreeCapacity Q info d now stale = ?n"
    unfolding EffectiveFreeCapacity_def Let_def view(1) free(1) divs if_not_P[OF pos_n] wrap
    using fits by simp
  show "0 < EffectiveFreeCapacity Q info d now stale" unfolding eq using pos_n by linarith
qed

section \<open>Properties\<close>

text \<open>C11: releasing undoes reserving. After any number of reservations on one Fastlet that all
  succeeded, releasing the same demands in any order leaves the Fastlet's in-flight slots and
  amounts exactly as they were, every other field of its entry untouched, and every other Fastlet's
  entry the same. The in-flight slots are not negative at the start.\<close>

theorem reserve_release_roundtrip:
  assumes laws: "quantity_laws Q nano" and info: "GetFastletByID fid r = Some info"
    and slots: "0 \<le> fi_InFlightSlots info" and ok: "ReserveAll Q fid ds r = Some r'"
    and perm: "mset es = mset ds"
  shows "ledger_shift nano fid info r 0 0 0 (ReleaseAll Q fid es r')"
proof -
  have "ledger_shift nano fid info r 0 0 0 r" using info by (simp add: ledger_shift_def)
  from ReserveAll_shift[OF laws this ok]
  have "ledger_shift nano fid info r (int (length ds)) (demand_total Q nano rd_CPU ds) (demand_total Q nano rd_Memory ds) r'"
    by simp
  moreover have "length es = length ds" using perm by (rule mset_eq_length)
  moreover have "demand_total Q nano sel es = demand_total Q nano sel ds" for sel
    by (simp add: demand_total_def perm flip: sum_mset_sum_list)
  ultimately show ?thesis
    using ReleaseAll_shift[OF laws, of fid info r "int (length ds)" "demand_total Q nano rd_CPU ds"
        "demand_total Q nano rd_Memory ds" r' es] slots by simp
qed

theorem reserve_release_roundtrip_witness:
  "\<exists>info r'. GetFastletByID ''a'' sample_registry = Some info \<and>
     ReserveAll nano_quantity ''a''
       [\<lparr>rd_CPU = 10 ^ 9, rd_Memory = 10 ^ 9\<rparr>, \<lparr>rd_CPU = 2 * 10 ^ 9, rd_Memory = 10 ^ 9\<rparr>] sample_registry = Some r' \<and>
     ledger_shift id ''a'' info sample_registry 0 0 0 (ReleaseAll nano_quantity ''a''
       [\<lparr>rd_CPU = 2 * 10 ^ 9, rd_Memory = 10 ^ 9\<rparr>, \<lparr>rd_CPU = 10 ^ 9, rd_Memory = 10 ^ 9\<rparr>] r')"
proof -
  let ?a = "\<lparr>rd_CPU = 10 ^ 9, rd_Memory = 10 ^ 9\<rparr> :: int resource_demand"
  let ?b = "\<lparr>rd_CPU = 2 * 10 ^ 9, rd_Memory = 10 ^ 9\<rparr> :: int resource_demand"
  have "ReserveAll nano_quantity ''a'' [?a, ?b] sample_registry \<noteq> None"
    and "map_option fi_InFlightSlots (GetFastletByID ''a'' sample_registry) = Some 0"
    by code_simp+
  then obtain r' info where "ReserveAll nano_quantity ''a'' [?a, ?b] sample_registry = Some r'"
      "GetFastletByID ''a'' sample_registry = Some info" "fi_InFlightSlots info = 0"
    by auto
  then show ?thesis
    using reserve_release_roundtrip[OF nano_quantity_laws, of "''a''" sample_registry info "[?a, ?b]" r' "[?b, ?a]"]
    by auto
qed

text \<open>C16: a reservation never oversubscribes the view it was made on. When \<^verbatim>\<open>ReserveLocal\<close> succeeds,
  used plus in-flight slots stay within the capacity, and, for a demand with positive CPU and memory,
  committed plus in-flight amounts stay within the Fastlet's capacity in whole millicores and bytes,
  although each amount is rounded up on its own. Amounts are assumed non-negative and below
  \<^verbatim>\<open>2\<^sup>6\<^sup>1\<close> units, so that the three-term sums do not wrap.\<close>

theorem ReserveLocal_within_capacity:
  assumes laws: "quantity_laws Q nano" and ok: "ReserveLocal Q fid d r = (True, r')"
    and info: "GetFastletByID fid r = Some info"
    and range: "in_range nano (fi_ResourceCommitted info)" "in_range nano (fi_InFlightResources info)"
      "in_range nano (fi_ResourceCapacity info)" "in_range nano d"
  shows "\<exists>info'. GetFastletByID fid r' = Some info' \<and>
    fi_InFlightSlots info' = fi_InFlightSlots info + 1 \<and> SchedulingUsed info' \<le> Capacity info' \<and>
    (counted Q d \<longrightarrow>
      cpu_units nano (fi_ResourceCommitted info') + cpu_units nano (fi_InFlightResources info')
        \<le> cpu_units nano (fi_ResourceCapacity info') \<and>
      memory_units nano (fi_ResourceCommitted info') + memory_units nano (fi_InFlightResources info')
        \<le> memory_units nano (fi_ResourceCapacity info'))"
proof -
  obtain info' where info': "reserve_slot Q d info = Some info'" "r' = set_slot fid info' r"
    using ok info by (auto simp: ReserveLocal_def GetFastletByID_def split: option.splits)
  have frame: "fi_Admission info' = fi_Admission info" "fi_ResourceCommitted info' = fi_ResourceCommitted info"
      "fi_ResourceCapacity info' = fi_ResourceCapacity info"
    using info'(1) by (auto simp: reserve_slot_def Let_def split: if_splits)
  show ?thesis
    using reserve_slot_Some(1,2)[OF info'(1)] reserve_slot_capacity[OF laws info'(1) _ range]
    by (auto simp: info'(2) frame SchedulingUsed_def Capacity_def)
qed

theorem ReserveLocal_within_capacity_witness:
  "\<exists>r' info'. ReserveLocal nano_quantity ''a'' \<lparr>rd_CPU = 3 * 10 ^ 9, rd_Memory = 6 * 10 ^ 9\<rparr> sample_registry = (True, r') \<and>
     GetFastletByID ''a'' r' = Some info' \<and> SchedulingUsed info' \<le> Capacity info'"
proof -
  let ?d = "\<lparr>rd_CPU = 3 * 10 ^ 9, rd_Memory = 6 * 10 ^ 9\<rparr> :: int resource_demand"
  let ?check = "\<lambda>i. in_range id (fi_ResourceCommitted i) \<and> in_range id (fi_InFlightResources i) \<and>
     in_range id (fi_ResourceCapacity i)"
  have "map_option ?check (GetFastletByID ''a'' sample_registry) = Some True"
    and ok: "fst (ReserveLocal nano_quantity ''a'' ?d sample_registry)" and d: "in_range id ?d"
    by code_simp+
  then obtain info where info: "GetFastletByID ''a'' sample_registry = Some info" "?check info" by auto
  obtain r' where r': "ReserveLocal nano_quantity ''a'' ?d sample_registry = (True, r')"
    using ok by (cases "ReserveLocal nano_quantity ''a'' ?d sample_registry") auto
  then show ?thesis
    using ReserveLocal_within_capacity[OF nano_quantity_laws r' info(1) _ _ _ d] info(2) by auto
qed

text \<open>C17: the free capacity reported for scaling is exact. It is positive for precisely the Fastlets
  that fit one more such Sandbox, and then a number of Sandboxes is at most the reported one exactly
  when that many fit the free slots, the free millicores and the free bytes. Amounts and free slots
  are assumed to be in range.\<close>

theorem EffectiveFreeCapacity_exact:
  assumes laws: "quantity_laws Q nano" and range: "in_range nano d" "in_range nano (free_resources Q info)"
    and slots: "Capacity info - SchedulingUsed info < 2 ^ 31"
  shows "if Fits Q (ResourceSchedulability Q info now stale) d
    then 0 < EffectiveFreeCapacity Q info d now stale \<and>
      (\<forall>k. k \<le> EffectiveFreeCapacity Q info d now stale \<longleftrightarrow>
         k \<le> Capacity info - SchedulingUsed info \<and>
         k * cpu_units nano d \<le> cpu_units nano (free_resources Q info) \<and>
         k * memory_units nano d \<le> memory_units nano (free_resources Q info))
    else EffectiveFreeCapacity Q info d now stale = 0"
proof (cases "Fits Q (ResourceSchedulability Q info now stale) d")
  case True
  note units = EffectiveFreeCapacity_units[OF laws True range slots]
  show ?thesis
    using True units(4)
    by (simp add: units(1) le_int_div_iff[OF units(2)] le_int_div_iff[OF units(3)])
next
  case False
  then show ?thesis by (simp add: EffectiveFreeCapacity_def Let_def)
qed

theorem EffectiveFreeCapacity_exact_witness:
  "\<exists>info. GetFastletByID ''a'' sample_registry = Some info \<and>
     3 \<le> EffectiveFreeCapacity nano_quantity info \<lparr>rd_CPU = 10 ^ 9, rd_Memory = 2 * 10 ^ 9\<rparr> 200 DefaultObservationStaleAfter"
proof -
  let ?d = "\<lparr>rd_CPU = 10 ^ 9, rd_Memory = 2 * 10 ^ 9\<rparr> :: int resource_demand"
  let ?check = "\<lambda>i. in_range id (free_resources nano_quantity i) \<and> Capacity i - SchedulingUsed i = 3 \<and>
    Fits nano_quantity (ResourceSchedulability nano_quantity i 200 DefaultObservationStaleAfter) ?d \<and>
    3 * cpu_units id ?d \<le> cpu_units id (free_resources nano_quantity i) \<and>
    3 * memory_units id ?d \<le> memory_units id (free_resources nano_quantity i)"
  have "map_option ?check (GetFastletByID ''a'' sample_registry) = Some True" and d: "in_range id ?d"
    by code_simp+
  then obtain info where info: "GetFastletByID ''a'' sample_registry = Some info" "?check info" by auto
  then show ?thesis
    using EffectiveFreeCapacity_exact[OF nano_quantity_laws d, of info 200 DefaultObservationStaleAfter] by auto
qed

text \<open>C18: a release that arrives after its Pod was replaced corrupts the ledger. The slot count is
  guarded, the amounts are not: \<^verbatim>\<open>ReleaseLocal\<close> looks the Fastlet up by ID alone, so when the Pod
  behind the ID has been replaced in between, the demand is subtracted from the new Pod's empty
  ledger, its in-flight amounts become negative, and its free resources grow by the demand beyond
  capacity minus commitment.\<close>

theorem release_after_replacement:
  assumes laws: "quantity_laws Q nano" and ok: "ReserveLocal Q fid d r = (True, r1)"
    and counted: "counted Q d" and old: "GetFastletByID fid r = Some old"
    and pod: "fi_ID pod = fid" "fid \<noteq> []" "fi_PodUID pod \<noteq> fi_PodUID old" "fi_InFlightSlots pod = 0"
      "nano (rd_CPU (fi_InFlightResources pod)) = 0" "nano (rd_Memory (fi_InFlightResources pod)) = 0"
  shows "\<exists>info. GetFastletByID fid (ReleaseLocal Q fid d (UpsertPod pod r1)) = Some info \<and>
    fi_InFlightSlots info = 0 \<and>
    nano (rd_CPU (fi_InFlightResources info)) = - nano (rd_CPU d) \<and> 0 < nano (rd_CPU d) \<and>
    nano (rd_CPU (free_resources Q info)) = nano (rd_CPU (fi_ResourceCapacity info))
      - nano (rd_CPU (fi_ResourceCommitted info)) + nano (rd_CPU d) \<and>
    nano (rd_Memory (free_resources Q info)) = nano (rd_Memory (fi_ResourceCapacity info))
      - nano (rd_Memory (fi_ResourceCommitted info)) + nano (rd_Memory d)"
proof -
  obtain old' where old': "reserve_slot Q d old = Some old'" "r1 = set_slot fid old' r"
    using ok old by (auto simp: ReserveLocal_def GetFastletByID_def split: option.splits)
  have "fi_PodUID old' = fi_PodUID old"
    using old'(1) by (auto simp: reserve_slot_def Let_def split: if_splits)
  then have "GetFastletByID fid (UpsertPod pod r1) = Some pod"
    using pod(1-3) by (simp add: UpsertPod_def old'(2)) (simp add: set_slot_def)
  then have "GetFastletByID fid (ReleaseLocal Q fid d (UpsertPod pod r1)) = Some (release_slot Q d pod)"
    by (simp add: ReleaseLocal_def) (simp add: GetFastletByID_def set_slot_def)
  then show ?thesis
    using pod(4-6) counted
    by (auto simp: release_slot_def counted_def free_resources_def quantity_simps[OF laws]
        quantity_sign[OF laws])
qed

theorem release_after_replacement_witness:
  "\<exists>info. GetFastletByID ''a'' (ReleaseLocal nano_quantity ''a'' \<lparr>rd_CPU = 10 ^ 9, rd_Memory = 10 ^ 9\<rparr>
       (UpsertPod ((sample_pod ''a'')\<lparr>fi_PodUID := ''new''\<rparr>)
         (snd (ReserveLocal nano_quantity ''a'' \<lparr>rd_CPU = 10 ^ 9, rd_Memory = 10 ^ 9\<rparr> sample_registry)))) = Some info \<and>
     rd_CPU (fi_InFlightResources info) = - (10 ^ 9)"
proof -
  let ?d = "\<lparr>rd_CPU = 10 ^ 9, rd_Memory = 10 ^ 9\<rparr> :: int resource_demand"
  let ?pod = "(sample_pod ''a'')\<lparr>fi_PodUID := ''new''\<rparr>"
  have ok: "fst (ReserveLocal nano_quantity ''a'' ?d sample_registry)"
    and uid: "map_option fi_PodUID (GetFastletByID ''a'' sample_registry) = Some ''ua''"
    and counted: "counted nano_quantity ?d"
    and pod: "fi_ID ?pod = ''a''" "fi_PodUID ?pod = ''new''" "fi_InFlightSlots ?pod = 0"
      "id (rd_CPU (fi_InFlightResources ?pod)) = 0" "id (rd_Memory (fi_InFlightResources ?pod)) = 0"
    by code_simp+
  obtain old where old: "GetFastletByID ''a'' sample_registry = Some old" "fi_PodUID old = ''ua''"
    using uid by auto
  obtain r1 where r1: "ReserveLocal nano_quantity ''a'' ?d sample_registry = (True, r1)"
    using ok by (cases "ReserveLocal nano_quantity ''a'' ?d sample_registry") auto
  show ?thesis
    unfolding r1 snd_conv
    using release_after_replacement[OF nano_quantity_laws r1 counted old(1) pod(1) _ _ pod(3-5)] old(2) pod(2)
    by auto
qed

end
