(* ===== verification/Placement_Heartbeat.thy ===== *)
theory Placement_Heartbeat
  imports Placement_Selection
begin

text \<open>
  How observations reach the registry: a heartbeat is applied once and in order within a process
  epoch, a replaced Pod inherits nothing, a capacity rejection is fenced against older snapshots, and
  the image list of the registry follows the inventory of the Fastlet's cache tracker.
\<close>

section \<open>Admission and rejection\<close>

lemma applyHeartbeatAdmission_congruent:
  "fi_Admission i = fi_Admission j \<Longrightarrow> fi_resourceFence i = fi_resourceFence j \<Longrightarrow>
   fi_Admission (applyHeartbeatAdmission i a t) = fi_Admission (applyHeartbeatAdmission j a t)"
  by (auto simp: applyHeartbeatAdmission_def Let_def split: option.splits)

lemma acceptHeartbeat_admission:
  "fi_Admission (acceptHeartbeat Q h t i) = fi_Admission (applyHeartbeatAdmission i (fs_Admission h) t)"
  using applyHeartbeatAdmission_congruent[of "heartbeatReadiness h i" i]
  by (simp add: acceptHeartbeat_def Let_def)

lemma resourceRejectionCleared_congruent:
  "fi_Admission i = fi_Admission j \<Longrightarrow> fi_resourceFence i = fi_resourceFence j \<Longrightarrow>
   resourceRejectionCleared i = resourceRejectionCleared j"
  by (simp add: resourceRejectionCleared_def split: option.split)

lemma acceptHeartbeat_rejected:
  assumes "\<not> resourceRejectionCleared (acceptHeartbeat Q h t i)"
  shows "fi_RejectedUntil (acceptHeartbeat Q h t i) = fi_RejectedUntil i"
proof -
  define j where "j = (applyHeartbeatCache (hr_Cache h) (adoptProfiles h (applyAdmissionResources Q
      (applyHeartbeatAdmission (heartbeatReadiness h i) (fs_Admission h) t))
      \<lparr>fi_SandboxStatuses := statuses_by_id (fs_SandboxStatuses h)\<rparr>))
      \<lparr>fi_HeartbeatSequence := hr_Sequence h, fi_LastHeartbeat := t\<rparr>"
  have acc: "acceptHeartbeat Q h t i = (if resourceRejectionCleared j then j\<lparr>fi_RejectedUntil := time_zero\<rparr> else j)"
    by (simp add: acceptHeartbeat_def Let_def j_def)
  have "\<not> resourceRejectionCleared j"
    using assms resourceRejectionCleared_congruent[of "j\<lparr>fi_RejectedUntil := time_zero\<rparr>" j]
    by (simp add: acc split: if_splits)
  moreover have "fi_RejectedUntil j = fi_RejectedUntil i" by (simp add: j_def)
  ultimately show ?thesis by (simp add: acc)
qed

text \<open>A rejection at revision \<^verbatim>\<open>n\<close> of epoch \<^verbatim>\<open>e\<close>, and heartbeats that carry nothing newer.\<close>

definition fenced :: "string \<Rightarrow> 64 word \<Rightarrow> gotime \<Rightarrow> 'q fastlet_info \<Rightarrow> bool" where
  "fenced e n until info \<longleftrightarrow> e \<noteq> [] \<and> fi_resourceFence info = \<lparr>rf_Epoch = e, rf_Revision = n\<rparr> \<and>
     fi_RejectedUntil info = until \<and>
     (case as_Resources (fi_Admission info) of None \<Rightarrow> False
      | Some s \<Rightarrow> ra_Epoch s = e \<and> ra_Revision s = n)"

definition not_newer :: "string \<Rightarrow> 64 word \<Rightarrow> heartbeat_response \<Rightarrow> bool" where
  "not_newer e n h \<longleftrightarrow> (case as_Resources (fs_Admission h) of None \<Rightarrow> True
     | Some s \<Rightarrow> ra_Epoch s = e \<and> ra_Revision s \<le> n)"

lemma fenced_not_cleared: "fenced e n u info \<Longrightarrow> \<not> resourceRejectionCleared info"
  by (auto simp: fenced_def resourceRejectionCleared_def split: option.splits)

lemma applyHeartbeatAdmission_fenced:
  assumes "fenced e n u i" "not_newer e n h"
  shows "case as_Resources (fi_Admission (applyHeartbeatAdmission i (fs_Admission h) t)) of
    None \<Rightarrow> False | Some s \<Rightarrow> ra_Epoch s = e \<and> ra_Revision s = n"
  using assms
  by (auto simp: fenced_def not_newer_def applyHeartbeatAdmission_def Let_def split: option.splits)

lemma acceptHeartbeat_fenced:
  assumes "fenced e n u i" "not_newer e n h"
  shows "fenced e n u (acceptHeartbeat Q h t i)"
proof -
  have adm: "case as_Resources (fi_Admission (acceptHeartbeat Q h t i)) of
      None \<Rightarrow> False | Some s \<Rightarrow> ra_Epoch s = e \<and> ra_Revision s = n"
    unfolding acceptHeartbeat_admission using applyHeartbeatAdmission_fenced[OF assms] .
  moreover have fence: "fi_resourceFence (acceptHeartbeat Q h t i) = \<lparr>rf_Epoch = e, rf_Revision = n\<rparr>" "e \<noteq> []"
    using assms(1) by (auto simp: fenced_def)
  ultimately have "\<not> resourceRejectionCleared (acceptHeartbeat Q h t i)"
    by (auto simp: resourceRejectionCleared_def split: option.splits)
  then have "fi_RejectedUntil (acceptHeartbeat Q h t i) = u"
    using assms(1) by (simp add: fenced_def acceptHeartbeat_rejected)
  with adm fence show ?thesis by (simp add: fenced_def)
qed

lemma ApplyHeartbeat_slot:
  assumes "GetFastletByID fid r = Some i"
  shows "\<exists>i'. GetFastletByID fid (snd (ApplyHeartbeat Q fid uid (Some h) t r)) = Some i' \<and>
    (i' = i \<or> i' = i\<lparr>fi_RuntimeReady := False, fi_LastHeartbeat := t\<rparr> \<or> i' = acceptHeartbeat Q h t i)"
  using assms by (auto simp: ApplyHeartbeat_def GetFastletByID_def set_slot_def)

fun ApplyHeartbeats ::
    "'q quantity_api \<Rightarrow> fastlet_id \<Rightarrow> (string \<times> heartbeat_response \<times> gotime) list \<Rightarrow> 'q in_memory_registry
     \<Rightarrow> 'q in_memory_registry" where
  "ApplyHeartbeats Q fid [] r = r"
| "ApplyHeartbeats Q fid ((uid, h, t) # hs) r =
     ApplyHeartbeats Q fid hs (snd (ApplyHeartbeat Q fid uid (Some h) t r))"

lemma ApplyHeartbeats_fenced:
  assumes "GetFastletByID fid r = Some i" "fenced e n u i" "\<forall>(uid, h, t) \<in> set hs. not_newer e n h"
  shows "\<exists>i'. GetFastletByID fid (ApplyHeartbeats Q fid hs r) = Some i' \<and> fenced e n u i'"
  using assms
proof (induction hs arbitrary: r i)
  case Nil
  then show ?case by simp
next
  case (Cons x hs)
  obtain uid h t where x: "x = (uid, h, t)" by (cases x) auto
  obtain i' where i': "GetFastletByID fid (snd (ApplyHeartbeat Q fid uid (Some h) t r)) = Some i'"
      "i' = i \<or> i' = i\<lparr>fi_RuntimeReady := False, fi_LastHeartbeat := t\<rparr> \<or> i' = acceptHeartbeat Q h t i"
    using ApplyHeartbeat_slot[OF Cons.prems(1)] by blast
  moreover have "fenced e n u (i\<lparr>fi_RuntimeReady := False, fi_LastHeartbeat := t\<rparr>)"
    using Cons.prems(2) by (simp add: fenced_def)
  moreover have "fenced e n u (acceptHeartbeat Q h t i)"
    using Cons.prems(2,3) by (simp add: x acceptHeartbeat_fenced)
  ultimately have "fenced e n u i'" using Cons.prems(2) by blast
  then show ?case using Cons.IH[OF i'(1)] Cons.prems(3) by (simp add: x)
qed

lemma RecordFeedback_fences:
  assumes slot: "GetFastletByID fid r = Some i" and uid: "lf_PodUID f = [] \<or> lf_PodUID f = fi_PodUID i"
    and code: "lf_Code f = ErrorCapacityRejected"
    and adm: "lf_Admission f = Some a" "as_Resources a = Some s" "ra_Epoch s = e" "ra_Revision s = n" "e \<noteq> []"
    and cur: "case as_Resources (fi_Admission i) of None \<Rightarrow> True
      | Some c \<Rightarrow> ra_Epoch c = e \<and> ra_Revision c \<le> n"
    and times: "\<not> time_is_zero (lf_ObservedAt f)" "0 < lf_RetryAfter f"
  shows "\<exists>i'. GetFastletByID fid (RecordFeedback Q now fid f r) = Some i' \<and>
    fenced e n (time_add (lf_ObservedAt f) (lf_RetryAfter f)) i'"
proof -
  define i1 where "i1 = i\<lparr>fi_Admission := a, fi_ResourceReceivedAt := lf_ObservedAt f,
    fi_resourceFence := \<lparr>rf_Epoch = e, rf_Revision = n\<rparr>\<rparr>"
  have i1: "applyFeedbackAdmission i a f = Some i1" "fi_Admission i1 = a"
      "fi_resourceFence i1 = \<lparr>rf_Epoch = e, rf_Revision = n\<rparr>"
    using adm cur code
    by (cases "as_Resources (fi_Admission i)"; simp add: applyFeedbackAdmission_def Let_def i1_def not_less)+
  have "GetFastletByID fid (RecordFeedback Q now fid f r) = Some (recordRejection f (recordSandbox f (applyAdmissionResources Q i1)))"
    using slot uid times adm(1,2) i1(1)
    by (auto simp: RecordFeedback_def GetFastletByID_def set_slot_def Let_def record_feedback_slot_def
        recordAdmission_def)
  moreover have "fi_Admission (recordSandbox f j) = fi_Admission j"
      "fi_resourceFence (recordSandbox f j) = fi_resourceFence j" for j :: "'a fastlet_info"
    by (simp_all add: recordSandbox_def split: option.split)
  ultimately show ?thesis
    using i1 adm by (simp add: recordRejection_def code rejectingCode_def fenced_def)
qed

section \<open>Order of heartbeats\<close>

lemma recordAdmission_frame:
  assumes "recordAdmission Q f i = Some i'"
  shows "fi_PodUID i' = fi_PodUID i" "fi_CacheEpoch i' = fi_CacheEpoch i"
    "fi_HeartbeatSequence i' = fi_HeartbeatSequence i"
proof -
  have "fi_HeartbeatSequence (applyAdmissionResources Q j) = fi_HeartbeatSequence j" for j
    by (simp add: applyAdmissionResources_def split: option.split)
  then show "fi_PodUID i' = fi_PodUID i" "fi_CacheEpoch i' = fi_CacheEpoch i"
      "fi_HeartbeatSequence i' = fi_HeartbeatSequence i"
    using assms by (auto simp: recordAdmission_def applyFeedbackAdmission_frame split: option.splits if_splits)
qed

lemma record_feedback_slot_frame:
  "fi_PodUID (record_feedback_slot Q f i) = fi_PodUID i"
  "fi_CacheEpoch (record_feedback_slot Q f i) = fi_CacheEpoch i"
  "fi_HeartbeatSequence (record_feedback_slot Q f i) = fi_HeartbeatSequence i"
  by (auto simp: record_feedback_slot_def recordRejection_def recordSandbox_def recordAdmission_frame
      split: option.splits)

text \<open>Within one Pod and one process epoch the sequence number of a slot never goes back.\<close>

definition seq_ordered :: "'q fastlet_info \<Rightarrow> 'q fastlet_info \<Rightarrow> bool" where
  "seq_ordered i j \<longleftrightarrow> (fi_PodUID i = fi_PodUID j \<and> fi_PodUID i \<noteq> [] \<and> fi_CacheEpoch i = fi_CacheEpoch j
     \<longrightarrow> fi_HeartbeatSequence i \<le> fi_HeartbeatSequence j)"

lemma seq_ordered_refl: "seq_ordered i i"
  by (simp add: seq_ordered_def)

lemma UpsertPod_slot:
  "GetFastletByID fid (UpsertPod info r) =
     (if fi_ID info = fid \<and> fid \<noteq> [] then Some (case GetFastletByID fid r of None \<Rightarrow> info
        | Some slot \<Rightarrow> if fi_PodUID slot \<noteq> [] \<and> fi_PodUID slot = fi_PodUID info
            then preserveHeartbeat info slot else info)
      else GetFastletByID fid r)"
  by (simp add: UpsertPod_def) (simp add: GetFastletByID_def)

lemma UpsertPod_ordered:
  assumes "GetFastletByID fid r = Some i" "GetFastletByID fid (UpsertPod info r) = Some j"
  shows "seq_ordered i j"
proof -
  consider "j = i" | "j = preserveHeartbeat info i" | "j = info" "fi_PodUID i = [] \<or> fi_PodUID i \<noteq> fi_PodUID info"
    using assms by (auto simp: UpsertPod_slot split: if_splits)
  then show ?thesis
    by cases (auto simp: seq_ordered_def preserveHeartbeat_def)
qed

lemma ApplyHeartbeat_ordered:
  assumes "GetFastletByID fid r = Some i" "GetFastletByID fid (snd (ApplyHeartbeat Q fid' uid h t r)) = Some j"
  shows "seq_ordered i j"
proof -
  have acc: "seq_ordered i (acceptHeartbeat Q h t i)"
    if "\<not> (cs_Epoch (hr_Cache h) = fi_CacheEpoch i \<and> hr_Sequence h \<le> fi_HeartbeatSequence i)" for h
    using that by (auto simp: seq_ordered_def)
  have mis: "seq_ordered i (i\<lparr>fi_RuntimeReady := False, fi_LastHeartbeat := t\<rparr>)"
    by (simp add: seq_ordered_def)
  show ?thesis
  proof (cases h)
    case None
    then show ?thesis using assms by (simp add: ApplyHeartbeat_def seq_ordered_refl)
  next
    case (Some hb)
    show ?thesis
      using assms acc[of hb] mis seq_ordered_refl[of i]
      by (simp add: ApplyHeartbeat_def Some GetFastletByID_def[of fid' r, symmetric] split: option.splits if_splits)
  qed
qed

lemma slot_update_ordered:
  assumes "GetFastletByID fid r = Some i" "GetFastletByID fid (set_slot fid' x r) = Some j"
    "GetFastletByID fid' r = Some i'" "seq_ordered i' x"
  shows "seq_ordered i j"
  using assms by (auto simp: seq_ordered_refl split: if_splits)

lemma registry_step_ordered:
  assumes "registry_step Q r r'" "GetFastletByID fid r = Some i" "GetFastletByID fid r' = Some j"
  shows "seq_ordered i j"
  using assms(1)
proof (cases rule: registry_step.cases)
  case (upsert info)
  then show ?thesis using assms(2,3) by (simp add: UpsertPod_ordered)
next
  case (heartbeat fid' uid h t)
  then show ?thesis using assms(2,3) by (blast intro: ApplyHeartbeat_ordered)
next
  case (feedback now fid' f)
  have "seq_ordered i' (record_feedback_slot Q f i')" for f i'
    by (simp add: seq_ordered_def record_feedback_slot_frame)
  then show ?thesis
    using assms(2,3) feedback slot_update_ordered[OF assms(2)] seq_ordered_refl
    by (simp add: RecordFeedback_def GetFastletByID_def[symmetric] Let_def split: option.splits) blast
next
  case (reserve fid' d)
  have "seq_ordered i' x" if "reserve_slot Q d i' = Some x" for i' x
    using that by (auto simp: seq_ordered_def reserve_slot_def Let_def split: if_splits)
  then show ?thesis
    using assms(2,3) reserve slot_update_ordered[OF assms(2)] seq_ordered_refl
    by (simp add: ReserveLocal_def GetFastletByID_def[symmetric] split: option.splits) blast
next
  case (release fid' d)
  have "seq_ordered i' (release_slot Q d i')" for i'
    by (simp add: seq_ordered_def release_slot_def Let_def)
  then show ?thesis
    using assms(2,3) release slot_update_ordered[OF assms(2)] seq_ordered_refl
    by (simp add: ReleaseLocal_def GetFastletByID_def[symmetric] split: option.splits) blast
next
  case (remove fid' uid)
  then show ?thesis using assms(2,3)
    by (auto simp: RemoveIfPodUID_def GetFastletByID_def seq_ordered_refl split: option.splits if_splits)
next
  case (stale_after d)
  then show ?thesis using assms(2,3) by (simp add: SetStaleAfter_def GetFastletByID_def seq_ordered_refl)
next
  case (server_seed s)
  then show ?thesis using assms(2,3) by (simp add: SetServerSeed_def GetFastletByID_def seq_ordered_refl)
qed

section \<open>Cache inventory\<close>

lemma word_less_plus_one: "r \<noteq> - 1 \<Longrightarrow> r < r + (1 :: 64 word)"
proof -
  have "unat (-1 :: 64 word) = 2 ^ 64 - 1" by (simp add: unsigned_minus_1_eq_mask mask_eq_exp_minus_1)
  then show "r \<noteq> - 1 \<Longrightarrow> r < r + (1 :: 64 word)" by (unat_arith, simp)
qed

lemma refresh_simps [simp]:
  "tk_epoch (refresh t n) = tk_epoch t" "tk_maxInventory (refresh t n) = tk_maxInventory t"
  "tk_inventory (refresh t n) = n"
  by (auto simp: refresh_def)

lemma refresh_revision:
  "tk_revision (refresh t n) \<noteq> tk_revision t + 1 \<Longrightarrow> tk_revision (refresh t n) = tk_revision t \<and> n = tk_inventory t"
  by (auto simp: refresh_def split: if_splits)

text \<open>The tracker of one Fastlet process and the registry's view of it. The view agrees with the
  inventory whenever it carries the tracker's current epoch and revision and claims to be complete.\<close>

definition cache_agrees :: "fastlet_id \<Rightarrow> tracker \<Rightarrow> 'q in_memory_registry \<Rightarrow> bool" where
  "cache_agrees fid t r \<longleftrightarrow> (case GetFastletByID fid r of None \<Rightarrow> True | Some i \<Rightarrow>
     fi_CacheEpoch i = tk_epoch t \<longrightarrow> fi_CacheRevision i \<le> tk_revision t \<and>
       (fi_CacheRevision i = tk_revision t \<and> fi_CacheComplete i \<longrightarrow>
          fi_Images i = NormalizeInventory (tk_inventory t)))"

definition same_cache :: "'q fastlet_info \<Rightarrow> 'q fastlet_info \<Rightarrow> bool" where
  "same_cache i j \<longleftrightarrow> fi_CacheEpoch i = fi_CacheEpoch j \<and> fi_CacheRevision i = fi_CacheRevision j \<and>
     fi_CacheComplete i = fi_CacheComplete j \<and> fi_Images i = fi_Images j"

text \<open>Calls on the registry other than a heartbeat of this Fastlet keep the cached inventory of its
  slot, or start the slot afresh for a new Pod.\<close>

definition cache_untouched :: "fastlet_id \<Rightarrow> 'q in_memory_registry \<Rightarrow> 'q in_memory_registry \<Rightarrow> bool" where
  "cache_untouched fid r r' \<longleftrightarrow> (case GetFastletByID fid r' of None \<Rightarrow> True | Some j \<Rightarrow>
     fi_CacheEpoch j = [] \<or> (case GetFastletByID fid r of None \<Rightarrow> False | Some i \<Rightarrow> same_cache i j))"

inductive cache_link :: "'q quantity_api \<Rightarrow> fastlet_id \<Rightarrow> tracker \<Rightarrow> 'q in_memory_registry \<Rightarrow> bool"
  for Q fid where
  start: "(\<And>i. GetFastletByID fid r = Some i \<Longrightarrow> fi_CacheEpoch i \<noteq> e) \<Longrightarrow> e \<noteq> [] \<Longrightarrow>
    cache_link Q fid (NewTracker e m) r"
| poll: "cache_link Q fid t r \<Longrightarrow> tracker_Snapshot t source cursor = ((snapshot, err), t') \<Longrightarrow>
    tk_revision t \<noteq> - 1 \<Longrightarrow> hr_Cache h = snapshot \<Longrightarrow>
    cache_link Q fid t' (snd (ApplyHeartbeat Q fid uid (Some h) now r))"
| lost: "cache_link Q fid t r \<Longrightarrow> tracker_Snapshot t source cursor = ((snapshot, err), t') \<Longrightarrow>
    tk_revision t \<noteq> - 1 \<Longrightarrow> cache_link Q fid t' r"
| other: "cache_link Q fid t r \<Longrightarrow> cache_untouched fid r r' \<Longrightarrow> cache_link Q fid t r'"

lemma Snapshot_tracker:
  assumes "tracker_Snapshot t source cursor = ((snapshot, err), t')"
  shows "tk_epoch t' = tk_epoch t" "cs_Epoch snapshot = tk_epoch t"
    "tk_revision t' = tk_revision t \<and> tk_inventory t' = tk_inventory t \<or> tk_revision t' = tk_revision t + 1"
  using assms
  by (auto simp: tracker_Snapshot_def Let_def split: option.splits sum.splits if_splits dest!: refresh_revision)

lemma Snapshot_full:
  assumes "tracker_Snapshot t source cursor = ((snapshot, err), t')"
  shows "cs_Full snapshot \<Longrightarrow> cs_Revision snapshot = tk_revision t' \<and>
      (cs_Complete snapshot \<longrightarrow> cs_Images snapshot = tk_inventory t')"
    and "cs_Revision snapshot = tk_revision t' \<or> cs_Revision snapshot = 0 \<and> \<not> cs_Full snapshot"
  using assms by (auto simp: tracker_Snapshot_def Let_def split: option.splits sum.splits if_splits)

lemma applyHeartbeatCache_agrees:
  assumes agrees: "fi_CacheEpoch i = tk_epoch t \<longrightarrow> fi_CacheRevision i \<le> tk_revision t \<and>
      (fi_CacheRevision i = tk_revision t \<and> fi_CacheComplete i \<longrightarrow>
         fi_Images i = NormalizeInventory (tk_inventory t))"
    and snap: "tracker_Snapshot t source cursor = ((snapshot, err), t')" and room: "tk_revision t \<noteq> - 1"
  defines "j \<equiv> applyHeartbeatCache snapshot i"
  shows "fi_CacheRevision j \<le> tk_revision t' \<and>
    (fi_CacheRevision j = tk_revision t' \<and> fi_CacheComplete j \<longrightarrow>
       fi_Images j = NormalizeInventory (tk_inventory t'))"
proof (cases "cs_Full snapshot")
  case True
  then show ?thesis using Snapshot_full(1)[OF snap] by (auto simp: j_def applyHeartbeatCache_def Let_def)
next
  case False
  have le: "cs_Revision snapshot \<le> tk_revision t'" using Snapshot_full(2)[OF snap] by auto
  show ?thesis
  proof (cases "fi_CacheComplete j \<and> cs_Revision snapshot = tk_revision t'")
    case True
    then have same: "cs_Epoch snapshot = fi_CacheEpoch i" "cs_Revision snapshot = fi_CacheRevision i"
        "fi_CacheComplete i" "fi_Images j = fi_Images i"
      using False by (auto simp: j_def applyHeartbeatCache_def Let_def split: if_splits)
    have "fi_CacheRevision i \<le> tk_revision t" using agrees same(1) Snapshot_tracker(2)[OF snap] by simp
    then have "tk_revision t' \<noteq> tk_revision t + 1"
      using True same(2) word_less_plus_one[OF room] by auto
    then have "tk_revision t' = tk_revision t" "tk_inventory t' = tk_inventory t"
      using Snapshot_tracker(3)[OF snap] by auto
    then show ?thesis using agrees same True Snapshot_tracker(2)[OF snap] by (simp add: j_def)
  next
    case False
    then show ?thesis using le by (auto simp: j_def)
  qed
qed

lemma acceptHeartbeat_cache:
  "same_cache (acceptHeartbeat Q h t i) (applyHeartbeatCache (hr_Cache h) i)"
  by (simp add: acceptHeartbeat_def Let_def same_cache_def applyHeartbeatCache_def)

lemma acceptHeartbeat_full: "cs_Full (hr_Cache h) \<Longrightarrow> fi_CacheComplete (acceptHeartbeat Q h t i) = cs_Complete (hr_Cache h)"
  using acceptHeartbeat_cache[of Q h t i] by (simp add: same_cache_def applyHeartbeatCache_def)

lemma cache_agrees_untouched:
  assumes "cache_agrees fid t r" "cache_untouched fid r r'" "tk_epoch t \<noteq> []"
  shows "cache_agrees fid t r'"
  using assms by (auto simp: cache_agrees_def cache_untouched_def same_cache_def split: option.splits)

lemma cache_agrees_poll:
  assumes agrees: "cache_agrees fid t r" and snap: "tracker_Snapshot t source cursor = ((snapshot, err), t')"
    and room: "tk_revision t \<noteq> - 1" and h: "hr_Cache h = snapshot"
  shows "cache_agrees fid t' (snd (ApplyHeartbeat Q fid uid (Some h) now r))"
proof (cases "GetFastletByID fid r")
  case None
  then show ?thesis by (simp add: ApplyHeartbeat_def cache_agrees_def GetFastletByID_def)
next
  case (Some i)
  then have i: "fi_CacheEpoch i = tk_epoch t \<longrightarrow> fi_CacheRevision i \<le> tk_revision t \<and>
      (fi_CacheRevision i = tk_revision t \<and> fi_CacheComplete i \<longrightarrow> fi_Images i = NormalizeInventory (tk_inventory t))"
    using agrees by (simp add: cache_agrees_def)
  obtain i' where i': "GetFastletByID fid (snd (ApplyHeartbeat Q fid uid (Some h) now r)) = Some i'"
      "i' = i \<or> i' = i\<lparr>fi_RuntimeReady := False, fi_LastHeartbeat := now\<rparr> \<or> i' = acceptHeartbeat Q h now i"
    using ApplyHeartbeat_slot[OF Some] by blast
  have "tk_revision t \<le> tk_revision t' \<and> (tk_revision t' = tk_revision t \<longrightarrow> tk_inventory t' = tk_inventory t)"
    using Snapshot_tracker(3)[OF snap] word_less_plus_one[OF room] by auto
  then have keep: "fi_CacheEpoch i = tk_epoch t' \<longrightarrow> fi_CacheRevision i \<le> tk_revision t' \<and>
      (fi_CacheRevision i = tk_revision t' \<and> fi_CacheComplete i \<longrightarrow> fi_Images i = NormalizeInventory (tk_inventory t'))"
    using i Snapshot_tracker(1)[OF snap] by (metis order.antisym order.trans)
  have acc: "fi_CacheRevision (acceptHeartbeat Q h now i) \<le> tk_revision t' \<and>
      (fi_CacheRevision (acceptHeartbeat Q h now i) = tk_revision t' \<and> fi_CacheComplete (acceptHeartbeat Q h now i) \<longrightarrow>
         fi_Images (acceptHeartbeat Q h now i) = NormalizeInventory (tk_inventory t'))"
    using applyHeartbeatCache_agrees[OF i snap room] acceptHeartbeat_cache[of Q h now i]
    by (simp add: same_cache_def h)
  show ?thesis using i' keep acc by (auto simp: cache_agrees_def)
qed

lemma cache_agrees_lost:
  assumes "cache_agrees fid t r" "tracker_Snapshot t source cursor = ((snapshot, err), t')" "tk_revision t \<noteq> - 1"
  shows "cache_agrees fid t' r"
proof -
  have "tk_revision t \<le> tk_revision t' \<and> (tk_revision t' = tk_revision t \<longrightarrow> tk_inventory t' = tk_inventory t)"
    using Snapshot_tracker(3)[OF assms(2)] word_less_plus_one[OF assms(3)] by auto
  then show ?thesis
    using assms(1) Snapshot_tracker(1)[OF assms(2)]
    by (auto simp: cache_agrees_def split: option.splits)
qed

lemma cache_link_agrees: "cache_link Q fid t r \<Longrightarrow> cache_agrees fid t r \<and> tk_epoch t \<noteq> []"
proof (induction rule: cache_link.induct)
  case (start r e m)
  then show ?case by (auto simp: cache_agrees_def NewTracker_def split: option.splits)
next
  case (poll t r source cursor snapshot err t' h uid now)
  then show ?case using cache_agrees_poll Snapshot_tracker(1) by metis
next
  case (lost t r source cursor snapshot err t')
  then show ?case using cache_agrees_lost Snapshot_tracker(1) by metis
next
  case (other t r r')
  then show ?case using cache_agrees_untouched by blast
qed

text \<open>Every other call keeps the cached inventory.\<close>

lemma cache_untouched_refl: "cache_untouched fid r r"
  by (simp add: cache_untouched_def same_cache_def split: option.split)

lemma cache_untouched_slot:
  "gm_get (rg_fastlets r) fid' = Some i \<Longrightarrow> same_cache i j \<Longrightarrow> cache_untouched fid r (set_slot fid' j r)"
  by (auto simp: cache_untouched_def GetFastletByID_def[symmetric] same_cache_def split: option.split)

lemma cache_untouched_heartbeat:
  assumes "fid' \<noteq> fid"
  shows "cache_untouched fid r (snd (ApplyHeartbeat Q fid' uid h t r))"
proof -
  have "GetFastletByID fid (snd (ApplyHeartbeat Q fid' uid h t r)) = GetFastletByID fid r"
    using assms by (simp add: ApplyHeartbeat_def Let_def split: option.split)
  then show ?thesis by (simp add: cache_untouched_def same_cache_def split: option.split)
qed

lemma applyFeedbackAdmission_cache: "applyFeedbackAdmission i a f = Some i' \<Longrightarrow> same_cache i i'"
  by (auto simp: applyFeedbackAdmission_def same_cache_def Let_def split: option.splits if_splits)

lemma recordAdmission_cache:
  assumes "recordAdmission Q f i = Some i'"
  shows "same_cache i i'"
proof -
  have "same_cache i (applyAdmissionResources Q i)" for i
    by (simp add: applyAdmissionResources_def same_cache_def split: option.split)
  then show ?thesis
    using assms by (auto simp: same_cache_def recordAdmission_def split: option.splits if_splits
        dest!: applyFeedbackAdmission_cache)
qed

lemma record_feedback_slot_cache: "same_cache i (record_feedback_slot Q f i)"
proof (cases "recordAdmission Q f i")
  case None
  then show ?thesis by (simp add: record_feedback_slot_def same_cache_def recordRejection_def recordSandbox_def split: option.split)
next
  case (Some j)
  from recordAdmission_cache[OF this] show ?thesis
    using Some by (simp add: record_feedback_slot_def same_cache_def recordRejection_def recordSandbox_def split: option.split)
qed

lemma cache_untouched_feedback: "cache_untouched fid r (RecordFeedback Q now fid' f r)"
  by (simp add: RecordFeedback_def Let_def cache_untouched_refl cache_untouched_slot record_feedback_slot_cache
      split: option.split)

lemma ledger_cache:
  "reserve_slot Q d i = Some j \<Longrightarrow> same_cache i j" "same_cache i (release_slot Q d i)"
  by (auto simp: reserve_slot_def release_slot_def Let_def same_cache_def split: if_splits)

lemma cache_untouched_ledger:
  "cache_untouched fid r (snd (ReserveLocal Q fid' d r))" "cache_untouched fid r (ReleaseLocal Q fid' d r)"
  by (simp_all add: ReserveLocal_def ReleaseLocal_def cache_untouched_refl cache_untouched_slot ledger_cache
      split: option.split)

lemma cache_untouched_watch:
  "pod_info info \<Longrightarrow> cache_untouched fid r (UpsertPod info r)" "cache_untouched fid r (RemoveIfPodUID fid' uid r)"
proof -
  show "pod_info info \<Longrightarrow> cache_untouched fid r (UpsertPod info r)"
    by (auto simp: cache_untouched_def UpsertPod_slot pod_info_def preserveHeartbeat_def same_cache_def split: option.split)
  show "cache_untouched fid r (RemoveIfPodUID fid' uid r)"
    by (auto simp: cache_untouched_def RemoveIfPodUID_def GetFastletByID_def same_cache_def split: option.split)
qed

section \<open>Properties\<close>

text \<open>Steps during which the slot stays with one Pod and one process epoch.\<close>

definition same_process :: "fastlet_id \<Rightarrow> 'q in_memory_registry \<Rightarrow> 'q in_memory_registry \<Rightarrow> bool" where
  "same_process fid r r' \<longleftrightarrow> (case (GetFastletByID fid r, GetFastletByID fid r') of
     (Some i, Some j) \<Rightarrow> fi_PodUID i = fi_PodUID j \<and> fi_CacheEpoch i = fi_CacheEpoch j | _ \<Rightarrow> False)"

definition process_step :: "'q quantity_api \<Rightarrow> fastlet_id \<Rightarrow> 'q in_memory_registry \<Rightarrow> 'q in_memory_registry \<Rightarrow> bool" where
  "process_step Q fid r r' \<longleftrightarrow> registry_step Q r r' \<and> same_process fid r r'"

lemma process_steps_ordered:
  assumes "(process_step Q fid)\<^sup>*\<^sup>* r r'" "GetFastletByID fid r = Some i" "fi_PodUID i \<noteq> []"
  shows "\<exists>j. GetFastletByID fid r' = Some j \<and> fi_PodUID j = fi_PodUID i \<and> fi_CacheEpoch j = fi_CacheEpoch i \<and>
    fi_HeartbeatSequence i \<le> fi_HeartbeatSequence j"
  using assms(1)
proof (induction rule: rtranclp_induct)
  case base
  then show ?case using assms(2) by simp
next
  case (step r1 r2)
  then obtain j where j: "GetFastletByID fid r1 = Some j" "fi_PodUID j = fi_PodUID i" "fi_CacheEpoch j = fi_CacheEpoch i"
      "fi_HeartbeatSequence i \<le> fi_HeartbeatSequence j" by blast
  then obtain k where k: "GetFastletByID fid r2 = Some k" "fi_PodUID k = fi_PodUID j" "fi_CacheEpoch k = fi_CacheEpoch j"
    using step(2) by (auto simp: process_step_def same_process_def split: option.splits)
  have "seq_ordered j k" using registry_step_ordered step(2) j(1) k(1) by (auto simp: process_step_def)
  then have "fi_HeartbeatSequence j \<le> fi_HeartbeatSequence k" using j k assms(3) by (simp add: seq_ordered_def)
  then show ?case using j k by auto
qed

text \<open>C10: a heartbeat takes effect at most once and in order. Once a heartbeat of a process has been
  accepted, then after any further calls on the registry, as long as the slot stays with that Pod and
  that process epoch, this heartbeat and every older one of the process are rejected as stale and
  change nothing.\<close>

theorem heartbeat_at_most_once:
  assumes acc: "ApplyHeartbeat Q fid uid (Some h) t r = (None, r1)"
    and steps: "(process_step Q fid)\<^sup>*\<^sup>* r1 r2"
    and old: "cs_Epoch (hr_Cache h') = cs_Epoch (hr_Cache h)" "hr_Sequence h' \<le> hr_Sequence h" "fs_FastletPodUID h' = uid"
  shows "ApplyHeartbeat Q fid uid (Some h') t' r2 = (Some ErrStaleHeartbeat, r2)"
proof -
  obtain i where i: "GetFastletByID fid r = Some i" "fi_PodUID i = uid" "uid \<noteq> []"
      "r1 = set_slot fid (acceptHeartbeat Q h t i) r"
    using acc by (auto simp: ApplyHeartbeat_def GetFastletByID_def split: option.splits if_splits)
  then have "GetFastletByID fid r1 = Some (acceptHeartbeat Q h t i)" by simp
  from process_steps_ordered[OF steps this] i
  obtain j where "GetFastletByID fid r2 = Some j" "fi_PodUID j = uid" "fi_CacheEpoch j = cs_Epoch (hr_Cache h)"
      "hr_Sequence h \<le> fi_HeartbeatSequence j" by auto
  then show ?thesis using old i(3) by (auto simp: ApplyHeartbeat_def GetFastletByID_def)
qed

theorem heartbeat_at_most_once_witness:
  "let h = sample_heartbeat ''a'' 2 (sample_admission 1 AdmissionStateOpen) [];
       r1 = snd (ApplyHeartbeat nano_quantity ''a'' ''ua'' (Some h) 150 sample_registry)
   in ApplyHeartbeat nano_quantity ''a'' ''ua'' (Some h) 160 r1 = (Some ErrStaleHeartbeat, r1)"
proof -
  let ?h = "sample_heartbeat ''a'' 2 (sample_admission 1 AdmissionStateOpen) []"
  have "fst (ApplyHeartbeat nano_quantity ''a'' ''ua'' (Some ?h) 150 sample_registry) = None" by code_simp
  then have acc: "ApplyHeartbeat nano_quantity ''a'' ''ua'' (Some ?h) 150 sample_registry
      = (None, snd (ApplyHeartbeat nano_quantity ''a'' ''ua'' (Some ?h) 150 sample_registry))"
    by (metis prod.collapse)
  show ?thesis
    unfolding Let_def
    by (rule heartbeat_at_most_once[OF acc rtranclp.rtrancl_refl]) (simp_all add: sample_heartbeat_def)
qed

text \<open>The epoch of the slot is all the registry remembers: it compares the sequence number only with the
  current process. After a heartbeat of another process of the same Pod, a delayed heartbeat of the
  first one is not recognised as stale.\<close>

lemma older_process_not_stale:
  assumes "ApplyHeartbeat Q fid uid (Some h) t r = (None, r1)"
    and "ApplyHeartbeat Q fid uid (Some h2) t2 r1 = (None, r2)" "cs_Epoch (hr_Cache h2) \<noteq> cs_Epoch (hr_Cache h)"
  shows "fst (ApplyHeartbeat Q fid uid (Some h) t3 r2) \<noteq> Some ErrStaleHeartbeat"
proof -
  obtain i where i: "r2 = set_slot fid (acceptHeartbeat Q h2 t2 i) r1"
    using assms(2) by (auto simp: ApplyHeartbeat_def split: option.splits if_splits)
  then show ?thesis using assms(3) by (auto simp: ApplyHeartbeat_def set_slot_def split: option.splits)
qed

lemma registry_reachable_step: "registry_reachable Q r \<Longrightarrow> registry_step Q r r' \<Longrightarrow> registry_reachable Q r'"
  by (auto simp: registry_reachable_def intro: rtranclp.rtrancl_into_rtrancl)

lemma ApplyHeartbeats_reachable: "registry_reachable Q r \<Longrightarrow> registry_reachable Q (ApplyHeartbeats Q fid hs r)"
  by (induction Q fid hs r rule: ApplyHeartbeats.induct) (simp_all add: registry_reachable_step[OF _ registry_step.heartbeat])

text \<open>C9: a capacity rejection cannot be undone by an observation from before it. After a Fastlet has
  rejected a create for lack of capacity with the admission snapshot of revision \<^verbatim>\<open>n\<close> of an epoch, any
  number of heartbeats that carry that revision or an older one of the same epoch, or no resource
  snapshot at all, leave the rejection window in place: no selection before its end contains the
  Fastlet, even when those heartbeats say that admission is open. The registry holds no admission of
  another epoch and no newer revision when the rejection arrives, and the times of the rejection and of
  the request are set. A heartbeat with a snapshot of another epoch is not covered: the registry takes
  every other epoch for a newer one.\<close>

theorem rejection_survives_stale_heartbeats:
  assumes slot: "GetFastletByID fid r = Some i" and uid: "lf_PodUID f = fi_PodUID i"
    and code: "lf_Code f = ErrorCapacityRejected"
    and adm: "lf_Admission f = Some a" "as_Resources a = Some s" "ra_Epoch s = e" "ra_Revision s = n" "e \<noteq> []"
    and cur: "case as_Resources (fi_Admission i) of None \<Rightarrow> True | Some c \<Rightarrow> ra_Epoch c = e \<and> ra_Revision c \<le> n"
    and times: "\<not> time_is_zero (lf_ObservedAt f)" "0 < lf_RetryAfter f"
    and hs: "\<forall>(uid, h, t) \<in> set hs. not_newer e n h"
    and now: "\<not> time_is_zero (cq_Now request)" "cq_Now request < time_add (lf_ObservedAt f) (lf_RetryAfter f)"
    and r': "r' = ApplyHeartbeats Q fid hs (RecordFeedback Q now fid f r)" and reach: "registry_reachable Q r"
  shows "fid \<notin> fi_ID ` set (TopK Q now r' request k)"
proof
  have wf: "registry_wf r'"
    unfolding r'
    by (rule registry_reachable_wf[OF ApplyHeartbeats_reachable[OF registry_reachable_step[OF reach registry_step.feedback]]])
  assume "fid \<in> fi_ID ` set (TopK Q now r' request k)"
  then obtain x where x: "x \<in> set (TopK Q now r' request k)" "fi_ID x = fid" by blast
  obtain j where "GetFastletByID fid (RecordFeedback Q now fid f r) = Some j"
      "fenced e n (time_add (lf_ObservedAt f) (lf_RetryAfter f)) j"
    using RecordFeedback_fences[OF slot _ code adm cur times] uid by blast
  from ApplyHeartbeats_fenced[OF this hs]
  obtain j' where j': "GetFastletByID fid r' = Some j'" "fenced e n (time_add (lf_ObservedAt f) (lf_RetryAfter f)) j'"
    using r' by blast
  have elig: "x \<in> set (eligible Q r' (normalizedRequest now request))" using TopK_eligible[OF x(1)] .
  then have "x \<in> set (gm_vals (rg_fastlets r'))" by (simp add: eligible_iff)
  then obtain fid' where "gm_get (rg_fastlets r') fid' = Some x" using wf by (auto simp: registry_wf_def gm_vals_iff)
  then have "x = j'" using registry_wf_slot[OF wf] x(2) j'(1) by (auto simp: slot_wf_def GetFastletByID_def)
  then have "fi_RejectedUntil x \<le> cq_Now request" "cq_Now request < fi_RejectedUntil x"
    using elig now j'(2) by (auto simp: eligible_iff fenced_def dest: hardFilter_base(9))
  then show False by simp
qed

definition sample_feedback :: local_feedback where
  "sample_feedback = \<lparr>lf_PodUID = ''ua'', lf_BaseResourceEpoch = ''e'', lf_BaseResourceRevision = 1,
     lf_Code = ErrorCapacityRejected, lf_Reason = no_reason,
     lf_Admission = Some (sample_admission 2 AdmissionStateOpen), lf_Sandbox = None, lf_ObservedAt = 150,
     lf_RetryAfter = 1000\<rparr>"

theorem rejection_survives_stale_heartbeats_witness:
  "let h = sample_heartbeat ''a'' 2 (sample_admission 2 AdmissionStateOpen) [];
       r = ApplyHeartbeats nano_quantity ''a'' [(''ua'', h, 160)]
             (RecordFeedback nano_quantity 150 ''a'' sample_feedback sample_registry)
   in ''a'' \<notin> fi_ID ` set (TopK nano_quantity 150 r (sample_request\<lparr>cq_Now := 200\<rparr>) 2)"
proof -
  let ?h = "sample_heartbeat ''a'' 2 (sample_admission 2 AdmissionStateOpen) []"
  have "map_option (\<lambda>i. (fi_PodUID i, as_Resources (fi_Admission i))) (GetFastletByID ''a'' sample_registry)
      = Some (''ua'', Some (sample_resources 1 AdmissionStateOpen))" by code_simp
  then obtain i where i: "GetFastletByID ''a'' sample_registry = Some i" "fi_PodUID i = ''ua''"
      "as_Resources (fi_Admission i) = Some (sample_resources 1 AdmissionStateOpen)" by auto
  have hb: "\<forall>(uid, h, t) \<in> set [(''ua'', ?h, 160 :: int)]. not_newer ''e'' 2 h"
    by (simp add: not_newer_def sample_heartbeat_def sample_admission_def sample_resources_def)
  show ?thesis
    unfolding Let_def
    by (rule rejection_survives_stale_heartbeats[OF i(1) _ _ _ _ _ _ _ _ _ _ hb _ _ refl sample_registry_reachable,
          where f = sample_feedback and s = "sample_resources 2 AdmissionStateOpen"
            and a = "sample_admission 2 AdmissionStateOpen"])
      (simp_all add: i sample_feedback_def sample_admission_def sample_resources_def time_is_zero_def time_add_def wrap64_def)
qed

text \<open>C19: a replaced Pod inherits nothing and hears nothing meant for its predecessor. When the Pod
  watch reports another Pod under the same ID, the slot becomes exactly what the watch reported, and
  every heartbeat requested from, or sent by, a Pod with another UID is refused and changes nothing.\<close>

theorem replaced_pod_fresh:
  assumes "GetFastletByID (fi_ID pod) r = Some old" "fi_ID pod \<noteq> []" "fi_PodUID pod \<noteq> fi_PodUID old"
    and "expected \<noteq> fi_PodUID pod \<or> fs_FastletPodUID h \<noteq> fi_PodUID pod"
  shows "GetFastletByID (fi_ID pod) (UpsertPod pod r) = Some pod \<and>
    ApplyHeartbeat Q (fi_ID pod) expected (Some h) t (UpsertPod pod r) = (Some ErrStalePodIdentity, UpsertPod pod r)"
proof -
  have "GetFastletByID (fi_ID pod) (UpsertPod pod r) = Some pod" using assms by (simp add: UpsertPod_slot)
  then show ?thesis using assms(4) by (auto simp: ApplyHeartbeat_def GetFastletByID_def)
qed

theorem replaced_pod_fresh_witness:
  "let pod = (sample_pod ''a'')\<lparr>fi_PodUID := ''ua2''\<rparr>; r = UpsertPod pod sample_registry;
       h = sample_heartbeat ''a'' 9 (sample_admission 9 AdmissionStateOpen) []
   in GetFastletByID ''a'' r = Some pod \<and>
      ApplyHeartbeat nano_quantity ''a'' ''ua'' (Some h) 200 r = (Some ErrStalePodIdentity, r)"
proof -
  have "map_option fi_PodUID (GetFastletByID ''a'' sample_registry) = Some ''ua''" by code_simp
  then obtain i where i: "GetFastletByID ''a'' sample_registry = Some i" "fi_PodUID i = ''ua''" by auto
  show ?thesis
    using replaced_pod_fresh[of "(sample_pod ''a'')\<lparr>fi_PodUID := ''ua2''\<rparr>" sample_registry i "''ua''"] i
    by (simp add: sample_pod_def NewFastletID_def Let_def)
qed

lemma Snapshot_listed:
  assumes "tracker_Snapshot t (Some (Inr raw)) cursor = ((snapshot, err), t')"
  shows "cs_Revision snapshot = tk_revision t'" "set (tk_inventory t') \<subseteq> set (NormalizeInventory raw)"
  using assms by (auto simp: tracker_Snapshot_def Let_def split: if_splits)

lemma NormalizeInventory_mono: "set xs \<subseteq> set ys \<Longrightarrow> set (NormalizeInventory xs) \<subseteq> set (NormalizeInventory ys)"
  by (fastforce simp: NormalizeInventory_mem)

text \<open>The tracker normalises a listing and the registry normalises the report again. The second pass
  changes a name only when the first one left blanks at its ends or one more of the prefixes that are
  stripped.\<close>

definition plain_reference :: "string \<Rightarrow> bool" where
  "plain_reference name \<longleftrightarrow> trim_space name = name \<and>
     (\<forall>p \<in> {''https://'', ''http://'', ''docker.io/'', ''library/''}. \<not> has_prefix name p)"

lemma set_trims: "set (trim_space s) \<subseteq> set s" "set (trim_prefix s p) \<subseteq> set s"
proof -
  show "set (trim_space s) \<subseteq> set s"
    using set_dropWhileD[of _ is_space s] set_dropWhileD[of _ is_space "rev (dropWhile is_space s)"]
    by (auto simp: trim_space_def)
  show "set (trim_prefix s p) \<subseteq> set s" by (auto simp: trim_prefix_def dest: in_set_dropD)
qed

lemma char_lower_idem: "char_lower (char_lower c) = char_lower c"
  by (simp add: char_lower_def of_char_of)

lemma NormalizeReference_plain:
  assumes "plain_reference (NormalizeReference name)"
  shows "NormalizeReference (NormalizeReference name) = NormalizeReference name"
proof -
  let ?n = "NormalizeReference name"
  have "set ?n \<subseteq> set (to_lower name)"
    unfolding NormalizeReference_def Let_def using set_trims by blast
  then have "\<forall>c \<in> set ?n. char_lower c = c" by (auto simp: to_lower_def char_lower_idem)
  then have "to_lower ?n = ?n" by (simp add: to_lower_def map_idI)
  then show ?thesis
    using assms by (simp add: NormalizeReference_def[of ?n] plain_reference_def trim_prefix_id)
qed

lemma NormalizeInventory_twice:
  assumes "ref \<in> set (NormalizeInventory (NormalizeInventory raw))"
  shows "(\<exists>image \<in> set raw. ref = NormalizeReference (NormalizeReference image)) \<and>
    ((\<forall>image \<in> set raw. plain_reference (NormalizeReference image)) \<longrightarrow>
       (\<exists>image \<in> set raw. ref = NormalizeReference image))"
  using assms NormalizeReference_plain by (auto simp: NormalizeInventory_mem) metis

text \<open>C20: what image affinity takes for present. Let a Fastlet's inventory tracker and the controller's
  registry have run together from the start of the process, with heartbeats answered, failed or lost in
  any order and any other calls in between. When a heartbeat for which the runtime listed its images is
  accepted, every image for which the registry then reports a hit is a listed image normalised twice,
  once by the tracker and once by the registry. When the normalised names of the listing are plain,
  with no blanks at the ends and no further scheme, \<^verbatim>\<open>docker.io/\<close> or \<^verbatim>\<open>library/\<close> prefix to strip, it is
  the normalised name of a listed image. The counter of revisions is not about to wrap around.\<close>

theorem cache_no_false_hit:
  assumes link: "cache_link Q fid t r" and room: "tk_revision t \<noteq> - 1"
    and snap: "tracker_Snapshot t (Some (Inr raw)) cursor = ((hr_Cache h, err), t')"
    and acc: "ApplyHeartbeat Q fid uid (Some h) now r = (None, r')"
    and slot: "GetFastletByID fid r' = Some i" and wf: "registry_reachable Q r" and hit: "imageHit i ref"
  shows "(\<exists>image \<in> set raw. ref = NormalizeReference (NormalizeReference image)) \<and>
    ((\<forall>image \<in> set raw. plain_reference (NormalizeReference image)) \<longrightarrow>
       (\<exists>image \<in> set raw. ref = NormalizeReference image))"
proof -
  have r': "r' = snd (ApplyHeartbeat Q fid uid (Some h) now r)" using acc by simp
  have agrees: "cache_agrees fid t' r'"
    using cache_link_agrees[OF cache_link.poll[OF link snap room refl]] r' by simp
  have "registry_reachable Q r'" unfolding r' by (rule registry_reachable_step[OF wf registry_step.heartbeat])
  then have "slot_wf fid i" using registry_wf_slot[OF registry_reachable_wf] slot by (simp add: GetFastletByID_def)
  then have ref: "fi_CacheComplete i" "ref \<in> set (fi_Images i)" using hit by (simp_all add: slot_wf_def imageHit_iff)
  obtain j where "i = acceptHeartbeat Q h now j"
    using acc slot by (auto simp: ApplyHeartbeat_def Let_def split: option.splits if_splits)
  then have "fi_CacheEpoch i = cs_Epoch (hr_Cache h)" "fi_CacheRevision i = cs_Revision (hr_Cache h)"
    using acceptHeartbeat_cache[of Q h now j] by (simp_all add: same_cache_def applyHeartbeatCache_def Let_def)
  then have "fi_Images i = NormalizeInventory (tk_inventory t')"
    using agrees slot ref Snapshot_listed(1)[OF snap] Snapshot_tracker(1,2)[OF snap] by (simp add: cache_agrees_def)
  then have "ref \<in> set (NormalizeInventory (NormalizeInventory raw))"
    using ref NormalizeInventory_mono[OF Snapshot_listed(2)[OF snap]] by auto
  then show ?thesis by (rule NormalizeInventory_twice)
qed

definition sample_tracker :: tracker where
  "sample_tracker = NewTracker ''c2'' 10"

definition sample_listing :: "cache_snapshot \<times> tracker" where
  "sample_listing = (let ((snapshot, err), t) = tracker_Snapshot sample_tracker (Some (Inr [''docker.io/img'', ''b'']))
     \<lparr>cc_Epoch = ''c'', cc_Revision = 1, cc_ForceFull = False\<rparr> in (snapshot, t))"

definition sample_cached_heartbeat :: heartbeat_response where
  "sample_cached_heartbeat = (sample_heartbeat ''a'' 2 (sample_admission 1 AdmissionStateOpen) [])
     \<lparr>hr_Cache := fst sample_listing\<rparr>"

theorem cache_no_false_hit_witness:
  "\<exists>i. GetFastletByID ''a'' (snd (ApplyHeartbeat nano_quantity ''a'' ''ua'' (Some sample_cached_heartbeat) 150
         sample_registry)) = Some i \<and> imageHit i ''img'' \<and>
       (\<exists>image \<in> set [''docker.io/img'', ''b'']. ''img'' = NormalizeReference image)"
proof -
  let ?a = "ApplyHeartbeat nano_quantity ''a'' ''ua'' (Some sample_cached_heartbeat) 150 sample_registry"
  have "map_option (\<lambda>i. imageHit i ''img'') (GetFastletByID ''a'' (snd ?a)) = Some True" by code_simp
  then obtain i where i: "GetFastletByID ''a'' (snd ?a) = Some i" "imageHit i ''img''" by auto
  have "fst ?a = None" by code_simp
  then have acc: "?a = (None, snd ?a)" by (metis prod.collapse)
  have "map_option fi_CacheEpoch (GetFastletByID ''a'' sample_registry) = Some ''c''" by code_simp
  then have link: "cache_link nano_quantity ''a'' sample_tracker sample_registry"
    unfolding sample_tracker_def by (intro cache_link.start) auto
  have snap: "tracker_Snapshot sample_tracker (Some (Inr [''docker.io/img'', ''b'']))
      \<lparr>cc_Epoch = ''c'', cc_Revision = 1, cc_ForceFull = False\<rparr>
      = ((hr_Cache sample_cached_heartbeat, None), snd sample_listing)" by code_simp
  have "tk_revision sample_tracker \<noteq> - 1" by (simp add: sample_tracker_def NewTracker_def)
  note hit = cache_no_false_hit[OF link this snap acc i(1) sample_registry_reachable i(2)]
  have "\<forall>image \<in> set [''docker.io/img'', ''b'']. plain_reference (NormalizeReference image)" by code_simp
  with hit i show ?thesis by blast
qed

text \<open>One probe of the heartbeat loop. \<^verbatim>\<open>client\<close> stands for the Fastlet's answer to the cursor, \<^verbatim>\<open>None\<close> for
  a failed call; \<^verbatim>\<open>info\<close> is the slot the loop read.\<close>

definition cursor_of :: "'q fastlet_info \<Rightarrow> cache_cursor" where
  "cursor_of info = \<lparr>cc_Epoch = fi_CacheEpoch info, cc_Revision = fi_CacheRevision info, cc_ForceFull = False\<rparr>"

definition probeOne :: "'q quantity_api \<Rightarrow> (cache_cursor \<Rightarrow> heartbeat_response option) \<Rightarrow> 'q fastlet_info \<Rightarrow> gotime
    \<Rightarrow> 'q in_memory_registry \<Rightarrow> bool \<times> 'q in_memory_registry" where
  "probeOne Q client info now r =
     (case client (cursor_of info) of
        None \<Rightarrow> (False, r)
      | Some heartbeat \<Rightarrow>
          (case ApplyHeartbeat Q (fi_ID info) (fi_PodUID info) (Some heartbeat) now r of
             (Some err, r) \<Rightarrow> (False, r)
           | (None, r) \<Rightarrow> (fs_Draining heartbeat \<or>
               (fs_RuntimeReady heartbeat \<and> fs_InfraReady heartbeat \<and> as_Capacity (fs_Admission heartbeat) > 0), r)))"

text \<open>A sequence of probes of one Fastlet. For each, the Fastlet's tracker answers the cursor with what
  \<^verbatim>\<open>ListImages\<close> returned, and \<^verbatim>\<open>h\<close> is the rest of the heartbeat.\<close>

fun polls :: "'q quantity_api \<Rightarrow> fastlet_id \<Rightarrow> ((string + string list) \<times> heartbeat_response \<times> gotime) list
    \<Rightarrow> tracker \<times> 'q in_memory_registry \<Rightarrow> tracker \<times> 'q in_memory_registry" where
  "polls Q fid [] (t, r) = (t, r)"
| "polls Q fid ((source, h, now) # ps) (t, r) =
     (case GetFastletByID fid r of
        None \<Rightarrow> polls Q fid ps (t, r)
      | Some info \<Rightarrow>
          polls Q fid ps (snd (tracker_Snapshot t (Some source) (cursor_of info)),
            snd (probeOne Q (\<lambda>cursor. Some (h\<lparr>hr_Cache := fst (fst (tracker_Snapshot t (Some source) cursor))\<rparr>))
              info now r)))"

lemma probeOne_registry:
  "snd (probeOne Q client info now r) = (case client (cursor_of info) of None \<Rightarrow> r
     | Some h \<Rightarrow> snd (ApplyHeartbeat Q (fi_ID info) (fi_PodUID info) (Some h) now r))"
  by (simp add: probeOne_def split: option.split prod.split)

lemma polls_stuck:
  assumes "GetFastletByID fid r = Some i" "fi_ID i = fid"
    and "fi_CacheEpoch i = tk_epoch t" "fi_CacheRevision i = tk_revision t" "\<not> fi_CacheComplete i"
    and "tk_initialized t" "tk_inventory t = NormalizeInventory raw" "int (length (NormalizeInventory raw)) \<le> tk_maxInventory t"
    and "\<forall>(source, h, now) \<in> set ps. source = Inr raw"
  shows "\<exists>j. GetFastletByID fid (snd (polls Q fid ps (t, r))) = Some j \<and> \<not> fi_CacheComplete j"
  using assms(1-5,9)
proof (induction ps arbitrary: r i)
  case Nil
  then show ?case by simp
next
  case (Cons x ps)
  obtain h now where x: "x = (Inr raw, h, now)" using Cons.prems(6) by (cases x) auto
  let ?s = "\<lparr>cs_Epoch = tk_epoch t, cs_Revision = tk_revision t, cs_Full = False, cs_Complete = True, cs_Images = []\<rparr>"
  let ?h = "h\<lparr>hr_Cache := ?s\<rparr>"
  have snap: "tracker_Snapshot t (Some (Inr raw)) (cursor_of i) = ((?s, None), t)"
    using assms(6-8) Cons.prems by (simp add: tracker_Snapshot_def refresh_def cursor_of_def Let_def)
  obtain j where j: "GetFastletByID fid (snd (ApplyHeartbeat Q fid (fi_PodUID i) (Some ?h) now r)) = Some j"
      "j = i \<or> j = i\<lparr>fi_RuntimeReady := False, fi_LastHeartbeat := now\<rparr> \<or> j = acceptHeartbeat Q ?h now i"
    using ApplyHeartbeat_slot[OF Cons.prems(1)] by blast
  have "same_cache (acceptHeartbeat Q ?h now i) i"
    using acceptHeartbeat_cache[of Q ?h now i] Cons.prems by (simp add: same_cache_def applyHeartbeatCache_def)
  then have "fi_ID j = fid" "fi_CacheEpoch j = tk_epoch t" "fi_CacheRevision j = tk_revision t" "\<not> fi_CacheComplete j"
    using j(2) Cons.prems by (auto simp: same_cache_def)
  from Cons.IH[OF j(1) this] Cons.prems show ?case by (simp add: x snap probeOne_registry)
qed

text \<open>C21: one failed image listing can cost the registry a Fastlet's images for as long as they do not
  change. Take a slot whose cached revision is not the tracker's current one, such as the slot of a
  controller that has just started, and a heartbeat whose listing fails and that the registry accepts.
  As long as the listings of the later probes are the inventory the tracker already holds, which fits
  its limit, the registry reports no image of the Fastlet, whatever those heartbeats say otherwise and
  however many follow. With the failing listing left out, the first accepted heartbeat makes the slot
  complete, with all those images.\<close>

theorem cache_error_loses_images:
  assumes slot: "GetFastletByID fid r = Some i" "fi_ID i = fid" "fs_FastletPodUID h = fi_PodUID i" "fi_PodUID i \<noteq> []"
      "\<not> heartbeatProfileMismatch h i"
    and behind: "fi_CacheEpoch i \<noteq> tk_epoch t \<or> fi_CacheRevision i \<noteq> tk_revision t"
      "fi_CacheEpoch i = tk_epoch t \<longrightarrow> fi_HeartbeatSequence i < hr_Sequence h"
    and tracker: "tk_initialized t" "tk_inventory t = NormalizeInventory raw" "int (length (NormalizeInventory raw)) \<le> tk_maxInventory t"
    and later: "\<forall>(source, h, now) \<in> set ps. source = Inr raw"
  shows "(\<exists>j. GetFastletByID fid (snd (polls Q fid ((Inl err, h, now) # ps) (t, r))) = Some j \<and> \<not> imageHit j ref) \<and>
    (\<exists>j. GetFastletByID fid (snd (polls Q fid [(Inr raw, h, now)] (t, r))) = Some j \<and>
       fi_CacheComplete j \<and> fi_Images j = NormalizeInventory (tk_inventory t))"
proof
  let ?s = "\<lambda>full. \<lparr>cs_Epoch = tk_epoch t, cs_Revision = tk_revision t, cs_Full = full, cs_Complete = full,
    cs_Images = (if full then tk_inventory t else [])\<rparr>"
  let ?j = "\<lambda>full. acceptHeartbeat Q (h\<lparr>hr_Cache := ?s full\<rparr>) now i"
  have acc: "snd (ApplyHeartbeat Q fid (fi_PodUID i) (Some (h\<lparr>hr_Cache := ?s full\<rparr>)) now r) = set_slot fid (?j full) r" for full
    using slot behind(2) by (auto simp: ApplyHeartbeat_def GetFastletByID_def heartbeatProfileMismatch_def)
  have cache: "same_cache (?j full) (applyHeartbeatCache (?s full) i)" for full
    using acceptHeartbeat_cache[of Q "h\<lparr>hr_Cache := ?s full\<rparr>" now i] by simp
  have fail: "tracker_Snapshot t (Some (Inl err)) (cursor_of i) = ((?s False, Some err), t)"
    by (simp add: tracker_Snapshot_def)
  have "fi_CacheEpoch (?j False) = tk_epoch t" "fi_CacheRevision (?j False) = tk_revision t" "\<not> fi_CacheComplete (?j False)"
      "fi_ID (?j False) = fid" "GetFastletByID fid (set_slot fid (?j False) r) = Some (?j False)"
    using cache[of False] behind(1) slot(2) by (auto simp: same_cache_def applyHeartbeatCache_def)
  from polls_stuck[OF this(5,4,1-3) tracker later, of Q]
  show "\<exists>j. GetFastletByID fid (snd (polls Q fid ((Inl err, h, now) # ps) (t, r))) = Some j \<and> \<not> imageHit j ref"
    using slot(1,2) acc[of False] by (auto simp: fail probeOne_registry imageHit_def)
  have ok: "tracker_Snapshot t (Some (Inr raw)) (cursor_of i) = ((?s True, None), t)"
    using tracker behind(1) by (auto simp: tracker_Snapshot_def refresh_def cursor_of_def Let_def)
  show "\<exists>j. GetFastletByID fid (snd (polls Q fid [(Inr raw, h, now)] (t, r))) = Some j \<and>
      fi_CacheComplete j \<and> fi_Images j = NormalizeInventory (tk_inventory t)"
    using slot(1,2) acc[of True] cache[of True] by (simp add: ok probeOne_registry same_cache_def applyHeartbeatCache_def)
qed

theorem cache_error_loses_images_witness:
  "let h = (\<lambda>n. sample_heartbeat ''a'' n (sample_admission 1 AdmissionStateOpen) []); raw = [''docker.io/img'', ''b'']
   in \<exists>j. GetFastletByID ''a'' (snd (polls nano_quantity ''a''
          ((Inl ''timeout'', h 2, 150) # [(Inr raw, h 3, 160), (Inr raw, h 4, 170)])
          (snd sample_listing, sample_registry))) = Some j \<and> \<not> imageHit j ''img''"
proof -
  let ?h = "\<lambda>n. sample_heartbeat ''a'' n (sample_admission 1 AdmissionStateOpen) []"
  let ?raw = "[''docker.io/img'', ''b'']"
  have "map_option (\<lambda>i. (fi_ID i, fi_PodUID i, fi_CacheEpoch i, heartbeatProfileMismatch (?h 2) i))
      (GetFastletByID ''a'' sample_registry) = Some (''a'', ''ua'', ''c'', False)" by code_simp
  then obtain i where i: "GetFastletByID ''a'' sample_registry = Some i" "fi_ID i = ''a''" "fi_PodUID i = ''ua''"
      "fi_CacheEpoch i = ''c''" "\<not> heartbeatProfileMismatch (?h 2) i" by auto
  have t: "tk_initialized (snd sample_listing)" "tk_epoch (snd sample_listing) = ''c2''"
      "tk_inventory (snd sample_listing) = NormalizeInventory ?raw"
      "int (length (NormalizeInventory ?raw)) \<le> tk_maxInventory (snd sample_listing)"
    by code_simp+
  have "fs_FastletPodUID (?h 2) = fi_PodUID i" "fi_PodUID i \<noteq> []" by (simp_all add: i sample_heartbeat_def)
  from cache_error_loses_images[OF i(1,2) this i(5) _ _ t(1,3,4), where err = "''timeout''" and now = 150
      and ps = "[(Inr ?raw, ?h 3, 160), (Inr ?raw, ?h 4, 170)]" and ref = "''img''" and Q = nano_quantity]
  show ?thesis using i(4) t(2) by (simp add: Let_def del: polls.simps)
qed

text \<open>Normalising an inventory twice is not the same as normalising it once. A Fastlet that holds
  only the image \<^verbatim>\<open>library/library/x\<close> reports it as \<^verbatim>\<open>library/x\<close>, and the registry, which normalises
  the report again, stores \<^verbatim>\<open>x\<close>: a request for \<^verbatim>\<open>x\<close> hits although the image is absent, and a request
  for the image the Fastlet holds misses.\<close>

lemma double_normalisation_false_hit:
  "NormalizeInventory (NormalizeInventory [''library/library/x'']) = [''x''] \<and>
   NormalizeReference ''x'' = ''x'' \<and> NormalizeReference ''library/library/x'' = ''library/x''"
  by code_simp

end
