(* ===== verification/Go_Text.thy ===== *)
theory Go_Text
  imports Prelude
begin

text \<open>
  The parts of Go's \<^verbatim>\<open>strings\<close>, \<^verbatim>\<open>strconv\<close> and \<^verbatim>\<open>net/url\<close> packages that the data plane and the
  network code use: splitting, decimal numbers of a given width, and escaping of URL path segments.
\<close>

section \<open>strings\<close>

text \<open>\<^verbatim>\<open>strings.SplitN\<close> and \<^verbatim>\<open>strings.Split\<close> with a separator of one byte.\<close>

fun split_n :: "char \<Rightarrow> nat \<Rightarrow> string \<Rightarrow> string list" where
  "split_n sep 0 s = []"
| "split_n sep (Suc 0) s = [s]"
| "split_n sep (Suc (Suc n)) s =
     (case dropWhile (\<lambda>c. c \<noteq> sep) s of
        [] \<Rightarrow> [s]
      | _ # rest \<Rightarrow> takeWhile (\<lambda>c. c \<noteq> sep) s # split_n sep (Suc n) rest)"

definition split_all :: "char \<Rightarrow> string \<Rightarrow> string list" where
  "split_all sep s = split_n sep (Suc (length s)) s"

text \<open>\<^verbatim>\<open>strings.Fields\<close>: the maximal runs of bytes that are not white space.\<close>

function Fields :: "string \<Rightarrow> string list" where
  "Fields s = (case dropWhile is_space s of
     [] \<Rightarrow> []
   | c # cs \<Rightarrow> takeWhile (\<lambda>c. \<not> is_space c) (c # cs) # Fields (dropWhile (\<lambda>c. \<not> is_space c) (c # cs)))"
  by pat_completeness auto
termination
proof (relation "measure length")
  fix s c cs
  assume a: "dropWhile is_space s = c # cs"
  then have "\<not> is_space c" by (simp add: dropWhile_eq_Cons_conv)
  moreover have "length (c # cs) \<le> length s" using a by (metis length_dropWhile_le)
  moreover have "length (dropWhile (\<lambda>c. \<not> is_space c) cs) \<le> length cs" by (rule length_dropWhile_le)
  ultimately show "(dropWhile (\<lambda>c. \<not> is_space c) (c # cs), s) \<in> measure length" by simp
qed simp

fun join :: "string \<Rightarrow> string list \<Rightarrow> string" where
  "join sep [] = []"
| "join sep [s] = s"
| "join sep (s # t # ts) = s @ sep @ join sep (t # ts)"

text \<open>\<^verbatim>\<open>strings.Contains\<close>.\<close>

fun contains_text :: "string \<Rightarrow> string \<Rightarrow> bool" where
  "contains_text [] t = (t = [])"
| "contains_text (c # s) t = (has_prefix (c # s) t \<or> contains_text s t)"

lemma split_n_sep:
  assumes "sep \<notin> set x"
  shows "split_n sep (Suc (Suc n)) (x @ sep # rest) = x # split_n sep (Suc n) rest"
    and "split_n sep (Suc (Suc n)) x = [x]"
proof -
  have drop: "dropWhile (\<lambda>c. c \<noteq> sep) x = []" using assms by (auto simp: dropWhile_eq_Nil_conv)
  have "dropWhile (\<lambda>c. c \<noteq> sep) (x @ sep # rest) = sep # rest" "takeWhile (\<lambda>c. c \<noteq> sep) (x @ sep # rest) = x"
    using assms by (induction x) auto
  then show "split_n sep (Suc (Suc n)) (x @ sep # rest) = x # split_n sep (Suc n) rest" by simp
  show "split_n sep (Suc (Suc n)) x = [x]" by (simp only: split_n.simps drop list.case)
qed

section \<open>strconv\<close>

definition is_digit :: "char \<Rightarrow> bool" where
  "is_digit c \<longleftrightarrow> 48 \<le> (of_char c :: nat) \<and> (of_char c :: nat) \<le> 57"

definition digit_value :: "char \<Rightarrow> nat" where
  "digit_value c = (of_char c :: nat) - 48"

definition digit_char :: "nat \<Rightarrow> char" where
  "digit_char d = char_of (48 + d)"

text \<open>\<^verbatim>\<open>FormatUint(n, 10)\<close>.\<close>

fun format_uint :: "nat \<Rightarrow> string" where
  "format_uint n = (if n < 10 then [digit_char n] else format_uint (n div 10) @ [digit_char (n mod 10)])"

declare format_uint.simps [simp del]

definition decimal_value :: "string \<Rightarrow> nat" where
  "decimal_value s = fold (\<lambda>c n. 10 * n + digit_value c) s 0"

text \<open>\<^verbatim>\<open>ParseUint(s, 10, bits)\<close>: no sign, no underscores, at least one digit, and the value fits.\<close>

definition parse_uint :: "nat \<Rightarrow> string \<Rightarrow> nat option" where
  "parse_uint bits s =
     (if s \<noteq> [] \<and> list_all is_digit s \<and> int (decimal_value s) < 2 ^ bits then Some (decimal_value s) else None)"

text \<open>\<^verbatim>\<open>ParseInt(s, 10, 64)\<close>, and \<^verbatim>\<open>Atoi\<close> on a 64-bit platform: an optional sign is accepted.\<close>

definition parse_int64 :: "string \<Rightarrow> int option" where
  "parse_int64 s =
     (case s of [] \<Rightarrow> None
      | c # cs \<Rightarrow>
          if c = CHR ''-'' then
            (case parse_uint 64 cs of None \<Rightarrow> None
             | Some n \<Rightarrow> if int n \<le> 2 ^ 63 then Some (- int n) else None)
          else
            (case parse_uint 64 (if c = CHR ''+'' then cs else c # cs) of None \<Rightarrow> None
             | Some n \<Rightarrow> if int n < 2 ^ 63 then Some (int n) else None))"

definition format_int :: "int \<Rightarrow> string" where
  "format_int n = (if n < 0 then CHR ''-'' # format_uint (nat (- n)) else format_uint (nat n))"

lemma digit_char_props:
  assumes "d < 10"
  shows "is_digit (digit_char d)" "digit_value (digit_char d) = d" "digit_char d \<noteq> CHR ''-''"
    "digit_char d \<noteq> CHR ''+''" "digit_char d \<noteq> CHR ''.''" "digit_char d \<noteq> CHR ''/''"
proof -
  have "of_char (digit_char d) = 48 + d" using assms by (simp add: digit_char_def)
  then show "is_digit (digit_char d)" "digit_value (digit_char d) = d" "digit_char d \<noteq> CHR ''-''"
    "digit_char d \<noteq> CHR ''+''" "digit_char d \<noteq> CHR ''.''" "digit_char d \<noteq> CHR ''/''"
    using assms by (auto simp: is_digit_def digit_value_def)
qed

lemma decimal_value_snoc: "decimal_value (s @ [c]) = 10 * decimal_value s + digit_value c"
  by (simp add: decimal_value_def)

lemma format_uint_props:
  "format_uint n \<noteq> [] \<and> list_all is_digit (format_uint n) \<and> decimal_value (format_uint n) = n"
proof (induction n rule: format_uint.induct)
  case (1 n)
  then show ?case
    by (cases "n < 10")
      (simp_all add: format_uint.simps[of n] digit_char_props decimal_value_snoc decimal_value_def)
qed

lemma format_uint_digits: "c \<in> set (format_uint n) \<Longrightarrow> is_digit c"
  using format_uint_props[of n] by (simp add: list_all_iff)

lemma is_digit_neq: "is_digit c \<Longrightarrow> c \<noteq> CHR ''/'' \<and> c \<noteq> CHR ''.'' \<and> c \<noteq> CHR ''-'' \<and> c \<noteq> CHR ''+'' \<and> c \<noteq> CHR '':'' \<and> c \<noteq> CHR ''%''"
  by (auto simp: is_digit_def)

lemma parse_format_uint: "n < 2 ^ bits \<Longrightarrow> parse_uint bits (format_uint n) = Some n"
  using format_uint_props[of n] by (simp add: parse_uint_def)

lemma parse_format_int:
  assumes "min_int64 \<le> n" "n \<le> max_int64"
  shows "parse_int64 (format_int n) = Some n"
proof (cases "n < 0")
  case True
  then show ?thesis using assms by (simp add: parse_int64_def format_int_def parse_format_uint min_int64_def)
next
  case False
  obtain c cs where c: "format_uint (nat n) = c # cs" using format_uint_props[of "nat n"] by (cases "format_uint (nat n)") auto
  then have "is_digit c" using format_uint_digits[of c "nat n"] by simp
  moreover have "parse_uint 64 (c # cs) = Some (nat n)"
    unfolding c[symmetric] using assms False by (intro parse_format_uint) (simp add: max_int64_def)
  ultimately show ?thesis using False assms is_digit_neq[of c]
    by (auto simp: parse_int64_def format_int_def c max_int64_def)
qed

text \<open>A printed number that parses is the number, also where printing and parsing ranges differ.\<close>

lemma parse_int64_format: "parse_int64 (format_int n) = Some m \<Longrightarrow> m = n"
proof -
  assume p: "parse_int64 (format_int n) = Some m"
  obtain c cs where c: "format_uint (nat n) = c # cs"
    using format_uint_props[of "nat n"] by (cases "format_uint (nat n)") auto
  have d: "is_digit c" using format_uint_digits[of c "nat n"] c by simp
  have v: "parse_uint 64 (format_uint k) = Some j \<Longrightarrow> j = k" for j k
    using format_uint_props[of k] by (auto simp: parse_uint_def split: if_splits)
  show "m = n"
  proof (cases "n < 0")
    case True
    then show ?thesis using p v[of "nat (- n)"] by (auto simp: parse_int64_def format_int_def split: option.splits if_splits)
  next
    case False
    then show ?thesis using p is_digit_neq[OF d] v[of "nat n"] by (auto simp: parse_int64_def format_int_def c split: option.splits if_splits)
  qed
qed

section \<open>net/url\<close>

definition is_alnum :: "char \<Rightarrow> bool" where
  "is_alnum c \<longleftrightarrow> is_digit c \<or> (let n = (of_char c :: nat) in 65 \<le> n \<and> n \<le> 90 \<or> 97 \<le> n \<and> n \<le> 122)"

text \<open>\<^verbatim>\<open>shouldEscape\<close> in the mode for one path segment.\<close>

definition shouldEscape :: "char \<Rightarrow> bool" where
  "shouldEscape c = (if is_alnum c \<or> c \<in> set ''-_.~'' then False
     else if c \<in> set ''$&+,/:;=?@'' then c \<in> set ''/;,?'' else True)"

definition hex_digit :: "nat \<Rightarrow> char" where
  "hex_digit n = (if n < 10 then char_of (48 + n) else char_of (55 + n))"

definition unhex :: "char \<Rightarrow> nat option" where
  "unhex c = (let n = (of_char c :: nat) in
     if 48 \<le> n \<and> n \<le> 57 then Some (n - 48)
     else if 97 \<le> n \<and> n \<le> 102 then Some (n - 87)
     else if 65 \<le> n \<and> n \<le> 70 then Some (n - 55) else None)"

definition escape_char :: "char \<Rightarrow> string" where
  "escape_char c = (if shouldEscape c
     then [CHR ''%'', hex_digit ((of_char c :: nat) div 16), hex_digit ((of_char c :: nat) mod 16)] else [c])"

definition PathEscape :: "string \<Rightarrow> string" where
  "PathEscape s = concat (map escape_char s)"

fun PathUnescape :: "string \<Rightarrow> string option" where
  "PathUnescape [] = Some []"
| "PathUnescape (c # cs) =
     (if c = CHR ''%'' then
        (case cs of
           a # b # rest \<Rightarrow>
             (case (unhex a, unhex b) of
                (Some x, Some y) \<Rightarrow> map_option ((#) (char_of (16 * x + y))) (PathUnescape rest)
              | _ \<Rightarrow> None)
         | _ \<Rightarrow> None)
      else map_option ((#) c) (PathUnescape cs))"

lemma unhex_hex_digit: "n < 16 \<Longrightarrow> unhex (hex_digit n) = Some n"
  by (auto simp: unhex_def hex_digit_def Let_def)

lemma PathUnescape_escape_char: "PathUnescape (escape_char c @ s) = map_option ((#) c) (PathUnescape s)"
proof (cases "shouldEscape c")
  case True
  have "(of_char c :: nat) div 16 < 16" by (rule less_mult_imp_div_less) simp
  then have "unhex (hex_digit ((of_char c :: nat) div 16)) = Some ((of_char c :: nat) div 16)"
      "unhex (hex_digit ((of_char c :: nat) mod 16)) = Some ((of_char c :: nat) mod 16)"
    by (auto intro!: unhex_hex_digit)
  moreover have "char_of (16 * ((of_char c :: nat) div 16) + (of_char c :: nat) mod 16) = c" by simp
  ultimately show ?thesis using True by (simp add: escape_char_def)
next
  case False
  then have "c \<noteq> CHR ''%''" by (auto simp: shouldEscape_def is_alnum_def is_digit_def)
  then show ?thesis using False by (simp add: escape_char_def)
qed

lemma PathUnescape_PathEscape [simp]: "PathUnescape (PathEscape s) = Some s"
  by (induction s) (simp_all add: PathEscape_def PathUnescape_escape_char)

lemma escape_char_slash: "CHR ''/'' \<notin> set (escape_char c)"
proof -
  have hex: "hex_digit n \<noteq> CHR ''/''" if "n < 16" for n
    using unhex_hex_digit[OF that] by (auto simp: unhex_def)
  have "(of_char c :: nat) div 16 < 16" by (rule less_mult_imp_div_less) simp
  then have "hex_digit ((of_char c :: nat) div 16) \<noteq> CHR ''/''" "hex_digit ((of_char c :: nat) mod 16) \<noteq> CHR ''/''"
    by (auto intro!: hex)
  then show ?thesis by (auto simp: escape_char_def shouldEscape_def is_alnum_def is_digit_def)
qed

lemma PathEscape_slash [simp]: "CHR ''/'' \<notin> set (PathEscape s)"
  using escape_char_slash by (auto simp: PathEscape_def)

lemma PathEscape_Nil [simp]: "PathEscape s = [] \<longleftrightarrow> s = []"
  by (cases s) (simp_all add: PathEscape_def escape_char_def)

end
