(* ===== verification/Go_Net.thy ===== *)
theory Go_Net
  imports Go_Text
begin

text \<open>
  The parts of Go's \<^verbatim>\<open>net\<close> and \<^verbatim>\<open>net/netip\<close> packages that the data plane and the Fastlet network
  use: parsing of IPv4 and IPv6 addresses and of prefixes, masking, containment, the successor of an
  address and the textual form of IPv4 addresses.
\<close>

section \<open>Addresses\<close>

text \<open>\<^verbatim>\<open>netip.Addr\<close>: an IPv4 address, or an IPv6 address with its zone. The invalid zero value is
  \<^verbatim>\<open>None\<close> of an option.\<close>

datatype addr = Addr4 "32 word" | Addr6 "128 word" string

definition word_of_bytes :: "nat list \<Rightarrow> 'a::len word" where
  "word_of_bytes bytes = fold (\<lambda>b n. 256 * n + of_nat b) bytes 0"

text \<open>\<^verbatim>\<open>parseIPv4Fields\<close>: the value and the number of digits of the current octet, and the octets
  before it. A dot is refused at the start, at the end and after another dot.\<close>

fun parseIPv4Fields :: "string \<Rightarrow> nat \<Rightarrow> nat \<Rightarrow> nat list \<Rightarrow> nat list option" where
  "parseIPv4Fields [] val digLen octets = (if length octets < 3 then None else Some (octets @ [val]))"
| "parseIPv4Fields (c # cs) val digLen octets =
     (if is_digit c then
        if digLen = 1 \<and> val = 0 then None
        else let val = val * 10 + digit_value c
             in if val > 255 then None else parseIPv4Fields cs val (digLen + 1) octets
      else if c = CHR ''.'' then
        if digLen = 0 \<or> cs = [] then None
        else if length octets = 3 then None
        else parseIPv4Fields cs 0 0 (octets @ [val])
      else None)"

definition parseIPv4 :: "string \<Rightarrow> addr option" where
  "parseIPv4 s = map_option (\<lambda>octets. Addr4 (word_of_bytes octets)) (parseIPv4Fields s 0 0 [])"

definition hex_value :: "string \<Rightarrow> nat" where
  "hex_value s = fold (\<lambda>c n. case unhex c of None \<Rightarrow> n | Some d \<Rightarrow> 16 * n + d) s 0"

text \<open>The loop of \<^verbatim>\<open>parseIPv6\<close> over the groups: the rest of the text, the position of the ellipsis and
  the bytes read so far.\<close>

function parseIPv6Groups :: "string \<Rightarrow> nat option \<Rightarrow> nat list \<Rightarrow> (string \<times> nat option \<times> nat list) option" where
  "parseIPv6Groups s ellipsis ip =
     (if length ip \<ge> 16 then Some (s, ellipsis, ip)
      else let run = takeWhile (\<lambda>c. unhex c \<noteq> None) s; rest = drop (length run) s
      in if run = [] \<or> length run > 4 then None
      else if rest \<noteq> [] \<and> hd rest = CHR ''.'' then
        (if ellipsis = None \<and> length ip \<noteq> 12 then None
         else if length ip + 4 > 16 then None
         else map_option (\<lambda>octets. ([], ellipsis, ip @ octets)) (parseIPv4Fields s 0 0 []))
      else let ip = ip @ [hex_value run div 256, hex_value run mod 256]
      in case rest of
           [] \<Rightarrow> Some ([], ellipsis, ip)
         | c # s \<Rightarrow>
             if c \<noteq> CHR '':'' \<or> s = [] then None
             else if hd s = CHR '':'' then
               (if ellipsis \<noteq> None then None
                else if tl s = [] then Some ([], Some (length ip), ip)
                else parseIPv6Groups (tl s) (Some (length ip)) ip)
             else parseIPv6Groups s ellipsis ip)"
  by pat_completeness auto
termination by (relation "measure (\<lambda>(s, ellipsis, ip). 16 - length ip)") auto

definition expandEllipsis :: "string \<times> nat option \<times> nat list \<Rightarrow> nat list option" where
  "expandEllipsis = (\<lambda>(s, ellipsis, ip).
     if s \<noteq> [] then None
     else if length ip < 16 then
       map_option (\<lambda>e. take e ip @ replicate (16 - length ip) 0 @ drop e ip) ellipsis
     else if ellipsis \<noteq> None then None else Some ip)"

definition parseIPv6 :: "string \<Rightarrow> addr option" where
  "parseIPv6 s =
     (let address = takeWhile (\<lambda>c. c \<noteq> CHR ''%'') s; rest = dropWhile (\<lambda>c. c \<noteq> CHR ''%'') s; zone = tl rest
      in if rest \<noteq> [] \<and> zone = [] then None
      else if address = ''::'' then Some (Addr6 0 zone)
      else let (address, ellipsis) = (if has_prefix address ''::'' then (drop 2 address, Some 0) else (address, None))
      in map_option (\<lambda>bytes. Addr6 (word_of_bytes bytes) zone)
           (Option.bind (parseIPv6Groups address ellipsis []) expandEllipsis))"

text \<open>\<^verbatim>\<open>netip.ParseAddr\<close>: the first of the three separators decides.\<close>

definition ParseAddr :: "string \<Rightarrow> addr option" where
  "ParseAddr s =
     (case dropWhile (\<lambda>c. c \<notin> set ''.:%'') s of
        [] \<Rightarrow> None
      | c # _ \<Rightarrow> if c = CHR ''.'' then parseIPv4 s else if c = CHR '':'' then parseIPv6 s else None)"

text \<open>\<^verbatim>\<open>net.ParseIP\<close>: no zone.\<close>

definition ParseIP :: "string \<Rightarrow> addr option" where
  "ParseIP s =
     (case ParseAddr s of
        None \<Rightarrow> None
      | Some a \<Rightarrow> (case a of Addr4 _ \<Rightarrow> Some a | Addr6 _ zone \<Rightarrow> if zone = [] then Some a else None))"

section \<open>IPv4 text\<close>

definition octets :: "32 word \<Rightarrow> nat list" where
  "octets a = (let n = unat a in [n div 16777216, n div 65536 mod 256, n div 256 mod 256, n mod 256])"

lemma octets_code [code]:
  "octets a = (let n = uint a in [nat (n div 16777216), nat (n div 65536 mod 256), nat (n div 256 mod 256), nat (n mod 256)])"
  by (simp add: octets_def Let_def nat_div_distrib nat_mod_distrib pos_imp_zdiv_nonneg_iff)

definition String4 :: "32 word \<Rightarrow> string" where
  "String4 a = join ''.'' (map format_uint (octets a))"

lemma word_of_bytes_nat: "word_of_bytes bytes = of_nat (fold (\<lambda>b n. 256 * n + b) bytes 0)"
proof -
  have "fold (\<lambda>b n. 256 * n + of_nat b) bytes (of_nat k) = of_nat (fold (\<lambda>b n. 256 * n + b) bytes k)" for k
  proof (induction bytes arbitrary: k)
    case (Cons b bs)
    show ?case using Cons.IH[of "256 * k + b"] by simp
  qed simp
  from this[of 0] show ?thesis by (simp add: word_of_bytes_def)
qed

lemma word_of_octets: "word_of_bytes (octets a) = a"
proof -
  let ?n = "unat a"
  have e: "65536 = 256 * (256 :: nat)" "16777216 = 256 * (256 * (256 :: nat))" by simp_all
  have d: "?n div 65536 = ?n div 256 div 256" "?n div 16777216 = ?n div 256 div 256 div 256"
    unfolding e div_mult2_eq by simp_all
  have "256 * (256 * (256 * (?n div 16777216) + ?n div 65536 mod 256) + ?n div 256 mod 256) + ?n mod 256 = ?n"
    unfolding d by (simp add: mult_div_mod_eq)
  then have "fold (\<lambda>b n. 256 * n + b) (octets a) 0 = ?n" by (simp add: octets_def Let_def)
  then show ?thesis by (simp add: word_of_bytes_nat)
qed

lemma octets_less: "n \<in> set (octets a) \<Longrightarrow> n < 256"
proof -
  have "unat a < 4294967296" using unsigned_less[of a, where 'a = nat] by simp
  then show "n \<in> set (octets a) \<Longrightarrow> n < 256" by (auto simp: octets_def Let_def)
qed

lemma parse_octet:
  assumes "n < 256"
  shows "\<exists>k. k \<noteq> 0 \<and> parseIPv4Fields (format_uint n @ rest) 0 0 acc = parseIPv4Fields rest n k acc"
proof -
  note d = digit_char_props
  consider "n < 10" | "10 \<le> n" "n < 100" | "100 \<le> n" by linarith
  then show ?thesis
  proof cases
    case 1
    then show ?thesis by (intro exI[of _ 1]) (simp add: format_uint.simps d)
  next
    case 2
    then have "format_uint n = [digit_char (n div 10), digit_char (n mod 10)]" by (simp add: format_uint.simps)
    moreover have "n div 10 < 10" "n div 10 \<noteq> 0" "n div 10 * 10 + n mod 10 = n" using 2 by auto
    ultimately show ?thesis using assms by (intro exI[of _ "Suc (Suc 0)"]) (simp add: d)
  next
    case 3
    have q: "\<not> n div 10 < 10" "n div 10 div 10 < 10" using 3 assms by auto
    from 3 have "format_uint n = [digit_char (n div 100), digit_char (n div 10 mod 10), digit_char (n mod 10)]"
      using q by (simp add: format_uint.simps div_mult2_eq[of n 10 10, simplified])
    moreover have "n div 100 < 10" "n div 100 \<noteq> 0" "(n div 100 * 10 + n div 10 mod 10) * 10 + n mod 10 = n"
      using 3 assms by (auto simp: div_mult2_eq[of n 10 10, simplified])
    ultimately show ?thesis using assms by (intro exI[of _ "Suc (Suc (Suc 0))"]) (simp add: d)
  qed
qed

lemma parse_octet_dot:
  assumes "n < 256" "rest \<noteq> []" "length acc < 3"
  shows "parseIPv4Fields (format_uint n @ CHR ''.'' # rest) 0 0 acc = parseIPv4Fields rest 0 0 (acc @ [n])"
proof -
  obtain k where "k \<noteq> 0" "parseIPv4Fields (format_uint n @ CHR ''.'' # rest) 0 0 acc
      = parseIPv4Fields (CHR ''.'' # rest) n k acc"
    using parse_octet[OF assms(1)] by blast
  then show ?thesis using assms(2,3) by (simp add: is_digit_def)
qed

lemma parseIPv4Fields_String4: "parseIPv4Fields (String4 a) 0 0 [] = Some (octets a)"
proof -
  obtain p q r s where o: "octets a = [p, q, r, s]" by (simp add: octets_def Let_def)
  have lt: "p < 256" "q < 256" "r < 256" "s < 256" using octets_less[of _ a] o by auto
  have ne: "format_uint n \<noteq> []" for n using format_uint_props by blast
  obtain k where "parseIPv4Fields (format_uint s @ []) 0 0 [p, q, r] = parseIPv4Fields [] s k [p, q, r]"
    using parse_octet[OF lt(4)] by blast
  then show ?thesis using lt ne by (simp add: String4_def o parse_octet_dot)
qed

lemma format_uint_no_sep: "c \<in> set (format_uint n) \<Longrightarrow> c \<notin> set ''.:%''"
  using format_uint_digits is_digit_neq by fastforce

lemma ParseAddr_String4 [simp]: "ParseAddr (String4 a) = Some (Addr4 a)"
proof -
  obtain p q r s where o: "octets a = [p, q, r, s]" by (simp add: octets_def Let_def)
  have "dropWhile (\<lambda>c. c \<notin> set ''.:%'') (format_uint p @ CHR ''.'' # rest) = CHR ''.'' # rest" for rest
    using format_uint_no_sep[of _ p] by (subst dropWhile_append2) auto
  then show ?thesis
    by (simp add: ParseAddr_def String4_def o parseIPv4_def)
      (use parseIPv4Fields_String4[of a] word_of_octets[of a] in \<open>simp add: String4_def o\<close>)
qed

lemma String4_inj: "String4 a = String4 b \<longleftrightarrow> a = b"
  by (metis ParseAddr_String4 addr.inject(1) option.inject)

lemma ParseIP_String4 [simp]: "ParseIP (String4 a) = Some (Addr4 a)"
  by (simp add: ParseIP_def)

section \<open>Prefixes\<close>

text \<open>\<^verbatim>\<open>netip.Prefix\<close>: an address without zone and a number of bits in range.\<close>

type_synonym ip_prefix = "addr \<times> nat"

definition BitLen :: "addr \<Rightarrow> nat" where
  "BitLen a = (case a of Addr4 _ \<Rightarrow> 32 | Addr6 _ _ \<Rightarrow> 128)"

definition Is4 :: "addr \<Rightarrow> bool" where
  "Is4 a = (case a of Addr4 _ \<Rightarrow> True | Addr6 _ _ \<Rightarrow> False)"

definition parsePrefixBits :: "string \<Rightarrow> int option" where
  "parsePrefixBits s = (if length s > 1 \<and> \<not> (CHR ''1'' \<le> hd s \<and> hd s \<le> CHR ''9'') then None else parse_int64 s)"

definition ParsePrefix :: "string \<Rightarrow> ip_prefix option" where
  "ParsePrefix s =
     (let tail = takeWhile (\<lambda>c. c \<noteq> CHR ''/'') (rev s); front = drop (length tail + 1) (rev s)
      in if CHR ''/'' \<notin> set s then None
      else case ParseAddr (rev front) of
          None \<Rightarrow> None
        | Some a \<Rightarrow>
            if (case a of Addr4 _ \<Rightarrow> False | Addr6 _ zone \<Rightarrow> zone \<noteq> []) then None
            else case parsePrefixBits (rev tail) of
                None \<Rightarrow> None
              | Some bits \<Rightarrow> if bits < 0 \<or> bits > int (BitLen a) then None else Some (a, nat bits))"

definition clear_low :: "nat \<Rightarrow> 'a::len word \<Rightarrow> 'a word" where
  "clear_low k a = push_bit k (drop_bit k a)"

definition Masked :: "ip_prefix \<Rightarrow> ip_prefix" where
  "Masked p = (case p of (a, bits) \<Rightarrow>
     (case a of Addr4 w \<Rightarrow> (Addr4 (clear_low (32 - bits) w), bits)
      | Addr6 w zone \<Rightarrow> (Addr6 (clear_low (128 - bits) w) [], bits)))"

definition Contains4 :: "32 word \<times> nat \<Rightarrow> 32 word \<Rightarrow> bool" where
  "Contains4 p a = (case p of (base, bits) \<Rightarrow> drop_bit (32 - bits) (a XOR base) = 0)"

definition Prefix_Contains :: "ip_prefix \<Rightarrow> addr \<Rightarrow> bool" where
  "Prefix_Contains p a = (case (p, a) of
     ((Addr4 base, bits), Addr4 w) \<Rightarrow> Contains4 (base, bits) w
   | ((Addr6 base z, bits), Addr6 w zone) \<Rightarrow> zone = [] \<and> drop_bit (128 - bits) (w XOR base) = 0
   | _ \<Rightarrow> False)"

definition Prefix4_String :: "32 word \<times> nat \<Rightarrow> string" where
  "Prefix4_String p = (case p of (a, bits) \<Rightarrow> String4 a @ ''/'' @ format_uint bits)"

text \<open>\<^verbatim>\<open>Addr.Next\<close> on IPv4: the last address has no successor.\<close>

definition Next4 :: "32 word \<Rightarrow> 32 word option" where
  "Next4 a = (if a + 1 = 0 then None else Some (a + 1))"

lemma word_xor_eq_0: "a XOR b = 0 \<longleftrightarrow> a = (b :: 'a::len word)"
  by (auto simp: bit_eq_iff bit_xor_iff)

lemma Contains4_iff: "Contains4 (base, bits) a \<longleftrightarrow> unat a div 2 ^ (32 - bits) = unat base div 2 ^ (32 - bits)"
proof -
  have "Contains4 (base, bits) a \<longleftrightarrow> drop_bit (32 - bits) a = drop_bit (32 - bits) base"
    by (simp add: Contains4_def word_xor_eq_0)
  also have "\<dots> \<longleftrightarrow> unat (drop_bit (32 - bits) a) = unat (drop_bit (32 - bits) base)" by (simp add: word_unat_eq_iff)
  finally show ?thesis unfolding unat_drop_bit_eq by (simp only: drop_bit_eq_div)
qed

end
