(* ===== verification/Data_Plane.thy ===== *)
theory Data_Plane
  imports Go_Net
begin

text \<open>
  The runtime-neutral data-plane contract of \<^verbatim>\<open>internal/dataplane/contract\<close>: access descriptors with
  their validation, route publications, and the printing and parsing of route paths.
\<close>

section \<open>Access descriptors\<close>

text \<open>A value of the typed string \<^verbatim>\<open>AccessKind\<close> other than the one constant, the empty one included.\<close>

datatype access_kind = AccessKindDirectIP | AccessKindOther string

record access_descriptor =
  ad_Kind :: access_kind
  ad_Address :: string
  ad_NetNSPath :: string

datatype access_error = AccessRequiresIP | AccessKindUnsupported string

definition AccessDescriptor_Validate :: "access_descriptor \<Rightarrow> access_error option" where
  "AccessDescriptor_Validate a =
     (case ad_Kind a of
        AccessKindDirectIP \<Rightarrow> if ParseIP (ad_Address a) = None then Some AccessRequiresIP else None
      | AccessKindOther kind \<Rightarrow> Some (AccessKindUnsupported kind))"

section \<open>Route publications\<close>

record component_route =
  cr_Protocol :: string
  cr_Port :: "32 word"

text \<open>A Go map that may be \<^verbatim>\<open>nil\<close> is an option: \<^verbatim>\<open>reflect.DeepEqual\<close> and JSON tell \<^verbatim>\<open>nil\<close> from empty.\<close>

record route_publication =
  rp_Namespace :: string
  rp_SandboxUID :: string
  rp_FastletPodUID :: string
  rp_AssignmentAttempt :: int
  rp_RouteGeneration :: int
  rp_Access :: access_descriptor
  rp_Components :: "(string, component_route) gomap option"

datatype proxy_error = ProxyErrorRouteUnavailable | ProxyErrorComponentNotFound | ProxyErrorComponentNotReady
  | ProxyErrorStaleRoute | ProxyErrorCredentialRejected | ProxyErrorUpstreamUnavailable

section \<open>Route paths\<close>

datatype route_path_error = RoutePathPrefix | RoutePathShape | InvalidSandboxUID | InvalidTargetPort
  | InvalidComponentName

definition path_suffix :: "string list \<Rightarrow> string" where
  "path_suffix parts = (if length parts = 4 \<and> parts ! 3 \<noteq> [] then ''/'' @ parts ! 3 else ''/'')"

definition unescape_segment :: "string \<Rightarrow> string option" where
  "unescape_segment part =
     (case PathUnescape part of
        None \<Rightarrow> None
      | Some segment \<Rightarrow> if segment = [] \<or> CHR ''/'' \<in> set segment then None else Some segment)"

definition ParseRoutePath :: "string \<Rightarrow> route_path_error + (string \<times> 32 word \<times> string)" where
  "ParseRoutePath path =
     (if \<not> has_prefix path ''/v1/sandboxes/'' then Inl RoutePathPrefix
      else let parts = split_n (CHR ''/'') 4 (trim_prefix path ''/v1/sandboxes/'')
      in if length parts < 3 \<or> parts ! 0 = [] \<or> parts ! 1 \<noteq> ''ports'' \<or> parts ! 2 = [] then Inl RoutePathShape
      else case unescape_segment (parts ! 0) of
          None \<Rightarrow> Inl InvalidSandboxUID
        | Some uid \<Rightarrow>
            (case parse_uint 16 (parts ! 2) of
               None \<Rightarrow> Inl InvalidTargetPort
             | Some portValue \<Rightarrow>
                 if portValue = 0 then Inl InvalidTargetPort
                 else Inr (uid, of_nat portValue, path_suffix parts)))"

definition RoutePath :: "string \<Rightarrow> 32 word \<Rightarrow> string" where
  "RoutePath sandboxUID targetPort =
     ''/v1/sandboxes/'' @ PathEscape sandboxUID @ ''/ports/'' @ format_uint (unat targetPort)"

definition ComponentRoutePath :: "string \<Rightarrow> string \<Rightarrow> string" where
  "ComponentRoutePath sandboxUID componentName =
     ''/v2/sandboxes/'' @ PathEscape sandboxUID @ ''/components/'' @ PathEscape componentName"

definition ParseComponentRoutePath :: "string \<Rightarrow> route_path_error + (string \<times> string \<times> string)" where
  "ParseComponentRoutePath path =
     (if \<not> has_prefix path ''/v2/sandboxes/'' then Inl RoutePathPrefix
      else let parts = split_n (CHR ''/'') 4 (trim_prefix path ''/v2/sandboxes/'')
      in if length parts < 3 \<or> parts ! 0 = [] \<or> parts ! 1 \<noteq> ''components'' \<or> parts ! 2 = []
         then Inl RoutePathShape
      else case unescape_segment (parts ! 0) of
          None \<Rightarrow> Inl InvalidSandboxUID
        | Some uid \<Rightarrow>
            (case unescape_segment (parts ! 2) of
               None \<Rightarrow> Inl InvalidComponentName
             | Some component \<Rightarrow> Inr (uid, component, path_suffix parts)))"

lemma unescape_PathEscape:
  "s \<noteq> [] \<Longrightarrow> CHR ''/'' \<notin> set s \<Longrightarrow> unescape_segment (PathEscape s) = Some s"
  by (simp add: unescape_segment_def)

lemma unescape_segment_Some: "unescape_segment p = Some s \<Longrightarrow> s \<noteq> [] \<and> CHR ''/'' \<notin> set s"
  by (auto simp: unescape_segment_def split: option.splits if_splits)

text \<open>Three segments without a slash, alone or followed by more.\<close>

lemma split_three:
  assumes "CHR ''/'' \<notin> set a" "CHR ''/'' \<notin> set b" "CHR ''/'' \<notin> set c"
  shows "split_n (CHR ''/'') 4 (a @ CHR ''/'' # b @ CHR ''/'' # c) = [a, b, c]"
    and "split_n (CHR ''/'') 4 (a @ CHR ''/'' # b @ CHR ''/'' # c @ CHR ''/'' # rest) = [a, b, c, rest]"
proof -
  have n: "4 = Suc (Suc (Suc (Suc 0)))" by simp
  show "split_n (CHR ''/'') 4 (a @ CHR ''/'' # b @ CHR ''/'' # c) = [a, b, c]"
    "split_n (CHR ''/'') 4 (a @ CHR ''/'' # b @ CHR ''/'' # c @ CHR ''/'' # rest) = [a, b, c, rest]"
    unfolding n by (simp_all only: split_n_sep[OF assms(1)] split_n_sep[OF assms(2)] split_n_sep[OF assms(3)] split_n.simps(1,2))
qed

lemma split_4: "split_n sep 4 s = split_n sep (Suc (Suc (Suc (Suc 0)))) s"
  by (simp add: eval_nat_numeral)

lemma format_uint_no_slash: "CHR ''/'' \<notin> set (format_uint n)"
  using format_uint_digits is_digit_neq by blast

lemma unat_port: "unat (of_nat n :: 32 word) = n" if "n < 2 ^ 16"
  using that by (simp add: unat_of_nat take_bit_nat_eq_self)

lemma literal_paths:
  "CHR ''/'' \<notin> set ''ports''" "CHR ''/'' \<notin> set ''components''"
  by simp_all

text \<open>C29: printing and parsing of route paths are inverse. For every Sandbox UID that is not empty and
  has no slash, whatever other bytes it has, and every port from 1 to 65535, the printed path parses to
  that UID and port, and anything appended after a slash comes back unchanged as the upstream path. The
  same holds for component routes and component names.\<close>

theorem route_path_roundtrip:
  assumes "uid \<noteq> []" "CHR ''/'' \<notin> set uid" "0 < port" "port < 65536" "name \<noteq> []" "CHR ''/'' \<notin> set name"
  shows "ParseRoutePath (RoutePath uid port) = Inr (uid, port, ''/'') \<and>
    ParseRoutePath (RoutePath uid port @ ''/'' @ rest) = Inr (uid, port, ''/'' @ rest) \<and>
    ParseComponentRoutePath (ComponentRoutePath uid name) = Inr (uid, name, ''/'') \<and>
    ParseComponentRoutePath (ComponentRoutePath uid name @ ''/'' @ rest) = Inr (uid, name, ''/'' @ rest)"
proof -
  have port: "unat port < 2 ^ 16" "unat port \<noteq> 0"
    using assms(3,4) by (auto simp: word_less_nat_alt)
  have number: "parse_uint 16 (format_uint (unat port)) = Some (unat port)" "format_uint (unat port) \<noteq> []"
    using port(1) parse_format_uint format_uint_props by blast+
  note split = split_three[OF PathEscape_slash literal_paths(1) format_uint_no_slash, simplified]
    split_three[OF PathEscape_slash literal_paths(2) PathEscape_slash, simplified]
  show ?thesis
    using assms(1,2,5,6) port number
    by (simp add: ParseRoutePath_def RoutePath_def ParseComponentRoutePath_def ComponentRoutePath_def trim_prefix_def
        split unescape_PathEscape path_suffix_def Let_def numeral_3_eq_3)
qed

theorem route_path_roundtrip_witness:
  "ParseRoutePath (RoutePath ''a%b'' 8080 @ ''/'' @ ''x'') = Inr (''a%b'', 8080, ''/x'')"
  using route_path_roundtrip[of "''a%b''" 8080 "''c''" "''x''"] by simp

text \<open>An accepted route path names one Sandbox and a usable port. Whatever the path, the parsed UID
  is not empty and has no slash, the port lies between 1 and 65535, and the upstream path starts with
  a slash.\<close>

lemma ParseRoutePath_sound:
  assumes "ParseRoutePath path = Inr (uid, port, suffix)"
  shows "uid \<noteq> [] \<and> CHR ''/'' \<notin> set uid \<and> 0 < port \<and> port < 65536 \<and> has_prefix suffix ''/''"
proof -
  obtain part digits parts n where p: "unescape_segment part = Some uid" "parse_uint 16 digits = Some n"
      "n \<noteq> 0" "port = of_nat n" "suffix = path_suffix parts"
    using assms by (auto simp: ParseRoutePath_def Let_def split: if_splits option.splits)
  have n: "n < 2 ^ 16" using p(2) by (simp add: parse_uint_def split: if_splits)
  have "unat port = n" using unat_port[OF n] p(4) by simp
  then have "0 < port" "port < 65536" using p(3) n by (simp_all add: word_less_nat_alt)
  then show ?thesis using unescape_segment_Some[OF p(1)] p(5) by (simp add: path_suffix_def)
qed

end
