(* ===== verification/Route_Store.thy ===== *)
theory Route_Store
  imports Data_Plane
begin

text \<open>
  The Fastlet Proxy's route store of \<^verbatim>\<open>internal/dataplane/fastletproxy/store.go\<close>: active routes,
  generation tombstones, revisions and the buffered channels of watchers. Its control server and client
  (\<^verbatim>\<open>control.go\<close>) and the publisher that the Fastlet uses (\<^verbatim>\<open>publisher.go\<close>) follow in the theory
  \<^verbatim>\<open>Route_Publisher\<close>.
\<close>

section \<open>Routes\<close>

datatype route_state = RouteReady | RouteDraining | RouteStateOther string

record route_key =
  rt_SandboxUID :: string
  rt_RouteGeneration :: int

record route_spec =
  rt_Namespace :: string
  rt_FastletPodUID :: string
  rt_AssignmentAttempt :: int
  rt_Access :: access_descriptor
  rt_State :: route_state
  rt_Components :: "(string, component_route) gomap option"

record route =
  rt_Key :: route_key
  rt_Spec :: route_spec

abbreviation rt_uid :: "route \<Rightarrow> string" where
  "rt_uid r \<equiv> rt_SandboxUID (rt_Key r)"

abbreviation rt_gen :: "route \<Rightarrow> int" where
  "rt_gen r \<equiv> rt_RouteGeneration (rt_Key r)"

datatype route_conflict = ConflictPlain | IncompleteIdentity | AccessInvalid access_error | InvalidRouteState string

datatype route_error = ErrRouteNotFound | ErrRouteStale | ErrRouteConflict route_conflict | ErrRouteDraining

definition Route_validate :: "route \<Rightarrow> route_error option" where
  "Route_validate r =
     (if rt_Namespace (rt_Spec r) = [] \<or> rt_uid r = [] \<or> rt_FastletPodUID (rt_Spec r) = [] \<or>
         rt_AssignmentAttempt (rt_Spec r) \<le> 0 \<or> rt_gen r \<le> 0 \<or>
         ad_Kind (rt_Access (rt_Spec r)) = AccessKindOther []
      then Some (ErrRouteConflict IncompleteIdentity)
      else case AccessDescriptor_Validate (rt_Access (rt_Spec r)) of
          Some err \<Rightarrow> Some (ErrRouteConflict (AccessInvalid err))
        | None \<Rightarrow>
            (case rt_State (rt_Spec r) of
               RouteStateOther name \<Rightarrow>
                 if name = [] then None else Some (ErrRouteConflict (InvalidRouteState name))
             | _ \<Rightarrow> None))"

text \<open>\<^verbatim>\<open>reflect.DeepEqual\<close> on two routes: maps are equal when both are \<^verbatim>\<open>nil\<close>, or neither is and
  they hold the same entries.\<close>

definition same_components ::
    "(string, component_route) gomap option \<Rightarrow> (string, component_route) gomap option \<Rightarrow> bool" where
  "same_components a b =
     (case (a, b) of
        (None, None) \<Rightarrow> True
      | (Some m, Some n) \<Rightarrow> length m = length n \<and> list_all (\<lambda>(k, v). gm_get n k = Some v) m
      | _ \<Rightarrow> False)"

definition DeepEqual :: "route \<Rightarrow> route \<Rightarrow> bool" where
  "DeepEqual a b \<longleftrightarrow> rt_Key a = rt_Key b \<and> rt_Namespace (rt_Spec a) = rt_Namespace (rt_Spec b) \<and>
     rt_FastletPodUID (rt_Spec a) = rt_FastletPodUID (rt_Spec b) \<and>
     rt_AssignmentAttempt (rt_Spec a) = rt_AssignmentAttempt (rt_Spec b) \<and>
     rt_Access (rt_Spec a) = rt_Access (rt_Spec b) \<and> rt_State (rt_Spec a) = rt_State (rt_Spec b) \<and>
     same_components (rt_Components (rt_Spec a)) (rt_Components (rt_Spec b))"

section \<open>Events and watchers\<close>

datatype event_type = EventApplied | EventDeleted | EventDraining

record event =
  ev_Revision :: "64 word"
  ev_Type :: event_type
  ev_Key :: route_key
  ev_Spec :: "route_spec option"

record snapshot =
  sn_Revision :: "64 word"
  sn_Routes :: "route list"

text \<open>A watcher's channel holds at most 64 events. A channel is in the store's watcher map exactly
  while it is open: the store deletes and closes it in one step. Events buffered before the close can
  still be received.\<close>

record watch_chan =
  ch_buffer :: "event list"
  ch_open :: bool

definition watch_capacity :: nat where
  "watch_capacity = 64"

record store =
  st_active :: "(string, route) gomap"
  st_highWater :: "(string, int) gomap"
  st_revision :: "64 word"
  st_nextWatcher :: "64 word"
  st_watchers :: "(64 word, watch_chan) gomap"

definition NewStore :: store where
  "NewStore = \<lparr>st_active = [], st_highWater = [], st_revision = 0, st_nextWatcher = 0, st_watchers = []\<rparr>"

definition high_water :: "store \<Rightarrow> string \<Rightarrow> int" where
  "high_water s uid = (case gm_get (st_highWater s) uid of None \<Rightarrow> 0 | Some g \<Rightarrow> g)"

definition loadRoute :: "store \<Rightarrow> string \<Rightarrow> route option" where
  "loadRoute s uid = gm_get (st_active s) uid"

definition storeRouteLocked :: "route \<Rightarrow> store \<Rightarrow> store" where
  "storeRouteLocked r s = s\<lparr>st_active := gm_put (rt_uid r) r (st_active s)\<rparr>"

definition send_event :: "event \<Rightarrow> watch_chan \<Rightarrow> watch_chan" where
  "send_event e c =
     (if \<not> ch_open c then c
      else if length (ch_buffer c) < watch_capacity then c\<lparr>ch_buffer := ch_buffer c @ [e]\<rparr>
      else c\<lparr>ch_open := False\<rparr>)"

definition publishLocked :: "event \<Rightarrow> store \<Rightarrow> store" where
  "publishLocked e s = s\<lparr>st_watchers := gm_each (\<lambda>_ c. Some (send_event e c)) (st_watchers s)\<rparr>"

section \<open>Operations\<close>

text \<open>The transition that all three mutations share: the next revision and its event.\<close>

definition commit :: "event_type \<Rightarrow> route_key \<Rightarrow> route_spec option \<Rightarrow> store \<Rightarrow> (route_error + 64 word) \<times> store" where
  "commit kind key spec s =
     (let s = s\<lparr>st_revision := st_revision s + 1\<rparr>
      in (Inr (st_revision s),
          publishLocked \<lparr>ev_Revision = st_revision s, ev_Type = kind, ev_Key = key, ev_Spec = spec\<rparr> s))"

definition default_state :: "route \<Rightarrow> route" where
  "default_state r =
     (if rt_State (rt_Spec r) = RouteStateOther [] then r\<lparr>rt_Spec := (rt_Spec r)\<lparr>rt_State := RouteReady\<rparr>\<rparr> else r)"

definition Apply :: "route \<Rightarrow> store \<Rightarrow> (route_error + 64 word) \<times> store" where
  "Apply r s =
     (let r = default_state r
      in case Route_validate r of
          Some err \<Rightarrow> (Inl err, s)
        | None \<Rightarrow>
            let high = high_water s (rt_uid r)
            in if rt_gen r < high then (Inl ErrRouteStale, s)
            else case (case loadRoute s (rt_uid r) of
                  None \<Rightarrow> None | Some existing \<Rightarrow> if rt_gen r = rt_gen existing then Some existing else None) of
                Some existing \<Rightarrow>
                  if DeepEqual existing r then (Inr (st_revision s), s) else (Inl (ErrRouteConflict ConflictPlain), s)
              | None \<Rightarrow>
                  if rt_gen r = high \<and> high \<noteq> 0 then (Inl ErrRouteStale, s)
                  else let s = s\<lparr>st_highWater := gm_put (rt_uid r) (rt_gen r) (st_highWater s)\<rparr>
                       in commit EventApplied (rt_Key r) (Some (rt_Spec r)) (storeRouteLocked r s))"

definition MarkDraining :: "string \<Rightarrow> int \<Rightarrow> store \<Rightarrow> (route_error + 64 word) \<times> store" where
  "MarkDraining uid generation s =
     (case loadRoute s uid of
        None \<Rightarrow> if generation < high_water s uid then (Inl ErrRouteStale, s) else (Inl ErrRouteNotFound, s)
      | Some r \<Rightarrow>
          if generation < rt_gen r then (Inl ErrRouteStale, s)
          else if generation > rt_gen r then (Inl (ErrRouteConflict ConflictPlain), s)
          else if rt_State (rt_Spec r) = RouteDraining then (Inr (st_revision s), s)
          else let r = r\<lparr>rt_Spec := (rt_Spec r)\<lparr>rt_State := RouteDraining\<rparr>\<rparr>
               in commit EventDraining (rt_Key r) (Some (rt_Spec r)) (storeRouteLocked r s))"

definition Delete :: "string \<Rightarrow> int \<Rightarrow> store \<Rightarrow> (route_error + 64 word) \<times> store" where
  "Delete uid generation s =
     (if uid = [] \<or> generation \<le> 0 then (Inl (ErrRouteConflict ConflictPlain), s)
      else let high = high_water s uid
      in if generation < high then (Inl ErrRouteStale, s)
      else if generation = high \<and> gm_get (st_active s) uid = None then (Inr (st_revision s), s)
      else commit EventDeleted \<lparr>rt_SandboxUID = uid, rt_RouteGeneration = generation\<rparr> None
             (s\<lparr>st_highWater := gm_put uid generation (st_highWater s), st_active := gm_del uid (st_active s)\<rparr>))"

definition Lookup :: "string \<Rightarrow> store \<Rightarrow> route_error + route" where
  "Lookup uid s =
     (case loadRoute s uid of
        None \<Rightarrow> Inl ErrRouteNotFound
      | Some r \<Rightarrow> if rt_State (rt_Spec r) = RouteDraining then Inl ErrRouteDraining else Inr r)"

definition Store_Snapshot :: "store \<Rightarrow> snapshot" where
  "Store_Snapshot s =
     \<lparr>sn_Revision = st_revision s, sn_Routes = sort_slice (\<lambda>a b. rt_uid a < rt_uid b) (gm_vals (st_active s))\<rparr>"

text \<open>\<^verbatim>\<open>Subscribe\<close> returns the watcher's number, which stands for its channel and its cancel function.\<close>

definition Subscribe :: "store \<Rightarrow> 64 word \<times> store" where
  "Subscribe s =
     (let n = st_nextWatcher s + 1
      in (n, s\<lparr>st_nextWatcher := n, st_watchers := gm_put n \<lparr>ch_buffer = [], ch_open = True\<rparr> (st_watchers s)\<rparr>))"

definition cancel_watch :: "64 word \<Rightarrow> store \<Rightarrow> store" where
  "cancel_watch n s =
     s\<lparr>st_watchers := gm_each (\<lambda>k c. Some (if k = n then c\<lparr>ch_open := False\<rparr> else c)) (st_watchers s)\<rparr>"

text \<open>A receive from the watcher's channel, by \<^verbatim>\<open>watchRoutes\<close>.\<close>

definition receive_event :: "64 word \<Rightarrow> store \<Rightarrow> event option \<times> store" where
  "receive_event n s =
     (case gm_get (st_watchers s) n of
        None \<Rightarrow> (None, s)
      | Some c \<Rightarrow> (case ch_buffer c of [] \<Rightarrow> (None, s)
          | e # es \<Rightarrow> (Some e, s\<lparr>st_watchers := gm_put n (c\<lparr>ch_buffer := es\<rparr>) (st_watchers s)\<rparr>)))"

section \<open>Mutations as events\<close>

text \<open>What an event does to the active routes. Each mutation either changes nothing or performs exactly
  the event it publishes.\<close>

definition apply_event :: "event \<Rightarrow> (string, route) gomap \<Rightarrow> (string, route) gomap" where
  "apply_event e m =
     (case ev_Spec e of
        None \<Rightarrow> gm_del (rt_SandboxUID (ev_Key e)) m
      | Some spec \<Rightarrow> gm_put (rt_SandboxUID (ev_Key e)) \<lparr>rt_Key = ev_Key e, rt_Spec = spec\<rparr> m)"

definition perform :: "event \<Rightarrow> store \<Rightarrow> store" where
  "perform e s = publishLocked e
     (s\<lparr>st_highWater := gm_put (rt_SandboxUID (ev_Key e)) (rt_RouteGeneration (ev_Key e)) (st_highWater s),
        st_active := apply_event e (st_active s), st_revision := st_revision s + 1\<rparr>)"

lemma perform_simps [simp]:
  "st_active (perform e s) = apply_event e (st_active s)"
  "st_revision (perform e s) = st_revision s + 1"
  "st_highWater (perform e s) = gm_put (rt_SandboxUID (ev_Key e)) (rt_RouteGeneration (ev_Key e)) (st_highWater s)"
  "st_nextWatcher (perform e s) = st_nextWatcher s"
  "st_watchers (perform e s) = gm_each (\<lambda>_ c. Some (send_event e c)) (st_watchers s)"
  by (simp_all add: perform_def publishLocked_def)

lemma high_water_perform [simp]:
  "high_water (perform e s) uid =
     (if uid = rt_SandboxUID (ev_Key e) then rt_RouteGeneration (ev_Key e) else high_water s uid)"
  by (simp add: high_water_def)

definition route_wf :: "store \<Rightarrow> string \<Rightarrow> route \<Rightarrow> bool" where
  "route_wf s uid r \<longleftrightarrow> rt_uid r = uid \<and> rt_gen r = high_water s uid \<and> Route_validate r = None \<and>
     (rt_State (rt_Spec r) = RouteReady \<or> rt_State (rt_Spec r) = RouteDraining)"

definition chan_wf :: "watch_chan \<Rightarrow> bool" where
  "chan_wf c \<longleftrightarrow> length (ch_buffer c) \<le> watch_capacity"

definition store_wf :: "store \<Rightarrow> bool" where
  "store_wf s \<longleftrightarrow> gm_wf (st_active s) \<and> gm_wf (st_highWater s) \<and> gm_wf (st_watchers s) \<and>
     (\<forall>uid r. loadRoute s uid = Some r \<longrightarrow> route_wf s uid r) \<and> (\<forall>uid. 0 \<le> high_water s uid) \<and>
     gm_all (\<lambda>_. chan_wf) (st_watchers s)"

lemma store_wf_route: "store_wf s \<Longrightarrow> loadRoute s uid = Some r \<Longrightarrow> route_wf s uid r"
  by (simp add: store_wf_def)

lemma Route_validate_gen: "Route_validate r = None \<Longrightarrow> 0 < rt_gen r \<and> rt_uid r \<noteq> []"
  by (auto simp: Route_validate_def split: if_splits)

lemma default_state_simps [simp]: "rt_Key (default_state r) = rt_Key r"
  by (simp add: default_state_def)

lemma validated_state:
  "Route_validate (default_state r) = None \<Longrightarrow>
     rt_State (rt_Spec (default_state r)) = RouteReady \<or> rt_State (rt_Spec (default_state r)) = RouteDraining"
  by (auto simp: Route_validate_def default_state_def split: if_splits option.splits route_state.splits)

lemma route_eta [simp]:
  "\<lparr>rt_Key = rt_Key r, rt_Spec = x\<rparr> = r\<lparr>rt_Spec := x\<rparr>"
  "r\<lparr>rt_Spec := rt_Spec (default_state r)\<rparr> = default_state r"
  by (simp_all add: default_state_def)

text \<open>The three mutations, each as one of two outcomes.\<close>

lemma Apply_outcome:
  assumes "store_wf s"
  obtains (same) res where "Apply r s = (res, s)"
      "\<And>v. res = Inr v \<Longrightarrow> v = st_revision s \<and> (\<exists>e. loadRoute s (rt_uid r) = Some e \<and> DeepEqual e (default_state r))"
  | (changed) spec where "Apply r s = (Inr (st_revision s + 1), perform \<lparr>ev_Revision = st_revision s + 1,
        ev_Type = EventApplied, ev_Key = rt_Key r, ev_Spec = Some spec\<rparr> s)"
      "spec = rt_Spec (default_state r)" "Route_validate (default_state r) = None" "high_water s (rt_uid r) < rt_gen r"
proof (cases "Route_validate (default_state r)")
  case (Some err)
  then show ?thesis by (intro same[of "Inl err"]) (simp_all add: Apply_def Let_def)
next
  case None
  then have pos: "0 < rt_gen r" using Route_validate_gen[OF None] by simp
  consider (stale) "rt_gen r < high_water s (rt_uid r)"
    | (existing) e where "\<not> rt_gen r < high_water s (rt_uid r)" "loadRoute s (rt_uid r) = Some e" "rt_gen r = rt_gen e"
    | (tombstone) "rt_gen r = high_water s (rt_uid r)"
        "\<And>e. loadRoute s (rt_uid r) = Some e \<Longrightarrow> rt_gen r \<noteq> rt_gen e"
    | (new) "high_water s (rt_uid r) < rt_gen r" "\<And>e. loadRoute s (rt_uid r) = Some e \<Longrightarrow> rt_gen r \<noteq> rt_gen e"
    by (meson linorder_less_linear)
  then show ?thesis
  proof cases
    case stale
    then show ?thesis using None by (intro same[of "Inl ErrRouteStale"]) (simp_all add: Apply_def Let_def)
  next
    case (existing e)
    then show ?thesis using None
      by (intro same[of "if DeepEqual e (default_state r) then Inr (st_revision s) else Inl (ErrRouteConflict ConflictPlain)"])
        (auto simp: Apply_def Let_def split: if_splits)
  next
    case tombstone
    then show ?thesis using None pos
      by (intro same[of "Inl ErrRouteStale"]) (auto simp: Apply_def Let_def split: option.split)
  next
    case new
    have "Apply r s = commit EventApplied (rt_Key r) (Some (rt_Spec (default_state r)))
        (storeRouteLocked (default_state r) (s\<lparr>st_highWater := gm_put (rt_uid r) (rt_gen r) (st_highWater s)\<rparr>))"
      using new None by (auto simp: Apply_def Let_def split: option.split)
    then show ?thesis using new(1) None
      by (intro changed[of "rt_Spec (default_state r)"])
        (simp_all add: commit_def perform_def apply_event_def storeRouteLocked_def Let_def)
  qed
qed

lemma MarkDraining_outcome:
  assumes "store_wf s"
  obtains (same) res where "MarkDraining uid g s = (res, s)"
      "\<And>v. res = Inr v \<Longrightarrow> \<exists>r. loadRoute s uid = Some r \<and> rt_gen r = g \<and> rt_State (rt_Spec r) = RouteDraining"
  | (changed) r where "loadRoute s uid = Some r" "rt_gen r = g" "rt_State (rt_Spec r) = RouteReady"
      "MarkDraining uid g s = (Inr (st_revision s + 1), perform \<lparr>ev_Revision = st_revision s + 1,
         ev_Type = EventDraining, ev_Key = rt_Key r, ev_Spec = Some ((rt_Spec r)\<lparr>rt_State := RouteDraining\<rparr>)\<rparr> s)"
proof (cases "loadRoute s uid")
  case None
  then show ?thesis
    by (intro same[of "if g < high_water s uid then Inl ErrRouteStale else Inl ErrRouteNotFound"])
      (simp_all add: MarkDraining_def split: if_splits)
next
  case (Some r)
  then have wf: "rt_uid r = uid" "rt_gen r = high_water s uid"
      "rt_State (rt_Spec r) = RouteReady \<or> rt_State (rt_Spec r) = RouteDraining"
    using store_wf_route[OF assms Some] by (simp_all add: route_wf_def)
  show ?thesis
  proof (cases "rt_gen r = g \<and> rt_State (rt_Spec r) = RouteReady")
    case True
    have "0 < high_water s uid"
      using Some True wf(2) store_wf_route[OF assms Some] Route_validate_gen[of r] by (simp add: route_wf_def)
    then have "gm_put uid g (st_highWater s) = st_highWater s"
      using True wf(2) by (auto simp: high_water_def gm_put_same split: option.splits)
    then have hw: "s\<lparr>st_highWater := gm_put uid g (st_highWater s)\<rparr> = s" by simp
    have "MarkDraining uid g s = (Inr (st_revision s + 1), perform \<lparr>ev_Revision = st_revision s + 1,
         ev_Type = EventDraining, ev_Key = rt_Key r, ev_Spec = Some ((rt_Spec r)\<lparr>rt_State := RouteDraining\<rparr>)\<rparr> s)"
      using True Some wf(1) hw
      by (simp add: MarkDraining_def commit_def perform_def apply_event_def storeRouteLocked_def Let_def)
    then show ?thesis using changed True Some by blast
  next
    case False
    then show ?thesis using Some wf(3)
      by (intro same[of "if g < rt_gen r then Inl ErrRouteStale else if g > rt_gen r then
            Inl (ErrRouteConflict ConflictPlain) else Inr (st_revision s)"])
        (auto simp: MarkDraining_def split: if_splits)
  qed
qed

lemma Delete_outcome:
  obtains (same) res where "Delete uid g s = (res, s)"
      "\<And>v. res = Inr v \<Longrightarrow> loadRoute s uid = None \<and> g = high_water s uid"
  | (changed) "Delete uid g s = (Inr (st_revision s + 1), perform \<lparr>ev_Revision = st_revision s + 1,
        ev_Type = EventDeleted, ev_Key = \<lparr>rt_SandboxUID = uid, rt_RouteGeneration = g\<rparr>, ev_Spec = None\<rparr> s)"
      "high_water s uid \<le> g" "0 < g"
proof (cases "uid \<noteq> [] \<and> 0 < g \<and> high_water s uid \<le> g \<and> \<not> (g = high_water s uid \<and> loadRoute s uid = None)")
  case True
  then have "Delete uid g s = (Inr (st_revision s + 1), perform \<lparr>ev_Revision = st_revision s + 1,
        ev_Type = EventDeleted, ev_Key = \<lparr>rt_SandboxUID = uid, rt_RouteGeneration = g\<rparr>, ev_Spec = None\<rparr> s)"
    by (auto simp: Delete_def commit_def perform_def apply_event_def loadRoute_def Let_def)
  then show ?thesis using True changed by blast
next
  case False
  then show ?thesis
    by (intro same[of "if uid = [] \<or> g \<le> 0 then Inl (ErrRouteConflict ConflictPlain)
          else if g < high_water s uid then Inl ErrRouteStale else Inr (st_revision s)"])
      (auto simp: Delete_def loadRoute_def Let_def split: if_splits)
qed

section \<open>The invariant and reachable stores\<close>

lemma send_event_wf: "chan_wf c \<Longrightarrow> chan_wf (send_event e c)"
  by (simp add: chan_wf_def send_event_def)

lemma chans_each:
  "gm_all (\<lambda>_. chan_wf) m \<Longrightarrow> (\<And>k c. chan_wf c \<Longrightarrow> chan_wf (f k c)) \<Longrightarrow> gm_all (\<lambda>_. chan_wf) (gm_each (\<lambda>k c. Some (f k c)) m)"
  by (rule gm_each_all[where P = "\<lambda>_. chan_wf"]) auto

lemma perform_wf:
  assumes "store_wf s" "high_water s (rt_SandboxUID (ev_Key e)) \<le> rt_RouteGeneration (ev_Key e)"
    and "\<And>spec. ev_Spec e = Some spec \<Longrightarrow> Route_validate \<lparr>rt_Key = ev_Key e, rt_Spec = spec\<rparr> = None \<and>
      (rt_State spec = RouteReady \<or> rt_State spec = RouteDraining)"
  shows "store_wf (perform e s)"
proof -
  have "0 \<le> high_water (perform e s) uid" for uid
    using assms(1,2) by (auto simp: store_wf_def intro: order.trans)
  moreover have "gm_wf (apply_event e (st_active s))" using assms(1) by (simp add: store_wf_def apply_event_def split: option.split)
  moreover have "gm_all (\<lambda>_. chan_wf) (gm_each (\<lambda>_ c. Some (send_event e c)) (st_watchers s))"
    using assms(1) send_event_wf by (intro chans_each) (auto simp: store_wf_def)
  moreover have "route_wf (perform e s) uid r" if "loadRoute (perform e s) uid = Some r" for uid r
  proof (cases "uid = rt_SandboxUID (ev_Key e)")
    case True
    then show ?thesis using that assms(3)
      by (auto simp: loadRoute_def apply_event_def route_wf_def split: option.splits)
  next
    case False
    then have "loadRoute s uid = Some r" using that by (auto simp: loadRoute_def apply_event_def split: option.splits)
    then show ?thesis using store_wf_route[OF assms(1)] False by (simp add: route_wf_def)
  qed
  ultimately show ?thesis using assms(1) by (simp add: store_wf_def)
qed

lemma Apply_wf:
  assumes "store_wf s"
  shows "store_wf (snd (Apply r s))"
  using assms
proof (cases rule: Apply_outcome[OF assms, of r])
  case (2 spec)
  then show ?thesis using validated_state[of r] by (auto intro!: perform_wf[OF assms])
qed simp

lemma MarkDraining_wf:
  assumes "store_wf s"
  shows "store_wf (snd (MarkDraining uid g s))"
  using assms
proof (cases rule: MarkDraining_outcome[OF assms, of uid g])
  case (2 r)
  have "route_wf s uid r" using store_wf_route[OF assms 2(1)] .
  moreover have "Route_validate (r\<lparr>rt_Spec := (rt_Spec r)\<lparr>rt_State := RouteDraining\<rparr>\<rparr>) = Route_validate r"
    using 2(3) by (simp add: Route_validate_def split: option.split)
  ultimately show ?thesis using 2(4) by (auto simp: route_wf_def intro!: perform_wf[OF assms])
qed simp

lemma Delete_wf:
  assumes "store_wf s"
  shows "store_wf (snd (Delete uid g s))"
  by (cases rule: Delete_outcome[of uid g s]) (auto simp: assms intro!: perform_wf)

lemma watcher_ops_wf:
  assumes "store_wf s"
  shows "store_wf (snd (Subscribe s))" "store_wf (cancel_watch n s)" "store_wf (snd (receive_event n s))"
proof -
  have frame: "store_wf (s\<lparr>st_watchers := w\<rparr>)" "store_wf (s\<lparr>st_nextWatcher := k, st_watchers := w\<rparr>)"
    if "gm_wf w" "gm_all (\<lambda>_. chan_wf) w" for w k
    using assms that by (auto simp: store_wf_def loadRoute_def high_water_def route_wf_def)
  have w: "gm_wf (st_watchers s)" "gm_all (\<lambda>_. chan_wf) (st_watchers s)" using assms by (simp_all add: store_wf_def)
  show "store_wf (snd (Subscribe s))" using w by (auto simp: Subscribe_def Let_def chan_wf_def intro!: frame gm_all_put)
  show "store_wf (cancel_watch n s)" using w by (auto simp: cancel_watch_def chan_wf_def intro!: frame chans_each)
  show "store_wf (snd (receive_event n s))"
    using w assms gm_all_get[OF w(2), of n]
    by (auto simp: receive_event_def chan_wf_def split: option.split list.split intro!: frame gm_all_put)
qed

inductive store_step :: "store \<Rightarrow> store \<Rightarrow> bool" where
  apply_route: "store_step s (snd (Apply r s))"
| mark_draining: "store_step s (snd (MarkDraining uid g s))"
| delete_route: "store_step s (snd (Delete uid g s))"
| subscribe: "store_step s (snd (Subscribe s))"
| cancel: "store_step s (cancel_watch n s)"
| receive: "store_step s (snd (receive_event n s))"

definition store_reachable :: "store \<Rightarrow> bool" where
  "store_reachable s \<longleftrightarrow> store_step\<^sup>*\<^sup>* NewStore s"

lemma store_step_wf: "store_step s s' \<Longrightarrow> store_wf s \<Longrightarrow> store_wf s'"
  by (cases rule: store_step.cases) (auto simp: Apply_wf MarkDraining_wf Delete_wf watcher_ops_wf)

lemma NewStore_wf: "store_wf NewStore"
  by (simp add: store_wf_def NewStore_def loadRoute_def high_water_def)

lemma store_steps_wf: "store_step\<^sup>*\<^sup>* s s' \<Longrightarrow> store_wf s \<Longrightarrow> store_wf s'"
  by (induction rule: rtranclp_induct) (auto intro: store_step_wf)

lemma store_reachable_wf: "store_reachable s \<Longrightarrow> store_wf s"
  using store_steps_wf NewStore_wf by (auto simp: store_reachable_def)

text \<open>Every step leaves routes and tombstones alone or performs one event.\<close>

definition event_ok :: "store \<Rightarrow> event \<Rightarrow> bool" where
  "event_ok s e \<longleftrightarrow> ev_Revision e = st_revision s + 1 \<and>
     (let uid = rt_SandboxUID (ev_Key e); g = rt_RouteGeneration (ev_Key e)
      in case ev_Spec e of
           None \<Rightarrow> high_water s uid \<le> g
         | Some spec \<Rightarrow> high_water s uid < g \<or>
             (\<exists>r. loadRoute s uid = Some r \<and> rt_gen r = g \<and> g = high_water s uid \<and>
                spec = (rt_Spec r)\<lparr>rt_State := RouteDraining\<rparr>))"

lemma mutation_event:
  assumes "store_wf s"
  shows "snd (Apply r s) = s \<or> (\<exists>e. snd (Apply r s) = perform e s \<and> event_ok s e)"
    and "snd (MarkDraining uid g s) = s \<or> (\<exists>e. snd (MarkDraining uid g s) = perform e s \<and> event_ok s e)"
    and "snd (Delete uid g s) = s \<or> (\<exists>e. snd (Delete uid g s) = perform e s \<and> event_ok s e)"
proof -
  show "snd (Apply r s) = s \<or> (\<exists>e. snd (Apply r s) = perform e s \<and> event_ok s e)"
  proof (cases rule: Apply_outcome[OF assms, of r])
    case (2 spec)
    then show ?thesis by (intro disjI2 exI conjI) (auto simp: event_ok_def)
  qed simp
  show "snd (MarkDraining uid g s) = s \<or> (\<exists>e. snd (MarkDraining uid g s) = perform e s \<and> event_ok s e)"
  proof (cases rule: MarkDraining_outcome[OF assms, of uid g])
    case (2 r)
    have "route_wf s uid r" using store_wf_route[OF assms 2(1)] .
    then show ?thesis using 2 by (intro disjI2 exI conjI) (auto simp: event_ok_def route_wf_def)
  qed simp
  show "snd (Delete uid g s) = s \<or> (\<exists>e. snd (Delete uid g s) = perform e s \<and> event_ok s e)"
  proof (cases rule: Delete_outcome[of uid g s])
    case changed
    then show ?thesis by (intro disjI2 exI conjI) (auto simp: event_ok_def)
  qed simp
qed

lemma watcher_ops_frame:
  "st_active (snd (Subscribe s)) = st_active s" "st_highWater (snd (Subscribe s)) = st_highWater s"
  "st_revision (snd (Subscribe s)) = st_revision s"
  "st_active (cancel_watch n s) = st_active s" "st_highWater (cancel_watch n s) = st_highWater s"
  "st_revision (cancel_watch n s) = st_revision s"
  "st_active (snd (receive_event n s)) = st_active s" "st_highWater (snd (receive_event n s)) = st_highWater s"
  "st_revision (snd (receive_event n s)) = st_revision s"
  by (simp_all add: Subscribe_def cancel_watch_def receive_event_def Let_def split: option.split list.split)

lemma store_step_event:
  assumes "store_step s s'" "store_wf s"
  shows "(st_active s' = st_active s \<and> st_highWater s' = st_highWater s) \<or> (\<exists>e. s' = perform e s \<and> event_ok s e)"
  using assms(1)
proof cases
  case (apply_route r)
  then show ?thesis using mutation_event(1)[OF assms(2), of r] by auto
next
  case (mark_draining uid g)
  then show ?thesis using mutation_event(2)[OF assms(2), of uid g] by auto
next
  case (delete_route uid g)
  then show ?thesis using mutation_event(3)[OF assms(2), of uid g] by auto
qed (simp_all add: watcher_ops_frame)

text \<open>What stays true of a generation of one Sandbox once the tombstone has reached it.\<close>

definition settled :: "string \<Rightarrow> int \<Rightarrow> (route_spec \<Rightarrow> bool) \<Rightarrow> store \<Rightarrow> bool" where
  "settled uid g P s \<longleftrightarrow> g \<le> high_water s uid \<and>
     (\<forall>r. loadRoute s uid = Some r \<longrightarrow> rt_gen r = g \<longrightarrow> P (rt_Spec r))"

lemma settled_step:
  assumes "store_step s s'" "store_wf s" "settled uid g P s" "\<And>spec. P spec \<Longrightarrow> P (spec\<lparr>rt_State := RouteDraining\<rparr>)"
  shows "settled uid g P s'"
  using store_step_event[OF assms(1,2)]
proof (elim disjE exE conjE)
  assume "st_active s' = st_active s" "st_highWater s' = st_highWater s"
  then show ?thesis using assms(3) by (simp add: settled_def loadRoute_def high_water_def)
next
  fix e assume e: "s' = perform e s" "event_ok s e"
  then have grow: "rt_SandboxUID (ev_Key e) = uid \<longrightarrow> high_water s uid \<le> rt_RouteGeneration (ev_Key e)"
    by (auto simp: event_ok_def Let_def split: option.splits)
  show ?thesis
  proof (cases "rt_SandboxUID (ev_Key e) = uid")
    case True
    then show ?thesis using e assms(3,4) grow
      by (auto simp: settled_def loadRoute_def apply_event_def event_ok_def Let_def split: option.splits)
  next
    case False
    then show ?thesis using e assms(3) by (auto simp: settled_def loadRoute_def apply_event_def split: option.splits)
  qed
qed

lemma settled_steps:
  assumes "store_step\<^sup>*\<^sup>* s s'" "store_wf s" "settled uid g P s" "\<And>spec. P spec \<Longrightarrow> P (spec\<lparr>rt_State := RouteDraining\<rparr>)"
  shows "settled uid g P s' \<and> store_wf s'"
  using assms(1,2,3) by (induction rule: rtranclp_induct) (auto intro: settled_step store_step_wf assms(4))

section \<open>Properties\<close>

text \<open>C24: what the proxy looks up is current. In every reachable store a route that \<^verbatim>\<open>Lookup\<close> returns
  belongs to the Sandbox asked for, is ready, carries the newest generation the store has ever accepted
  for that Sandbox, is complete and has an address that is an IP address.\<close>

theorem Lookup_current:
  assumes "store_reachable s" "Lookup uid s = Inr r"
  shows "rt_uid r = uid \<and> rt_State (rt_Spec r) = RouteReady \<and> rt_gen r = high_water s uid \<and> 0 < rt_gen r \<and>
    rt_FastletPodUID (rt_Spec r) \<noteq> [] \<and> 0 < rt_AssignmentAttempt (rt_Spec r) \<and>
    ParseIP (ad_Address (rt_Access (rt_Spec r))) \<noteq> None"
proof -
  have load: "loadRoute s uid = Some r" and ready: "rt_State (rt_Spec r) \<noteq> RouteDraining"
    using assms(2) by (auto simp: Lookup_def split: option.splits if_splits)
  have wf: "route_wf s uid r" using store_wf_route[OF store_reachable_wf[OF assms(1)] load] .
  then have "Route_validate r = None" by (simp add: route_wf_def)
  then have "0 < rt_gen r" "rt_FastletPodUID (rt_Spec r) \<noteq> []" "0 < rt_AssignmentAttempt (rt_Spec r)"
      "ParseIP (ad_Address (rt_Access (rt_Spec r))) \<noteq> None"
    by (auto simp: Route_validate_def AccessDescriptor_Validate_def split: if_splits option.splits access_kind.splits)
  then show ?thesis using wf ready by (auto simp: route_wf_def)
qed

definition sample_route :: "string \<Rightarrow> int \<Rightarrow> route" where
  "sample_route uid g = \<lparr>rt_Key = \<lparr>rt_SandboxUID = uid, rt_RouteGeneration = g\<rparr>,
     rt_Spec = \<lparr>rt_Namespace = ''default'', rt_FastletPodUID = ''pod'', rt_AssignmentAttempt = 1,
       rt_Access = \<lparr>ad_Kind = AccessKindDirectIP, ad_Address = ''172.30.0.2'', ad_NetNSPath = []\<rparr>,
       rt_State = RouteStateOther [], rt_Components = None\<rparr>\<rparr>"

definition sample_store :: store where
  "sample_store = snd (Apply (sample_route ''sb'' 3) NewStore)"

lemma sample_store_reachable: "store_reachable sample_store"
  unfolding store_reachable_def sample_store_def by (rule r_into_rtranclp) (rule store_step.apply_route)

theorem Lookup_current_witness:
  "\<exists>r. Lookup ''sb'' sample_store = Inr r \<and> rt_gen r = 3 \<and> high_water sample_store ''sb'' = 3"
proof -
  have "(case Lookup ''sb'' sample_store of Inl _ \<Rightarrow> False | Inr r \<Rightarrow> rt_gen r = 3)" by code_simp
  then obtain r where r: "Lookup ''sb'' sample_store = Inr r" "rt_gen r = 3" by (auto split: sum.splits)
  then show ?thesis using Lookup_current[OF sample_store_reachable r(1)] by auto
qed

lemma deleted_settled:
  assumes "store_reachable s" "Delete uid g s = (Inr v, s1)" "store_step\<^sup>*\<^sup>* s1 s2"
  shows "settled uid g (\<lambda>_. False) s2 \<and> store_wf s2"
proof -
  have wf: "store_wf s" using store_reachable_wf[OF assms(1)] .
  have "settled uid g (\<lambda>_. False) s1"
  proof (cases rule: Delete_outcome[of uid g s])
    case (same res)
    then show ?thesis using assms(2) by (auto simp: settled_def)
  next
    case changed
    then have "s1 = perform \<lparr>ev_Revision = st_revision s + 1, ev_Type = EventDeleted,
        ev_Key = \<lparr>rt_SandboxUID = uid, rt_RouteGeneration = g\<rparr>, ev_Spec = None\<rparr> s"
      using assms(2) by simp
    then show ?thesis by (simp add: settled_def loadRoute_def apply_event_def)
  qed
  moreover have "store_wf s1" using Delete_wf[OF wf, of uid g] assms(2) by simp
  ultimately show ?thesis using settled_steps[OF assms(3)] by blast
qed

lemma deleted_generation_gone:
  assumes "store_reachable s" "Delete uid g s = (Inr v, s1)" "store_step\<^sup>*\<^sup>* s1 s2" "loadRoute s2 uid = Some r"
  shows "g < rt_gen r"
  using deleted_settled[OF assms(1-3)] assms(4) store_wf_route[of s2 uid r] by (fastforce simp: settled_def route_wf_def)

text \<open>C4: a deleted route never comes back. Once \<^verbatim>\<open>Delete\<close> has succeeded for a generation of a Sandbox,
  then after any further calls on the store, an active route of that Sandbox has a newer generation,
  and every delayed \<^verbatim>\<open>Apply\<close> of that generation or an older one is refused and changes nothing.\<close>

theorem deleted_route_never_returns:
  assumes "store_reachable s" "Delete uid g s = (Inr v, s1)" "store_step\<^sup>*\<^sup>* s1 s2"
  shows "(\<forall>r. loadRoute s2 uid = Some r \<longrightarrow> g < rt_gen r) \<and>
    (\<forall>r. rt_uid r = uid \<and> rt_gen r \<le> g \<longrightarrow> (\<exists>err. Apply r s2 = (Inl err, s2)))"
proof -
  note st = deleted_settled[OF assms, THEN conjunct1] and wf2 = deleted_settled[OF assms, THEN conjunct2]
  note newer = deleted_generation_gone[OF assms]
  have "\<exists>err. Apply r s2 = (Inl err, s2)" if r: "rt_uid r = uid" "rt_gen r \<le> g" for r
  proof (cases rule: Apply_outcome[OF wf2, of r])
    case (1 res)
    show ?thesis
    proof (cases res)
      case (Inr v)
      then obtain e where "loadRoute s2 uid = Some e" "rt_gen e = rt_gen r" using 1 r by (auto simp: DeepEqual_def)
      then show ?thesis using newer[of e] r by simp
    qed (use 1 in blast)
  next
    case (2 spec)
    then show ?thesis using st r by (simp add: settled_def)
  qed
  then show ?thesis using newer by blast
qed

theorem deleted_route_never_returns_witness:
  "let s = snd (Delete ''sb'' 3 sample_store) in \<exists>err. Apply (sample_route ''sb'' 3) s = (Inl err, s)"
proof -
  have "fst (Delete ''sb'' 3 sample_store) = Inr 2" by code_simp
  then have "Delete ''sb'' 3 sample_store = (Inr 2, snd (Delete ''sb'' 3 sample_store))" by (metis prod.collapse)
  from deleted_route_never_returns[OF sample_store_reachable this rtranclp.rtrancl_refl]
  show ?thesis by (simp add: sample_route_def Let_def)
qed

definition same_target :: "route_spec \<Rightarrow> route_spec \<Rightarrow> bool" where
  "same_target a b \<longleftrightarrow> rt_Namespace a = rt_Namespace b \<and> rt_FastletPodUID a = rt_FastletPodUID b \<and>
     rt_AssignmentAttempt a = rt_AssignmentAttempt b \<and> rt_Access a = rt_Access b \<and>
     same_components (rt_Components a) (rt_Components b)"

text \<open>C23: a generation is assigned once. When \<^verbatim>\<open>Apply\<close> has installed a route, then whatever happens in
  between, a later \<^verbatim>\<open>Apply\<close> for the same Sandbox and generation succeeds only with the same value, the
  draining mark aside: no two different targets are ever accepted under one generation.\<close>

theorem generation_assigned_once:
  assumes "store_reachable s" "Apply r s = (Inr (st_revision s + 1), s1)" "store_step\<^sup>*\<^sup>* s1 s2"
    and "Apply r' s2 = (Inr v, s3)" "rt_Key r' = rt_Key r"
  shows "same_target (rt_Spec r) (rt_Spec r')"
proof -
  let ?P = "\<lambda>a. rt_Namespace a = rt_Namespace (rt_Spec r) \<and> rt_FastletPodUID a = rt_FastletPodUID (rt_Spec r) \<and>
     rt_AssignmentAttempt a = rt_AssignmentAttempt (rt_Spec r) \<and> rt_Access a = rt_Access (rt_Spec r) \<and>
     rt_Components a = rt_Components (rt_Spec r)"
  have wf: "store_wf s" using store_reachable_wf[OF assms(1)] .
  have P: "?P (rt_Spec (default_state r))" by (simp add: default_state_def)
  have "settled (rt_uid r) (rt_gen r) ?P s1"
  proof (cases rule: Apply_outcome[OF wf, of r])
    case (1 res)
    then show ?thesis using assms(2) by auto
  next
    case (2 spec)
    then show ?thesis using assms(2) P by (auto simp: settled_def loadRoute_def apply_event_def)
  qed
  moreover have wf1: "store_wf s1" using Apply_wf[OF wf, of r] assms(2) by simp
  ultimately have st: "settled (rt_uid r) (rt_gen r) ?P s2" and wf2: "store_wf s2"
    using settled_steps[OF assms(3) wf1] by simp_all
  show ?thesis
  proof (cases rule: Apply_outcome[OF wf2, of r'])
    case (1 res)
    then obtain e where e: "loadRoute s2 (rt_uid r') = Some e" "DeepEqual e (default_state r')" using assms(4) by auto
    have "rt_Components (rt_Spec (default_state r')) = rt_Components (rt_Spec r')" by (simp add: default_state_def)
    moreover have "?P (rt_Spec e)" using st assms(5) e by (auto simp: settled_def DeepEqual_def)
    ultimately show ?thesis using e(2) by (auto simp: DeepEqual_def same_target_def default_state_def split: if_splits)
  next
    case (2 spec)
    then show ?thesis using st assms(5) by (simp add: settled_def)
  qed
qed

theorem generation_assigned_once_witness:
  "Apply (sample_route ''sb'' 3) sample_store = (Inr 1, sample_store) \<and>
   same_target (rt_Spec (sample_route ''sb'' 3)) (rt_Spec (sample_route ''sb'' 3))"
proof -
  have "fst (Apply (sample_route ''sb'' 3) NewStore) = Inr 1" by code_simp
  then have first: "Apply (sample_route ''sb'' 3) NewStore = (Inr (st_revision NewStore + 1), sample_store)"
    unfolding sample_store_def by (metis NewStore_def add_0 prod.collapse store.select_convs(3))
  have start: "store_reachable NewStore" by (simp add: store_reachable_def)
  have "Apply (sample_route ''sb'' 3) sample_store = (Inr 1, sample_store)" by code_simp
  then show ?thesis using generation_assigned_once[OF start first rtranclp.rtrancl_refl] by blast
qed

section \<open>Watchers\<close>

text \<open>The life of one watcher: the routes and the revision when it subscribed, the events it has received
  and the store now. Any other calls may happen in between.\<close>

inductive watching :: "64 word \<Rightarrow> (string, route) gomap \<Rightarrow> 64 word \<Rightarrow> event list \<Rightarrow> store \<Rightarrow> bool" where
  start: "store_wf s \<Longrightarrow> Subscribe s = (n, s') \<Longrightarrow> watching n (st_active s) (st_revision s) [] s'"
| mutate: "watching n a v got s \<Longrightarrow>
    s' \<in> {snd (Apply r s), snd (MarkDraining uid g s), snd (Delete uid g s)} \<Longrightarrow> watching n a v got s'"
| receive_own: "watching n a v got s \<Longrightarrow> receive_event n s = (Some e, s') \<Longrightarrow> watching n a v (got @ [e]) s'"
| receive_other: "watching n a v got s \<Longrightarrow> m \<noteq> n \<Longrightarrow> watching n a v got (snd (receive_event m s))"
| subscribe_other: "watching n a v got s \<Longrightarrow> Subscribe s = (m, s') \<Longrightarrow> m \<noteq> n \<Longrightarrow> watching n a v got s'"
| cancel_other: "watching n a v got s \<Longrightarrow> m \<noteq> n \<Longrightarrow> watching n a v got (cancel_watch m s)"

definition revisions :: "64 word \<Rightarrow> event list \<Rightarrow> bool" where
  "revisions v es \<longleftrightarrow> (\<forall>i < length es. ev_Revision (es ! i) = v + of_nat (Suc i))"

text \<open>An open channel holds, after what was received, exactly the events since the subscription.\<close>

definition caught_up :: "64 word \<Rightarrow> (string, route) gomap \<Rightarrow> 64 word \<Rightarrow> event list \<Rightarrow> store \<Rightarrow> bool" where
  "caught_up n a v got s \<longleftrightarrow> (\<exists>c. gm_get (st_watchers s) n = Some c \<and>
     (ch_open c \<longrightarrow> fold apply_event (got @ ch_buffer c) a = st_active s \<and> revisions v (got @ ch_buffer c) \<and>
        st_revision s = v + of_nat (length (got @ ch_buffer c))))"

lemma revisions_snoc: "revisions v es \<Longrightarrow> ev_Revision e = v + of_nat (Suc (length es)) \<Longrightarrow> revisions v (es @ [e])"
  by (auto simp: revisions_def nth_append less_Suc_eq)

lemma caught_up_perform:
  assumes "caught_up n a v got s" "ev_Revision e = st_revision s + 1" "store_wf s"
  shows "caught_up n a v got (perform e s)"
proof -
  have wf: "gm_wf (st_watchers s)" using assms(3) by (simp add: store_wf_def)
  obtain c where c: "gm_get (st_watchers s) n = Some c"
      "ch_open c \<longrightarrow> fold apply_event (got @ ch_buffer c) a = st_active s \<and> revisions v (got @ ch_buffer c) \<and>
        st_revision s = v + of_nat (length (got @ ch_buffer c))"
    using assms(1) by (auto simp: caught_up_def)
  have "ch_open (send_event e c) \<Longrightarrow> ch_open c \<and> ch_buffer (send_event e c) = ch_buffer c @ [e]"
    by (auto simp: send_event_def split: if_splits)
  moreover have "ch_open c \<Longrightarrow> revisions v ((got @ ch_buffer c) @ [e])"
    using c(2) assms(2) by (intro revisions_snoc) (simp_all add: algebra_simps)
  ultimately show ?thesis using c wf by (auto simp: caught_up_def algebra_simps)
qed

lemma caught_up_frame:
  assumes "caught_up n a v got s" "st_active s' = st_active s" "st_revision s' = st_revision s"
    "gm_get (st_watchers s') n = gm_get (st_watchers s) n"
  shows "caught_up n a v got s'"
  using assms by (simp add: caught_up_def)

lemma watching_caught_up: "watching n a v got s \<Longrightarrow> store_wf s \<and> caught_up n a v got s"
proof (induction rule: watching.induct)
  case (start s n s')
  then have "store_wf s'" using watcher_ops_wf(1)[OF start(1)] by simp
  then show ?case using start(2) by (auto simp: Subscribe_def caught_up_def revisions_def Let_def)
next
  case (mutate n a v got s s' r uid g)
  then have wf: "store_wf s" and cu: "caught_up n a v got s" by blast+
  have "store_wf s'" using mutate(2) Apply_wf[OF wf] MarkDraining_wf[OF wf] Delete_wf[OF wf] by auto
  moreover have "s' = s \<or> (\<exists>e. s' = perform e s \<and> event_ok s e)"
    using mutate(2) mutation_event[OF wf] by (metis empty_iff insert_iff)
  ultimately show ?case using cu wf caught_up_perform by (auto simp: event_ok_def)
next
  case (receive_own n a v got s e s')
  then have "store_wf s'" using watcher_ops_wf(3)[of s n] by simp
  then show ?case using receive_own
    by (auto simp: receive_event_def caught_up_def split: option.splits list.splits)
next
  case (receive_other n a v got s m)
  moreover have "gm_get (st_watchers (snd (receive_event m s))) n = gm_get (st_watchers s) n"
    using receive_other(2) by (auto simp: receive_event_def split: option.splits list.splits)
  ultimately show ?case using watcher_ops_wf(3)[of s m] caught_up_frame watcher_ops_frame by metis
next
  case (subscribe_other n a v got s m s')
  moreover have "gm_get (st_watchers s') n = gm_get (st_watchers s) n"
    using subscribe_other(2,3) by (auto simp: Subscribe_def Let_def)
  ultimately show ?case using watcher_ops_wf(1)[of s] caught_up_frame watcher_ops_frame(1-3)[of s] by (metis snd_conv)
next
  case (cancel_other n a v got s m)
  moreover have "gm_get (st_watchers (cancel_watch m s)) n = gm_get (st_watchers s) n"
    using cancel_other(2,3) by (simp add: cancel_watch_def store_wf_def split: option.split)
  ultimately show ?case using watcher_ops_wf(2)[of s m] caught_up_frame watcher_ops_frame by metis
qed

text \<open>C25: a watcher that is not cut off misses nothing. For every watcher, whatever calls and receives
  happened since it subscribed, as long as its channel is open, the events it has received followed by
  those still buffered carry consecutive revisions from the subscription up to the store's current one,
  and replaying them on the routes of the subscription gives exactly the store's active routes.\<close>

theorem watch_replays_store:
  assumes "watching n a v got s" "gm_get (st_watchers s) n = Some c" "ch_open c"
  shows "fold apply_event (got @ ch_buffer c) a = st_active s \<and>
    (\<forall>i < length (got @ ch_buffer c). ev_Revision ((got @ ch_buffer c) ! i) = v + of_nat (Suc i)) \<and>
    st_revision s = v + of_nat (length (got @ ch_buffer c))"
  using watching_caught_up[OF assms(1)] assms(2,3) by (auto simp: caught_up_def revisions_def)

theorem watch_replays_store_witness:
  "\<exists>c. gm_get (st_watchers (snd (Delete ''sb'' 3 (snd (Subscribe sample_store))))) 1 = Some c \<and>
     fold apply_event (ch_buffer c) (st_active sample_store) =
       st_active (snd (Delete ''sb'' 3 (snd (Subscribe sample_store))))"
proof -
  let ?s = "snd (Delete ''sb'' 3 (snd (Subscribe sample_store)))"
  have sub: "Subscribe sample_store = (1, snd (Subscribe sample_store))" by code_simp
  have w: "watching 1 (st_active sample_store) (st_revision sample_store) [] ?s"
    by (rule watching.mutate[OF watching.start[OF store_reachable_wf[OF sample_store_reachable] sub], of _ undefined "''sb''" 3]) simp
  have "map_option ch_open (gm_get (st_watchers ?s) 1) = Some True" by code_simp
  then obtain c where "gm_get (st_watchers ?s) 1 = Some c" "ch_open c" by auto
  with watch_replays_store[OF w this] show ?thesis by auto
qed

end
