(* ===== verification/Route_Publisher.thy ===== *)
theory Route_Publisher
  imports Route_Store
begin

text \<open>
  The control server of the Fastlet Proxy and its client (\<^verbatim>\<open>control.go\<close>), and the publisher through
  which a Fastlet installs, removes and reconciles its routes (\<^verbatim>\<open>publisher.go\<close>). Every call may be lost
  on its way to the server or on its way back.
\<close>

section \<open>Control server\<close>

datatype control_error = RouteFailure route_error | DecodeFailure

datatype control_reply = ReplyRevision "64 word" | ReplyRoutes snapshot | ReplyError int

text \<open>\<^verbatim>\<open>writeControlError\<close>: the HTTP status of an error.\<close>

definition writeControlError :: "control_error \<Rightarrow> control_reply" where
  "writeControlError err = ReplyError
     (case err of
        RouteFailure ErrRouteNotFound \<Rightarrow> 404
      | RouteFailure ErrRouteStale \<Rightarrow> 409
      | RouteFailure (ErrRouteConflict _) \<Rightarrow> 409
      | _ \<Rightarrow> 400)"

text \<open>\<^verbatim>\<open>value\<close> is the query parameter \<^verbatim>\<open>routeGeneration\<close>, empty when it is missing.\<close>

definition parseGeneration :: "string \<Rightarrow> route_error + int" where
  "parseGeneration value =
     (case parse_int64 value of
        None \<Rightarrow> Inl (ErrRouteConflict ConflictPlain)
      | Some g \<Rightarrow> if g \<le> 0 then Inl (ErrRouteConflict ConflictPlain) else Inr g)"

definition reply :: "(route_error + 64 word) \<times> store \<Rightarrow> control_reply \<times> store" where
  "reply res = (case res of
     (Inl err, s) \<Rightarrow> (writeControlError (RouteFailure err), s)
   | (Inr v, s) \<Rightarrow> (ReplyRevision v, s))"

text \<open>\<^verbatim>\<open>spec\<close> is the decoded body, \<^verbatim>\<open>None\<close> when it does not decode.\<close>

definition applyRoute :: "string \<Rightarrow> string \<Rightarrow> route_spec option \<Rightarrow> store \<Rightarrow> control_reply \<times> store" where
  "applyRoute uid value spec s =
     (case parseGeneration value of
        Inl err \<Rightarrow> (writeControlError (RouteFailure err), s)
      | Inr g \<Rightarrow>
          (case spec of
             None \<Rightarrow> (writeControlError DecodeFailure, s)
           | Some spec \<Rightarrow>
               reply (Apply \<lparr>rt_Key = \<lparr>rt_SandboxUID = uid, rt_RouteGeneration = g\<rparr>, rt_Spec = spec\<rparr> s)))"

definition deleteRoute :: "string \<Rightarrow> string \<Rightarrow> store \<Rightarrow> control_reply \<times> store" where
  "deleteRoute uid value s =
     (case parseGeneration value of
        Inl err \<Rightarrow> (writeControlError (RouteFailure err), s)
      | Inr g \<Rightarrow> reply (Delete uid g s))"

definition markDraining :: "string \<Rightarrow> string \<Rightarrow> store \<Rightarrow> control_reply \<times> store" where
  "markDraining uid value s =
     (case parseGeneration value of
        Inl err \<Rightarrow> (writeControlError (RouteFailure err), s)
      | Inr g \<Rightarrow> reply (MarkDraining uid g s))"

text \<open>JSON omits an empty component map, so it arrives as \<^verbatim>\<open>nil\<close>; the other fields arrive unchanged.\<close>

definition wire_spec :: "route_spec \<Rightarrow> route_spec" where
  "wire_spec spec = (if rt_Components spec = Some [] then spec\<lparr>rt_Components := None\<rparr> else spec)"

definition snapshotRoutes :: "store \<Rightarrow> control_reply \<times> store" where
  "snapshotRoutes s = (let snap = Store_Snapshot s
     in (ReplyRoutes (snap\<lparr>sn_Routes := map (\<lambda>r. r\<lparr>rt_Spec := wire_spec (rt_Spec r)\<rparr>) (sn_Routes snap)\<rparr>), s))"

section \<open>Control client\<close>

text \<open>What happens to one exchange with the server.\<close>

datatype delivery = Delivered | RequestLost | ResponseLost

datatype client_error = TransportError | ControlError int

type_synonym 'a exchange = "delivery list \<times> store \<Rightarrow> (client_error + 'a) \<times> delivery list \<times> store"

definition client_do :: "(store \<Rightarrow> control_reply \<times> store) \<Rightarrow> control_reply exchange" where
  "client_do handler = (\<lambda>(ds, s).
     let (d, ds) = (case ds of [] \<Rightarrow> (Delivered, []) | d # ds \<Rightarrow> (d, ds))
     in case d of
          RequestLost \<Rightarrow> (Inl TransportError, ds, s)
        | ResponseLost \<Rightarrow> (Inl TransportError, ds, snd (handler s))
        | Delivered \<Rightarrow>
            (let (response, s) = handler s
             in case response of
                  ReplyError code \<Rightarrow> (Inl (ControlError code), ds, s)
                | _ \<Rightarrow> (Inr response, ds, s)))"

definition client_Apply :: "route \<Rightarrow> control_reply exchange" where
  "client_Apply r = client_do (applyRoute (rt_uid r) (format_int (rt_gen r)) (Some (wire_spec (rt_Spec r))))"

definition client_Delete :: "string \<Rightarrow> int \<Rightarrow> control_reply exchange" where
  "client_Delete uid g = client_do (deleteRoute uid (format_int g))"

definition client_MarkDraining :: "string \<Rightarrow> int \<Rightarrow> control_reply exchange" where
  "client_MarkDraining uid g = client_do (markDraining uid (format_int g))"

definition client_Snapshot :: "control_reply exchange" where
  "client_Snapshot = client_do snapshotRoutes"

section \<open>Publisher\<close>

definition routeFromPublication :: "route_publication \<Rightarrow> route" where
  "routeFromPublication p = \<lparr>rt_Key = \<lparr>rt_SandboxUID = rp_SandboxUID p, rt_RouteGeneration = rp_RouteGeneration p\<rparr>,
     rt_Spec = \<lparr>rt_Namespace = rp_Namespace p, rt_FastletPodUID = rp_FastletPodUID p,
       rt_AssignmentAttempt = rp_AssignmentAttempt p, rt_Access = rp_Access p, rt_State = RouteReady,
       rt_Components = rp_Components p\<rparr>\<rparr>"

definition ApplyRoute :: "route_publication \<Rightarrow> delivery list \<times> store \<Rightarrow> client_error option \<times> delivery list \<times> store" where
  "ApplyRoute p st =
     (case client_Apply (routeFromPublication p) st of (Inl err, st) \<Rightarrow> (Some err, st) | (Inr _, st) \<Rightarrow> (None, st))"

definition RemoveRoute :: "route_publication \<Rightarrow> delivery list \<times> store \<Rightarrow> client_error option \<times> delivery list \<times> store" where
  "RemoveRoute p st =
     (let (drained, st) = client_MarkDraining (rp_SandboxUID p) (rp_RouteGeneration p) st
      in case (case drained of Inl err \<Rightarrow> if err = ControlError 404 then None else Some err | Inr _ \<Rightarrow> None) of
           Some err \<Rightarrow> (Some err, st)
         | None \<Rightarrow>
             (case client_Delete (rp_SandboxUID p) (rp_RouteGeneration p) st of
                (Inl err, st) \<Rightarrow> if err = ControlError 404 then (None, st) else (Some err, st)
              | (Inr _, st) \<Rightarrow> (None, st)))"

fun reconcile_delete :: "(string, route_publication) gomap \<Rightarrow> route list \<Rightarrow> delivery list \<times> store
    \<Rightarrow> client_error option \<times> delivery list \<times> store" where
  "reconcile_delete desired [] st = (None, st)"
| "reconcile_delete desired (r # rs) st =
     (if gm_get desired (rt_uid r) \<noteq> None then reconcile_delete desired rs st
      else case client_Delete (rt_uid r) (rt_gen r) st of
          (Inl err, st) \<Rightarrow> (Some err, st)
        | (Inr _, st) \<Rightarrow> reconcile_delete desired rs st)"

fun reconcile_apply :: "route_publication list \<Rightarrow> delivery list \<times> store \<Rightarrow> client_error option \<times> delivery list \<times> store" where
  "reconcile_apply [] st = (None, st)"
| "reconcile_apply (p # ps) st =
     (case ApplyRoute p st of (Some err, st) \<Rightarrow> (Some err, st) | (None, st) \<Rightarrow> reconcile_apply ps st)"

definition ReconcileRoutes ::
    "route_publication list \<Rightarrow> delivery list \<times> store \<Rightarrow> client_error option \<times> delivery list \<times> store" where
  "ReconcileRoutes publications st =
     (case client_Snapshot st of
        (Inr (ReplyRoutes snap), st) \<Rightarrow>
          (let desired = fold (\<lambda>p. gm_put (rp_SandboxUID p) p) publications []
           in case reconcile_delete desired (sn_Routes snap) st of
                (Some err, st) \<Rightarrow> (Some err, st)
              | (None, st) \<Rightarrow> reconcile_apply publications st)
      | (Inl err, st) \<Rightarrow> (Some err, st)
      | (Inr _, st) \<Rightarrow> (None, st))"

section \<open>Lemmas\<close>

lemma parseGeneration_format:
  assumes "0 < g" "g \<le> max_int64"
  shows "parseGeneration (format_int g) = Inr g"
proof -
  have "parse_int64 (format_int g) = Some g" using assms by (intro parse_format_int) (simp_all add: min_int64_def)
  then show ?thesis using assms(1) by (simp add: parseGeneration_def)
qed

lemma reply_simps [simp]:
  "snd (reply res) = snd res"
  "fst (reply res) \<noteq> ReplyRoutes x"
  "fst (reply res) = ReplyRevision v \<longleftrightarrow> fst res = Inr v"
  by (auto simp: reply_def writeControlError_def split: prod.splits sum.splits)

lemma client_do_store: "snd (snd (client_do f (ds, s))) = s \<or> snd (snd (client_do f (ds, s))) = snd (f s)"
  by (simp add: client_do_def Let_def split: list.split delivery.split prod.split control_reply.split)

lemma client_do_ok:
  assumes "client_do f (ds, s) = (Inr x, ds', s')"
  shows "f s = (x, s')"
  using assms
  by (auto simp: client_do_def Let_def split: list.splits delivery.splits prod.splits control_reply.splits)

lemma client_do_delivered: "client_do f ([], s) = (case f s of (ReplyError code, s) \<Rightarrow> (Inl (ControlError code), [], s) | (x, s) \<Rightarrow> (Inr x, [], s))"
  by (auto simp: client_do_def Let_def split: prod.splits control_reply.splits)

lemma handlers_step:
  "snd (applyRoute uid value spec s) = s \<or> store_step s (snd (applyRoute uid value spec s))"
  "snd (deleteRoute uid value s) = s \<or> store_step s (snd (deleteRoute uid value s))"
  "snd (markDraining uid value s) = s \<or> store_step s (snd (markDraining uid value s))"
  by (auto simp: applyRoute_def deleteRoute_def markDraining_def intro: store_step.intros split: sum.split option.split)

text \<open>A Sandbox whose route can be removed at generation \<^verbatim>\<open>g\<close>, and one whose route is gone.\<close>

definition removable :: "string \<Rightarrow> int \<Rightarrow> store \<Rightarrow> bool" where
  "removable uid g s \<longleftrightarrow> (case loadRoute s uid of Some r \<Rightarrow> rt_gen r = g | None \<Rightarrow> high_water s uid \<le> g)"

definition removed :: "string \<Rightarrow> int \<Rightarrow> store \<Rightarrow> bool" where
  "removed uid g s \<longleftrightarrow> loadRoute s uid = None \<and> high_water s uid = g"

lemma removed_removable: "removed uid g s \<Longrightarrow> removable uid g s"
  by (simp add: removable_def removed_def)

lemma MarkDraining_removable:
  assumes "store_wf s" "removable uid g s"
  shows "removable uid g (snd (MarkDraining uid g s))"
    and "fst (MarkDraining uid g s) = Inl ErrRouteNotFound \<or> (\<exists>v. fst (MarkDraining uid g s) = Inr v)"
proof -
  have "removable uid g (snd (MarkDraining uid g s)) \<and>
    (fst (MarkDraining uid g s) = Inl ErrRouteNotFound \<or> (\<exists>v. fst (MarkDraining uid g s) = Inr v))"
  proof (cases "loadRoute s uid")
    case None
    then show ?thesis using assms(2) by (auto simp: MarkDraining_def removable_def)
  next
    case (Some r)
    then have r: "rt_gen r = g" "rt_uid r = uid"
      using assms(2) store_wf_route[OF assms(1) Some] by (simp_all add: removable_def route_wf_def)
    show ?thesis using Some r
      by (cases rule: MarkDraining_outcome[OF assms(1), of uid g])
        (auto simp: MarkDraining_def commit_def removable_def Let_def perform_def publishLocked_def loadRoute_def
          apply_event_def storeRouteLocked_def split: if_splits)
  qed
  then show "removable uid g (snd (MarkDraining uid g s))"
    "fst (MarkDraining uid g s) = Inl ErrRouteNotFound \<or> (\<exists>v. fst (MarkDraining uid g s) = Inr v)" by blast+
qed

lemma Delete_removable:
  assumes "store_wf s" "removable uid g s" "0 < g" "uid \<noteq> []"
  shows "removed uid g (snd (Delete uid g s)) \<and> (\<exists>v. fst (Delete uid g s) = Inr v)"
proof -
  have le: "high_water s uid \<le> g"
    using assms(1,2) store_wf_route[OF assms(1)] by (auto simp: removable_def route_wf_def split: option.splits)
  show ?thesis
  proof (cases rule: Delete_outcome[of uid g s])
    case (same res)
    then show ?thesis using assms(3,4) le
      by (auto simp: Delete_def Let_def removed_def loadRoute_def commit_def split: if_splits)
  next
    case changed
    then show ?thesis by (simp add: removed_def loadRoute_def apply_event_def)
  qed
qed

lemma client_MarkDraining_removable:
  assumes "store_wf s" "removable uid g s" "0 < g" "g \<le> max_int64"
  shows "store_wf (snd (snd (client_MarkDraining uid g (ds, s))))" "removable uid g (snd (snd (client_MarkDraining uid g (ds, s))))"
    "case fst (client_MarkDraining uid g ([], s)) of Inl err \<Rightarrow> err = ControlError 404 | Inr _ \<Rightarrow> True"
proof -
  have h: "markDraining uid (format_int g) s = reply (MarkDraining uid g s)"
    using parseGeneration_format[OF assms(3,4)] by (simp add: markDraining_def)
  show "store_wf (snd (snd (client_MarkDraining uid g (ds, s))))" "removable uid g (snd (snd (client_MarkDraining uid g (ds, s))))"
    using client_do_store[of "markDraining uid (format_int g)" ds s] MarkDraining_removable[OF assms(1,2)]
      MarkDraining_wf[OF assms(1), of uid g] assms(1,2)
    by (auto simp: client_MarkDraining_def h)
  show "case fst (client_MarkDraining uid g ([], s)) of Inl err \<Rightarrow> err = ControlError 404 | Inr _ \<Rightarrow> True"
    using MarkDraining_removable(2)[OF assms(1,2)]
    by (auto simp: client_MarkDraining_def client_do_delivered h reply_def writeControlError_def
        split: prod.splits sum.splits control_reply.splits)
qed

lemma client_Delete_removable:
  assumes "store_wf s" "removable uid g s" "0 < g" "g \<le> max_int64" "uid \<noteq> []"
  shows "store_wf (snd (snd (client_Delete uid g (ds, s))))" "removable uid g (snd (snd (client_Delete uid g (ds, s))))"
    "fst (client_Delete uid g (ds, s)) = Inr x \<Longrightarrow> removed uid g (snd (snd (client_Delete uid g (ds, s))))"
    "fst (client_Delete uid g (ds, s)) \<noteq> Inl (ControlError code)" "\<exists>x. fst (client_Delete uid g ([], s)) = Inr x"
proof -
  have h: "deleteRoute uid (format_int g) s = reply (Delete uid g s)"
    using parseGeneration_format[OF assms(3,4)] by (simp add: deleteRoute_def)
  obtain v s1 where d: "Delete uid g s = (Inr v, s1)" "removed uid g s1"
    using Delete_removable[OF assms(1,2,3,5)] by (metis prod.collapse)
  have hd: "deleteRoute uid (format_int g) s = (ReplyRevision v, s1)" using h d(1) by (simp add: reply_def)
  have "store_wf s1" using Delete_wf[OF assms(1), of uid g] d(1) by simp
  then show "store_wf (snd (snd (client_Delete uid g (ds, s))))" "removable uid g (snd (snd (client_Delete uid g (ds, s))))"
    using client_do_store[of "deleteRoute uid (format_int g)" ds s] assms(1,2) removed_removable[OF d(2)]
    by (auto simp: client_Delete_def hd)
  show "removed uid g (snd (snd (client_Delete uid g (ds, s))))" if "fst (client_Delete uid g (ds, s)) = Inr x"
    using client_do_ok[of "deleteRoute uid (format_int g)" ds s x] that d(2)
    by (metis client_Delete_def hd prod.collapse snd_conv)
  show "fst (client_Delete uid g (ds, s)) \<noteq> Inl (ControlError code)" "\<exists>x. fst (client_Delete uid g ([], s)) = Inr x"
    by (simp_all add: client_Delete_def client_do_def hd Let_def split: list.split delivery.split)
qed

lemma RemoveRoute_result:
  assumes "store_wf s" "removable (rp_SandboxUID p) (rp_RouteGeneration p) s" "0 < rp_RouteGeneration p"
    "rp_RouteGeneration p \<le> max_int64" "rp_SandboxUID p \<noteq> []" "RemoveRoute p (ds, s) = (err, ds', s')"
  shows "store_wf s' \<and> removable (rp_SandboxUID p) (rp_RouteGeneration p) s' \<and>
    (err = None \<longrightarrow> removed (rp_SandboxUID p) (rp_RouteGeneration p) s') \<and> (ds = [] \<longrightarrow> err = None)"
proof -
  let ?u = "rp_SandboxUID p" and ?g = "rp_RouteGeneration p"
  obtain res ds1 s1 where m: "client_MarkDraining ?u ?g (ds, s) = (res, ds1, s1)" by (metis prod.collapse)
  have s1: "store_wf s1" "removable ?u ?g s1" using client_MarkDraining_removable(1,2)[OF assms(1-4), of ds] m by simp_all
  obtain res2 ds2 s2 where d: "client_Delete ?u ?g (ds1, s1) = (res2, ds2, s2)" by (metis prod.collapse)
  note del = client_Delete_removable[OF s1 assms(3-5)]
  have empty: "ds = [] \<Longrightarrow> ds1 = []" using m by (auto simp: client_MarkDraining_def client_do_delivered split: prod.splits control_reply.splits)
  show ?thesis
  proof (cases "\<exists>e. res = Inl e \<and> e \<noteq> ControlError 404")
    case True
    then have "err \<noteq> None \<and> s' = s1" using assms(6) m by (auto simp: RemoveRoute_def)
    moreover have "ds \<noteq> []" using True client_MarkDraining_removable(3)[OF assms(1-4)] m by auto
    ultimately show ?thesis using s1 by auto
  next
    case False
    then have r: "(err, ds', s') = (case res2 of Inl e \<Rightarrow> if e = ControlError 404 then (None, ds2, s2) else (Some e, ds2, s2)
        | Inr _ \<Rightarrow> (None, ds2, s2))"
      using assms(6) m d by (auto simp: RemoveRoute_def split: sum.splits)
    have "ds = [] \<Longrightarrow> \<exists>x. res2 = Inr x" using del(5) d empty by auto
    then show ?thesis using r del(1,2,3,4)[of ds1] d by (auto split: sum.splits if_splits)
  qed
qed

text \<open>The effect of a successful call on every Sandbox.\<close>

lemma Delete_ok:
  assumes "Delete uid g s = (Inr v, s')"
  shows "loadRoute s' uid' = (if uid' = uid then None else loadRoute s uid')"
proof (cases rule: Delete_outcome[of uid g s])
  case (same res)
  then show ?thesis using assms by auto
next
  case changed
  then show ?thesis using assms by (auto simp: loadRoute_def apply_event_def)
qed

definition components_wf :: "route_spec \<Rightarrow> bool" where
  "components_wf spec \<longleftrightarrow> (case rt_Components spec of None \<Rightarrow> True | Some m \<Rightarrow> gm_wf m)"

lemma DeepEqual_refl: "components_wf (rt_Spec r) \<Longrightarrow> DeepEqual r r"
  by (auto simp: DeepEqual_def same_components_def components_wf_def list_all_iff gm_get_iff_in_set split: option.split)

lemma Apply_ok:
  assumes "store_wf s" "Apply r s = (Inr v, s')" "components_wf (rt_Spec r)"
  shows "(\<exists>e. loadRoute s' (rt_uid r) = Some e \<and> DeepEqual e (default_state r)) \<and>
    (\<forall>uid. uid \<noteq> rt_uid r \<longrightarrow> loadRoute s' uid = loadRoute s uid)"
proof (cases rule: Apply_outcome[OF assms(1), of r])
  case (1 res)
  then show ?thesis using assms(2) by auto
next
  case (2 spec)
  moreover have "DeepEqual (default_state r) (default_state r)"
    using assms(3) by (intro DeepEqual_refl) (simp add: components_wf_def default_state_def)
  ultimately show ?thesis using assms(2) by (auto simp: loadRoute_def apply_event_def)
qed

lemma client_Delete_ok:
  assumes "client_Delete uid g (ds, s) = (Inr x, ds', s')" "store_wf s"
  shows "store_wf s' \<and> (\<forall>u. loadRoute s' u = (if u = uid then None else loadRoute s u))"
proof -
  have "deleteRoute uid (format_int g) s = (x, s')" "\<And>c. x \<noteq> ReplyError c"
    using assms(1) client_do_ok[of "deleteRoute uid (format_int g)" ds s x]
    by (auto simp: client_Delete_def client_do_def Let_def split: list.splits delivery.splits prod.splits control_reply.splits)
  then obtain g' v where "Delete uid g' s = (Inr v, s')"
    by (auto simp: deleteRoute_def reply_def writeControlError_def split: sum.splits prod.splits)
  then show ?thesis using Delete_ok[of uid g' s v s'] Delete_wf[OF assms(2), of uid g'] by simp
qed

definition wire_route :: "route_publication \<Rightarrow> route" where
  "wire_route p = (routeFromPublication p)\<lparr>rt_Spec := wire_spec (rt_Spec (routeFromPublication p))\<rparr>"

lemma wire_route_simps [simp]:
  "rt_uid (wire_route p) = rp_SandboxUID p" "default_state (wire_route p) = wire_route p"
  "rt_State (rt_Spec (wire_route p)) = RouteReady"
  by (simp_all add: wire_route_def routeFromPublication_def wire_spec_def default_state_def)

lemma wire_components_wf:
  "components_wf (rt_Spec (routeFromPublication p)) \<Longrightarrow> components_wf (rt_Spec (wire_route p))"
  by (simp add: components_wf_def wire_route_def wire_spec_def)

lemma ApplyRoute_ok:
  assumes "ApplyRoute p (ds, s) = (None, ds', s')" "store_wf s" "components_wf (rt_Spec (routeFromPublication p))"
  shows "store_wf s' \<and> (\<exists>e. loadRoute s' (rp_SandboxUID p) = Some e \<and> DeepEqual e (wire_route p)) \<and>
    (\<forall>uid. uid \<noteq> rp_SandboxUID p \<longrightarrow> loadRoute s' uid = loadRoute s uid)"
proof -
  let ?r = "routeFromPublication p"
  let ?h = "applyRoute (rt_uid ?r) (format_int (rt_gen ?r)) (Some (wire_spec (rt_Spec ?r)))"
  obtain x where x: "client_do ?h (ds, s) = (Inr x, ds', s')"
    using assms(1) by (auto simp: ApplyRoute_def client_Apply_def split: prod.splits sum.splits)
  then have h: "?h s = (x, s')" "\<And>c. x \<noteq> ReplyError c" using client_do_ok[OF x]
    by (auto simp: client_do_def Let_def split: list.splits delivery.splits prod.splits control_reply.splits)
  then obtain g v where g: "parseGeneration (format_int (rt_gen ?r)) = Inr g"
      "Apply \<lparr>rt_Key = \<lparr>rt_SandboxUID = rt_uid ?r, rt_RouteGeneration = g\<rparr>, rt_Spec = wire_spec (rt_Spec ?r)\<rparr> s = (Inr v, s')"
    by (auto simp: applyRoute_def reply_def writeControlError_def split: sum.splits prod.splits)
  have "g = rt_gen ?r" using g(1) parse_int64_format[of "rt_gen ?r" g]
    by (auto simp: parseGeneration_def split: option.splits if_splits)
  then have "Apply (wire_route p) s = (Inr v, s')" using g(2) by (simp add: wire_route_def routeFromPublication_def)
  then show ?thesis
    using Apply_ok[OF assms(2) _ wire_components_wf[OF assms(3)]] Apply_wf[OF assms(2), of "wire_route p"] by fastforce
qed

lemma reconcile_delete_ok:
  assumes "reconcile_delete desired rs (ds, s) = (None, ds', s')" "store_wf s"
  shows "store_wf s' \<and> (\<forall>uid. loadRoute s' uid =
    (if gm_get desired uid = None \<and> uid \<in> rt_uid ` set rs then None else loadRoute s uid))"
  using assms
proof (induction rs arbitrary: ds s)
  case (Cons r rs)
  show ?case
  proof (cases "gm_get desired (rt_uid r)")
    case (Some q)
    then show ?thesis using Cons by auto
  next
    case None
    then obtain x ds1 s1 where d: "client_Delete (rt_uid r) (rt_gen r) (ds, s) = (Inr x, ds1, s1)"
        "reconcile_delete desired rs (ds1, s1) = (None, ds', s')"
      using Cons.prems(1) by (auto split: prod.splits sum.splits)
    note del = client_Delete_ok[OF d(1) Cons.prems(2)]
    then have "store_wf s' \<and> (\<forall>uid. loadRoute s' uid =
        (if gm_get desired uid = None \<and> uid \<in> rt_uid ` set rs then None else loadRoute s1 uid))"
      using Cons.IH[OF d(2)] by blast
    then show ?thesis using del None by auto
  qed
qed simp

lemma reconcile_apply_ok:
  assumes "reconcile_apply ps (ds, s) = (None, ds', s')" "store_wf s" "distinct (map rp_SandboxUID ps)"
    "\<forall>p \<in> set ps. components_wf (rt_Spec (routeFromPublication p))"
  shows "(\<forall>p \<in> set ps. \<exists>e. loadRoute s' (rp_SandboxUID p) = Some e \<and> DeepEqual e (wire_route p)) \<and>
    (\<forall>uid. uid \<notin> rp_SandboxUID ` set ps \<longrightarrow> loadRoute s' uid = loadRoute s uid)"
  using assms
proof (induction ps arbitrary: ds s)
  case (Cons p ps)
  then obtain ds1 s1 where a: "ApplyRoute p (ds, s) = (None, ds1, s1)" "reconcile_apply ps (ds1, s1) = (None, ds', s')"
    by (auto split: prod.splits option.splits)
  note one = ApplyRoute_ok[OF a(1) Cons.prems(2)]
  have "components_wf (rt_Spec (routeFromPublication p))" using Cons.prems(4) by simp
  from one[OF this] Cons.IH[OF a(2)] Cons.prems(3,4) show ?case by auto
qed simp

lemma desired_keys:
  "gm_get (fold (\<lambda>p. gm_put (rp_SandboxUID p) p) ps m) k = None \<longleftrightarrow> k \<notin> rp_SandboxUID ` set ps \<and> gm_get m k = None"
  by (induction ps arbitrary: m) auto

section \<open>Properties\<close>

lemma RemoveRoute_other_generation:
  assumes "loadRoute s (rp_SandboxUID p) = Some r" "rt_gen r \<noteq> rp_RouteGeneration p"
    "0 < rp_RouteGeneration p" "rp_RouteGeneration p \<le> max_int64" "RemoveRoute p (ds, s) = (err, ds', s')"
  shows "err \<noteq> None \<and> s' = s"
proof -
  have "markDraining (rp_SandboxUID p) (format_int (rp_RouteGeneration p)) s = (ReplyError 409, s)"
    using assms(1,2) parseGeneration_format[OF assms(3,4)]
    by (auto simp: markDraining_def MarkDraining_def reply_def writeControlError_def)
  then show ?thesis
    using assms(5)
    by (auto simp: RemoveRoute_def client_MarkDraining_def client_do_def Let_def split: list.splits delivery.splits)
qed

text \<open>C26: a removal that does not go through can be retried, and a removal never touches a route of
  another generation. Start from a reachable store and let any of the two calls be lost, on the way to
  the proxy or back. When the Sandbox's active route, if there is one, has the generation to be removed
  and no higher generation has been deleted, a removal that reports success has removed the route and
  left its tombstone, and after a removal that failed a retry that is not disturbed succeeds. When the
  active route has another generation, older or newer, the removal reports an error and the store is
  as before, so that a retry fails as well.\<close>

theorem RemoveRoute_retry:
  assumes "store_reachable s" "0 < rp_RouteGeneration p"
    "rp_RouteGeneration p \<le> max_int64" "rp_SandboxUID p \<noteq> []" "RemoveRoute p (ds, s) = (err, ds', s')"
  shows "(removable (rp_SandboxUID p) (rp_RouteGeneration p) s \<longrightarrow>
      (err = None \<longrightarrow> loadRoute s' (rp_SandboxUID p) = None \<and> high_water s' (rp_SandboxUID p) = rp_RouteGeneration p) \<and>
      (\<exists>s''. RemoveRoute p ([], s') = (None, [], s'') \<and> loadRoute s'' (rp_SandboxUID p) = None)) \<and>
    (\<forall>r. loadRoute s (rp_SandboxUID p) = Some r \<and> rt_gen r \<noteq> rp_RouteGeneration p \<longrightarrow> err \<noteq> None \<and> s' = s)"
proof (rule conjI, rule impI)
  assume rem: "removable (rp_SandboxUID p) (rp_RouteGeneration p) s"
  note first = RemoveRoute_result[OF store_reachable_wf[OF assms(1)] rem assms(2-5)]
  obtain err2 ds2 s2 where again: "RemoveRoute p ([], s') = (err2, ds2, s2)" by (metis prod.collapse)
  then have "ds2 = []"
    by (auto simp: RemoveRoute_def client_MarkDraining_def client_Delete_def client_do_delivered Let_def
        split: prod.splits control_reply.splits sum.splits if_splits option.splits)
  moreover have "err2 = None \<and> removed (rp_SandboxUID p) (rp_RouteGeneration p) s2"
    using RemoveRoute_result[OF _ _ assms(2-4) again] first by blast
  ultimately show "(err = None \<longrightarrow> loadRoute s' (rp_SandboxUID p) = None \<and> high_water s' (rp_SandboxUID p) = rp_RouteGeneration p) \<and>
      (\<exists>s''. RemoveRoute p ([], s') = (None, [], s'') \<and> loadRoute s'' (rp_SandboxUID p) = None)"
    using first again by (auto simp: removed_def)
next
  show "\<forall>r. loadRoute s (rp_SandboxUID p) = Some r \<and> rt_gen r \<noteq> rp_RouteGeneration p \<longrightarrow> err \<noteq> None \<and> s' = s"
    using RemoveRoute_other_generation[OF _ _ assms(2,3,5)] by blast
qed

definition sample_publication :: "string \<Rightarrow> int \<Rightarrow> route_publication" where
  "sample_publication uid g = \<lparr>rp_Namespace = ''default'', rp_SandboxUID = uid, rp_FastletPodUID = ''pod'',
     rp_AssignmentAttempt = 1, rp_RouteGeneration = g,
     rp_Access = \<lparr>ad_Kind = AccessKindDirectIP, ad_Address = ''172.30.0.2'', ad_NetNSPath = []\<rparr>, rp_Components = None\<rparr>"

theorem RemoveRoute_retry_witness:
  "let s = snd (snd (RemoveRoute (sample_publication ''sb'' 3) ([Delivered, RequestLost], sample_store)))
   in \<exists>s''. RemoveRoute (sample_publication ''sb'' 3) ([], s) = (None, [], s'') \<and> loadRoute s'' ''sb'' = None"
proof -
  let ?r = "RemoveRoute (sample_publication ''sb'' 3) ([Delivered, RequestLost], sample_store)"
  have e: "?r = (fst ?r, fst (snd ?r), snd (snd ?r))" by simp
  have "map_option rt_gen (loadRoute sample_store ''sb'') = Some 3" by code_simp
  then have "removable ''sb'' 3 sample_store" by (auto simp: removable_def)
  then show ?thesis
    using RemoveRoute_retry[OF sample_store_reachable _ _ _ e] by (simp add: sample_publication_def max_int64_def Let_def)
qed

text \<open>C27: a successful reconciliation leaves exactly the desired routes. When \<^verbatim>\<open>ReconcileRoutes\<close> returns
  without an error from a reachable store, whatever was lost on the way, the Sandboxes with an active
  route are exactly those of the publications, and each has the published route. The publications are
  for different Sandboxes, and their component maps have distinct keys.\<close>

theorem ReconcileRoutes_exact:
  assumes "store_reachable s" "ReconcileRoutes ps (ds, s) = (None, ds', s')" "distinct (map rp_SandboxUID ps)"
    "\<forall>p \<in> set ps. components_wf (rt_Spec (routeFromPublication p))"
  shows "(\<forall>uid. loadRoute s' uid \<noteq> None \<longleftrightarrow> uid \<in> rp_SandboxUID ` set ps) \<and>
    (\<forall>p \<in> set ps. \<exists>r. Lookup (rp_SandboxUID p) s' = Inr r \<and> DeepEqual r (wire_route p))"
proof -
  have wf: "store_wf s" using store_reachable_wf[OF assms(1)] .
  obtain snap ds1 s0 where c: "client_Snapshot (ds, s) = (Inr (ReplyRoutes snap), ds1, s0)"
    using assms(2) by (auto simp: ReconcileRoutes_def client_Snapshot_def client_do_def snapshotRoutes_def Let_def
        split: list.splits delivery.splits)
  then have s0: "s0 = s" "rt_uid ` set (sn_Routes snap) = rt_uid ` set (gm_vals (st_active s))"
    using client_do_ok[of snapshotRoutes ds s] unfolding client_Snapshot_def
    by (auto simp: snapshotRoutes_def Store_Snapshot_def Let_def image_image)
  let ?desired = "fold (\<lambda>p. gm_put (rp_SandboxUID p) p) ps []"
  obtain ds2 s1 where d: "reconcile_delete ?desired (sn_Routes snap) (ds1, s) = (None, ds2, s1)"
      "reconcile_apply ps (ds2, s1) = (None, ds', s')"
    using assms(2) c s0(1) by (auto simp: ReconcileRoutes_def Let_def split: prod.splits option.splits)
  note del = reconcile_delete_ok[OF d(1) wf]
  have known: "uid \<in> rt_uid ` set (sn_Routes snap)" if "loadRoute s uid = Some r" for uid r
  proof -
    have "r \<in> set (gm_vals (st_active s))" using that wf by (auto simp: loadRoute_def store_wf_def gm_vals_iff)
    then show ?thesis using store_wf_route[OF wf that] s0(2) by (auto simp: route_wf_def)
  qed
  have gone: "loadRoute s1 uid = None" if "uid \<notin> rp_SandboxUID ` set ps" for uid
    using del that known[of uid] by (cases "loadRoute s uid") (auto simp: desired_keys)
  note app = reconcile_apply_ok[OF d(2) _ assms(3,4)]
  have "store_wf s1" using del by blast
  from app[OF this] gone show ?thesis
    by (auto simp: Lookup_def DeepEqual_def split: option.splits)
qed

theorem ReconcileRoutes_exact_witness:
  "let s = snd (snd (ReconcileRoutes [sample_publication ''new'' 1] ([], sample_store)))
   in loadRoute s ''sb'' = None \<and> loadRoute s ''new'' \<noteq> None"
proof -
  let ?r = "ReconcileRoutes [sample_publication ''new'' 1] ([], sample_store)"
  have "fst ?r = None" by code_simp
  then have e: "?r = (None, fst (snd ?r), snd (snd ?r))" by (metis prod.collapse)
  have "\<forall>p \<in> set [sample_publication ''new'' 1]. components_wf (rt_Spec (routeFromPublication p))"
    by (simp add: components_wf_def routeFromPublication_def sample_publication_def)
  from ReconcileRoutes_exact[OF sample_store_reachable e _ this]
  have "loadRoute (snd (snd ?r)) uid \<noteq> None \<longleftrightarrow> uid \<in> rp_SandboxUID ` set [sample_publication ''new'' 1]" for uid
    by simp
  from this[of "''sb''"] this[of "''new''"] show ?thesis
    unfolding Let_def by (simp add: sample_publication_def[THEN arg_cong, of rp_SandboxUID])
qed

end
