(* ===== verification/Go_Base64.thy ===== *)
theory Go_Base64
  imports Go_Text
begin

text \<open>
  Go's \<^verbatim>\<open>encoding/base64\<close> as the route credentials use it: the URL alphabet without padding for
  tokens, and the standard alphabet without and with padding for keys. Line breaks in the input are
  skipped by the decoder, as in Go.
\<close>

datatype b64_alphabet = URLAlphabet | StdAlphabet

definition sextet_char :: "b64_alphabet \<Rightarrow> nat \<Rightarrow> char" where
  "sextet_char alphabet n =
     (if n < 26 then char_of (65 + n) else if n < 52 then char_of (71 + n) else if n < 62 then char_of (n - 4)
      else if n = 62 then (case alphabet of URLAlphabet \<Rightarrow> CHR ''-'' | StdAlphabet \<Rightarrow> CHR ''+'')
      else (case alphabet of URLAlphabet \<Rightarrow> CHR ''_'' | StdAlphabet \<Rightarrow> CHR ''/''))"

definition char_sextet :: "b64_alphabet \<Rightarrow> char \<Rightarrow> nat option" where
  "char_sextet alphabet c =
     (let n = (of_char c :: nat) in
      if 65 \<le> n \<and> n \<le> 90 then Some (n - 65)
      else if 97 \<le> n \<and> n \<le> 122 then Some (n - 71)
      else if 48 \<le> n \<and> n \<le> 57 then Some (n + 4)
      else if c = (case alphabet of URLAlphabet \<Rightarrow> CHR ''-'' | StdAlphabet \<Rightarrow> CHR ''+'') then Some 62
      else if c = (case alphabet of URLAlphabet \<Rightarrow> CHR ''_'' | StdAlphabet \<Rightarrow> CHR ''/'') then Some 63
      else None)"

fun to_sextets :: "nat list \<Rightarrow> nat list" where
  "to_sextets [] = []"
| "to_sextets [a] = [a div 4, a mod 4 * 16]"
| "to_sextets [a, b] = [a div 4, a mod 4 * 16 + b div 16, b mod 16 * 4]"
| "to_sextets (a # b # c # bytes) =
     a div 4 # (a mod 4 * 16 + b div 16) # (b mod 16 * 4 + c div 64) # c mod 64 # to_sextets bytes"

fun of_sextets :: "nat list \<Rightarrow> nat list option" where
  "of_sextets [] = Some []"
| "of_sextets [x] = None"
| "of_sextets [x, y] = Some [x * 4 + y div 16]"
| "of_sextets [x, y, z] = Some [x * 4 + y div 16, y mod 16 * 16 + z div 4]"
| "of_sextets (x # y # z # w # sextets) =
     map_option (\<lambda>bytes. (x * 4 + y div 16) # (y mod 16 * 16 + z div 4) # (z mod 4 * 64 + w) # bytes)
       (of_sextets sextets)"

definition raw_encode :: "b64_alphabet \<Rightarrow> string \<Rightarrow> string" where
  "raw_encode alphabet s = map (sextet_char alphabet) (to_sextets (map of_char s))"

definition is_newline :: "char \<Rightarrow> bool" where
  "is_newline c \<longleftrightarrow> (of_char c :: nat) = 10 \<or> (of_char c :: nat) = 13"

fun option_all :: "'a option list \<Rightarrow> 'a list option" where
  "option_all [] = Some []"
| "option_all (x # xs) = (case x of None \<Rightarrow> None | Some y \<Rightarrow> map_option ((#) y) (option_all xs))"

definition decode_sextets :: "b64_alphabet \<Rightarrow> string \<Rightarrow> string option" where
  "decode_sextets alphabet s =
     map_option (map char_of) (Option.bind (option_all (map (char_sextet alphabet) s)) of_sextets)"

definition raw_decode :: "b64_alphabet \<Rightarrow> string \<Rightarrow> string option" where
  "raw_decode alphabet s = decode_sextets alphabet (filter (\<lambda>c. \<not> is_newline c) s)"

text \<open>With padding: whole groups of four, of which only the last may end in one or two pad bytes.\<close>

definition padded_decode :: "b64_alphabet \<Rightarrow> string \<Rightarrow> string option" where
  "padded_decode alphabet s =
     (let s = filter (\<lambda>c. \<not> is_newline c) s;
          pad = length (takeWhile (\<lambda>c. c = CHR ''='') (rev s))
      in if length s mod 4 \<noteq> 0 \<or> pad > 2 then None
      else decode_sextets alphabet (take (length s - pad) s))"

lemma sextet_char_inverse: "n < 64 \<Longrightarrow> char_sextet alphabet (sextet_char alphabet n) = Some n"
  by (cases alphabet) (auto simp: char_sextet_def sextet_char_def Let_def)

lemma sextet_char_not: "n < 64 \<Longrightarrow> \<not> is_newline (sextet_char alphabet n) \<and> sextet_char alphabet n \<noteq> CHR ''.''"
  using sextet_char_inverse[of n alphabet] by (auto simp: is_newline_def char_sextet_def split: if_splits b64_alphabet.splits)

lemma byte_div: "(a :: nat) < 256 \<Longrightarrow> a div 4 < 64 \<and> a div 16 < 16 \<and> a div 64 < 4"
  by auto

lemma to_sextets_less: "list_all (\<lambda>b. b < 256) bytes \<Longrightarrow> list_all (\<lambda>n. n < 64) (to_sextets bytes)"
proof (induction bytes rule: to_sextets.induct)
  case (4 a b c bytes)
  have "a mod 4 * 16 + b div 16 < 64" if "b < 256" for a b :: nat
    using that mod_less_divisor[of 4 a] by linarith
  moreover have "b mod 16 * 4 + c div 64 < 64" if "c < 256" for b c :: nat
    using that mod_less_divisor[of 16 b] by linarith
  ultimately show ?case using 4 byte_div by simp
next
  case (3 a b)
  have "a mod 4 * 16 + b div 16 < 64" "b mod 16 * 4 < 64"
    using 3 mod_less_divisor[of 4 a] mod_less_divisor[of 16 b] by simp_all linarith
  then show ?case using 3 byte_div by simp
qed simp_all

lemma of_to_sextets: "list_all (\<lambda>b. b < 256) bytes \<Longrightarrow> of_sextets (to_sextets bytes) = Some bytes"
proof (induction bytes rule: to_sextets.induct)
  case (4 a b c bytes)
  have "(b mod 16 * 4 + c div 64) div 4 = b mod 16" "(b mod 16 * 4 + c div 64) mod 4 = c div 64"
    "(a mod 4 * 16 + b div 16) div 16 = a mod 4" "(a mod 4 * 16 + b div 16) mod 16 = b div 16"
    using 4(2) byte_div[of b] byte_div[of c] by simp_all
  then show ?case using 4 by simp
next
  case (3 a b)
  then show ?case using byte_div[of b] by simp
qed simp_all

lemma option_all_Some: "option_all (map Some xs) = Some xs"
  by (induction xs) simp_all

lemma raw_decode_encode [simp]: "raw_decode alphabet (raw_encode alphabet s) = Some s"
proof -
  let ?bytes = "map of_char s :: nat list"
  have bytes: "list_all (\<lambda>b. b < 256) ?bytes" by (simp add: list_all_iff)
  then have less: "\<And>n. n \<in> set (to_sextets ?bytes) \<Longrightarrow> n < 64" using to_sextets_less[OF bytes] by (auto simp: list_all_iff)
  then have "filter (\<lambda>c. \<not> is_newline c) (raw_encode alphabet s) = raw_encode alphabet s"
    using sextet_char_not by (auto simp: raw_encode_def intro!: filter_True)
  moreover have "map (char_sextet alphabet) (raw_encode alphabet s) = map Some (to_sextets ?bytes)"
    using less sextet_char_inverse by (simp add: raw_encode_def)
  ultimately show ?thesis
    by (simp add: raw_decode_def decode_sextets_def option_all_Some of_to_sextets[OF bytes] comp_def)
qed

lemma raw_encode_no_dot: "CHR ''.'' \<notin> set (raw_encode alphabet s)"
proof -
  have "list_all (\<lambda>b. b < 256) (map of_char s :: nat list)" by (simp add: list_all_iff)
  then show ?thesis using to_sextets_less sextet_char_not by (fastforce simp: raw_encode_def list_all_iff)
qed

end
