(* ===== verification/Route_Auth.thy ===== *)
theory Route_Auth
  imports Go_Base64
begin

text \<open>
  Route credentials (\<^verbatim>\<open>internal/dataplane/auth/credential.go\<close>): the claims and their validation, the
  issuer, the verifier and the parsing of keys. The Ed25519 primitives and the JSON codec of the claims
  are the record \<^verbatim>\<open>crypto\<close>, an argument of the definitions; what the code relies on of them is stated
  where it is used.
\<close>

section \<open>Claims\<close>

datatype target_kind = TargetKindPort | TargetKindComponent | TargetKindOther string

record claims =
  cl_Tenant :: string
  cl_Namespace :: string
  cl_SandboxUID :: string
  cl_TargetKind :: target_kind
  cl_ComponentName :: string
  cl_Protocol :: string
  cl_TargetPort :: "32 word"
  cl_FastletPodUID :: string
  cl_AssignmentAttempt :: int
  cl_RouteGeneration :: int
  cl_ExpiresAt :: int
  cl_Nonce :: string

datatype credential_error = ErrInvalidCredential | ErrExpiredCredential | ErrClaimMismatch

definition Claims_Validate :: "claims \<Rightarrow> credential_error option" where
  "Claims_Validate c =
     (if cl_Namespace c = [] \<or> cl_SandboxUID c = [] \<or> cl_TargetPort c = 0 \<or> cl_TargetPort c > 65535 \<or>
         cl_Protocol c = [] \<or> cl_FastletPodUID c = [] \<or> cl_AssignmentAttempt c \<le> 0 \<or>
         cl_RouteGeneration c \<le> 0 \<or> cl_ExpiresAt c \<le> 0
      then Some ErrInvalidCredential
      else case cl_TargetKind c of
          TargetKindPort \<Rightarrow> if cl_ComponentName c \<noteq> [] then Some ErrInvalidCredential else None
        | TargetKindComponent \<Rightarrow> if cl_ComponentName c = [] then Some ErrInvalidCredential else None
        | TargetKindOther _ \<Rightarrow> Some ErrInvalidCredential)"

section \<open>Time stamps\<close>

text \<open>\<^verbatim>\<open>Time.Unix\<close> and \<^verbatim>\<open>time.Unix\<close>: seconds since 1970 against nanoseconds since the zero time. The
  conversion from seconds wraps around as Go's does.\<close>

definition unix_offset :: int where
  "unix_offset = 62135596800"

definition to_unix :: "gotime \<Rightarrow> int" where
  "to_unix t = t div second - unix_offset"

definition from_unix :: "int \<Rightarrow> gotime" where
  "from_unix sec = wrap64 (sec + unix_offset) * second"

section \<open>Issuer and verifier\<close>

record crypto =
  cx_Sign :: "string \<Rightarrow> string \<Rightarrow> string"
  cx_Verify :: "string \<Rightarrow> string \<Rightarrow> string \<Rightarrow> bool"
  cx_NewKeyFromSeed :: "string \<Rightarrow> string"
  cx_Marshal :: "claims \<Rightarrow> string"
  cx_Unmarshal :: "string \<Rightarrow> claims option"

definition tokenVersion :: string where
  "tokenVersion = ''v2''"

definition PrivateKeySize :: nat where
  "PrivateKeySize = 64"

definition PublicKeySize :: nat where
  "PublicKeySize = 32"

definition SeedSize :: nat where
  "SeedSize = 32"

record issuer =
  is_privateKey :: string
  is_ttl :: goduration

definition NewIssuer :: "string \<Rightarrow> goduration \<Rightarrow> credential_error + issuer" where
  "NewIssuer privateKey ttl =
     (if length privateKey \<noteq> PrivateKeySize then Inl ErrInvalidCredential
      else if ttl \<le> 0 then Inl ErrInvalidCredential
      else Inr \<lparr>is_privateKey = privateKey, is_ttl = ttl\<rparr>)"

text \<open>\<^verbatim>\<open>now\<close> is the clock's answer and \<^verbatim>\<open>nonce\<close> the sixteen random bytes of the call.\<close>

definition Issue :: "crypto \<Rightarrow> gotime \<Rightarrow> string \<Rightarrow> issuer option \<Rightarrow> claims \<Rightarrow> credential_error + (string \<times> claims)" where
  "Issue C now nonce i c =
     (case i of
        None \<Rightarrow> Inl ErrInvalidCredential
      | Some i \<Rightarrow>
          (let c = c\<lparr>cl_ExpiresAt := to_unix (time_add now (is_ttl i)), cl_Nonce := raw_encode URLAlphabet nonce\<rparr>
           in case Claims_Validate c of
                Some err \<Rightarrow> Inl err
              | None \<Rightarrow>
                  (let signed = tokenVersion @ ''.'' @ raw_encode URLAlphabet (cx_Marshal C c);
                       signature = cx_Sign C (is_privateKey i) signed
                   in Inr (signed @ ''.'' @ raw_encode URLAlphabet signature, c))))"

record verifier =
  vf_publicKeys :: "string list"
  vf_leeway :: goduration

definition NewVerifierSet :: "string list \<Rightarrow> credential_error + verifier" where
  "NewVerifierSet publicKeys =
     (if publicKeys = [] then Inl ErrInvalidCredential
      else if \<not> list_all (\<lambda>k. length k = PublicKeySize) publicKeys then Inl ErrInvalidCredential
      else Inr \<lparr>vf_publicKeys = publicKeys, vf_leeway = 0\<rparr>)"

definition NewVerifier :: "string \<Rightarrow> credential_error + verifier" where
  "NewVerifier publicKey = NewVerifierSet [publicKey]"

definition WithLeeway :: "goduration \<Rightarrow> verifier option \<Rightarrow> verifier option" where
  "WithLeeway leeway v = map_option (\<lambda>v. v\<lparr>vf_leeway := leeway\<rparr>) v"

definition verifySignature :: "crypto \<Rightarrow> verifier \<Rightarrow> string \<Rightarrow> string \<Rightarrow> bool" where
  "verifySignature C v message signature = list_ex (\<lambda>k. cx_Verify C k message signature) (vf_publicKeys v)"

definition Verify :: "crypto \<Rightarrow> gotime \<Rightarrow> verifier option \<Rightarrow> string \<Rightarrow> credential_error + claims" where
  "Verify C now v token =
     (case v of
        None \<Rightarrow> Inl ErrInvalidCredential
      | Some v \<Rightarrow>
          (let parts = split_all (CHR ''.'') token
           in if length parts \<noteq> 3 \<or> parts ! 0 \<noteq> tokenVersion then Inl ErrInvalidCredential
           else case raw_decode URLAlphabet (parts ! 2) of
               None \<Rightarrow> Inl ErrInvalidCredential
             | Some signature \<Rightarrow>
                 if \<not> verifySignature C v (parts ! 0 @ ''.'' @ parts ! 1) signature then Inl ErrInvalidCredential
                 else case Option.bind (raw_decode URLAlphabet (parts ! 1)) (cx_Unmarshal C) of
                     None \<Rightarrow> Inl ErrInvalidCredential
                   | Some c \<Rightarrow>
                       if Claims_Validate c \<noteq> None then Inl ErrInvalidCredential
                       else if \<not> (time_add now (- vf_leeway v) < from_unix (cl_ExpiresAt c))
                       then Inl ErrExpiredCredential
                       else Inr c))"

definition claims_match :: "claims \<Rightarrow> claims \<Rightarrow> bool" where
  "claims_match actual expected \<longleftrightarrow>
     cl_Namespace actual = cl_Namespace expected \<and> cl_SandboxUID actual = cl_SandboxUID expected \<and>
     cl_TargetKind actual = cl_TargetKind expected \<and> cl_ComponentName actual = cl_ComponentName expected \<and>
     cl_Protocol actual = cl_Protocol expected \<and> cl_TargetPort actual = cl_TargetPort expected \<and>
     cl_FastletPodUID actual = cl_FastletPodUID expected \<and>
     cl_AssignmentAttempt actual = cl_AssignmentAttempt expected \<and>
     cl_RouteGeneration actual = cl_RouteGeneration expected \<and>
     (cl_Tenant expected = [] \<or> cl_Tenant actual = cl_Tenant expected)"

definition VerifyExpected :: "crypto \<Rightarrow> gotime \<Rightarrow> verifier option \<Rightarrow> string \<Rightarrow> claims \<Rightarrow> credential_error + claims" where
  "VerifyExpected C now v token expected =
     (case Verify C now v token of
        Inl err \<Rightarrow> Inl err
      | Inr actual \<Rightarrow> if claims_match actual expected then Inr actual else Inl ErrClaimMismatch)"

section \<open>Keys\<close>

datatype key_error = KeyEncoding | KeyLength | KeySetEmptyEntry

definition decode_key :: "string \<Rightarrow> string option" where
  "decode_key encoded =
     (case raw_decode StdAlphabet (trim_space encoded) of
        Some data \<Rightarrow> Some data | None \<Rightarrow> padded_decode StdAlphabet (trim_space encoded))"

definition ParsePrivateKey :: "crypto \<Rightarrow> string \<Rightarrow> key_error + string" where
  "ParsePrivateKey C encoded =
     (case decode_key encoded of
        None \<Rightarrow> Inl KeyEncoding
      | Some data \<Rightarrow>
          if length data = SeedSize then Inr (cx_NewKeyFromSeed C data)
          else if length data \<noteq> PrivateKeySize then Inl KeyLength else Inr data)"

definition ParsePublicKey :: "string \<Rightarrow> key_error + string" where
  "ParsePublicKey encoded =
     (case decode_key encoded of
        None \<Rightarrow> Inl KeyEncoding
      | Some data \<Rightarrow> if length data \<noteq> PublicKeySize then Inl KeyLength else Inr data)"

fun parse_key_parts :: "string list \<Rightarrow> key_error + string list" where
  "parse_key_parts [] = Inr []"
| "parse_key_parts (part # parts) =
     (if trim_space part = [] then Inl KeySetEmptyEntry
      else case ParsePublicKey part of
          Inl err \<Rightarrow> Inl err
        | Inr key \<Rightarrow> (case parse_key_parts parts of Inl err \<Rightarrow> Inl err | Inr keys \<Rightarrow> Inr (key # keys)))"

definition ParsePublicKeySet :: "string \<Rightarrow> key_error + string list" where
  "ParsePublicKeySet encoded = parse_key_parts (split_all (CHR '','') encoded)"

section \<open>Lemmas\<close>

lemma split_dots:
  assumes "CHR ''.'' \<notin> set a" "CHR ''.'' \<notin> set b" "CHR ''.'' \<notin> set c"
  shows "split_all (CHR ''.'') (a @ ''.'' @ b @ ''.'' @ c) = [a, b, c]"
proof -
  define n where "n = length a + (length b + length c)"
  have "split_n (CHR ''.'') (Suc (Suc (Suc n))) (a @ CHR ''.'' # b @ CHR ''.'' # c) = [a, b, c]"
    using split_n_sep(1)[OF assms(1), of "Suc n" "b @ CHR ''.'' # c"] split_n_sep(1)[OF assms(2), of n c]
      split_n_sep(2)[OF assms(3)]
    by (cases n) simp_all
  then show ?thesis by (simp add: split_all_def n_def del: split_n.simps(3))
qed

lemma Verify_token:
  assumes "CHR ''.'' \<notin> set p" "CHR ''.'' \<notin> set q"
  shows "Verify C now (Some v) (tokenVersion @ ''.'' @ p @ ''.'' @ q) =
    (case raw_decode URLAlphabet q of
       None \<Rightarrow> Inl ErrInvalidCredential
     | Some signature \<Rightarrow>
         if \<not> verifySignature C v (tokenVersion @ ''.'' @ p) signature then Inl ErrInvalidCredential
         else case Option.bind (raw_decode URLAlphabet p) (cx_Unmarshal C) of
             None \<Rightarrow> Inl ErrInvalidCredential
           | Some c \<Rightarrow>
               if Claims_Validate c \<noteq> None then Inl ErrInvalidCredential
               else if \<not> (time_add now (- vf_leeway v) < from_unix (cl_ExpiresAt c)) then Inl ErrExpiredCredential
               else Inr c)"
proof -
  have "CHR ''.'' \<notin> set tokenVersion" by (simp add: tokenVersion_def)
  from split_dots[OF this assms] show ?thesis by (simp add: Verify_def Let_def split: option.split)
qed

lemma from_to_unix:
  assumes "0 \<le> t" "t \<le> max_int64 * second"
  shows "from_unix (to_unix t) = t - t mod second"
proof -
  have "min_int64 \<le> t div second" "t div second \<le> max_int64"
    using assms by (auto simp: min_int64_def max_int64_def second_def pos_imp_zdiv_nonneg_iff)
  then have "wrap64 (t div second) = t div second" by (rule wrap64_id)
  then show ?thesis by (simp add: from_unix_def to_unix_def minus_mod_eq_div_mult)
qed

lemma three_parts: "length parts = 3 \<Longrightarrow> parts = [parts ! 0, parts ! 1, parts ! 2]"
  by (auto simp: numeral_3_eq_3 numeral_2_eq_2 length_Suc_conv)

lemma Verify_ok:
  assumes "Verify C now (Some v) token = Inr c"
  shows "\<exists>payload encoded signature k. split_all (CHR ''.'') token = [tokenVersion, payload, encoded] \<and>
    raw_decode URLAlphabet encoded = Some signature \<and>
    k \<in> set (vf_publicKeys v) \<and> cx_Verify C k (tokenVersion @ ''.'' @ payload) signature \<and>
    Option.bind (raw_decode URLAlphabet payload) (cx_Unmarshal C) = Some c \<and> Claims_Validate c = None \<and>
    time_add now (- vf_leeway v) < from_unix (cl_ExpiresAt c)"
proof -
  let ?p = "split_all (CHR ''.'') token"
  from assms obtain signature where f: "length ?p = 3" "?p ! 0 = tokenVersion" "raw_decode URLAlphabet (?p ! 2) = Some signature"
      "verifySignature C v (?p ! 0 @ ''.'' @ ?p ! 1) signature"
      "Option.bind (raw_decode URLAlphabet (?p ! 1)) (cx_Unmarshal C) = Some c" "Claims_Validate c = None"
      "time_add now (- vf_leeway v) < from_unix (cl_ExpiresAt c)"
    by (auto simp: Verify_def Let_def split: if_splits option.splits)
  have "?p = [tokenVersion, ?p ! 1, ?p ! 2]" using three_parts[OF f(1)] f(2) by simp
  then show ?thesis using f by (auto simp: verifySignature_def list_ex_iff)
qed

lemma VerifyExpected_ok:
  "VerifyExpected C now v token expected = Inr c \<Longrightarrow> Verify C now v token = Inr c \<and> claims_match c expected"
  by (auto simp: VerifyExpected_def split: sum.splits if_splits)

section \<open>Properties\<close>

text \<open>C28: an issued credential verifies until it expires. When \<^verbatim>\<open>Issue\<close> returns a token, every verifier
  that holds the matching public key, among whatever others, returns exactly the issued claims for that
  token, at every time before the expiry plus the verifier's leeway, and an expiry error from then on.
  The hypotheses on the primitives are that the key pair's signatures verify and that the claims survive
  the JSON codec; the time of expiry is neither before 1970 nor beyond the range of \<^verbatim>\<open>int64\<close> seconds.\<close>

theorem issued_credential_verifies:
  assumes "Issue C t nonce (Some i) c = Inr (token, granted)"
    and "\<And>m. cx_Verify C pk m (cx_Sign C (is_privateKey i) m)" and "cx_Unmarshal C (cx_Marshal C granted) = Some granted"
    and "pk \<in> set (vf_publicKeys v)" and "0 \<le> time_add t (is_ttl i)" "time_add t (is_ttl i) \<le> max_int64 * second"
  shows "Verify C now (Some v) token =
      (if now < time_add t (is_ttl i) - time_add t (is_ttl i) mod second + vf_leeway v
       then Inr granted else Inl ErrExpiredCredential) \<and>
    granted = c\<lparr>cl_ExpiresAt := to_unix (time_add t (is_ttl i)), cl_Nonce := raw_encode URLAlphabet nonce\<rparr>"
proof -
  let ?c = "c\<lparr>cl_ExpiresAt := to_unix (time_add t (is_ttl i)), cl_Nonce := raw_encode URLAlphabet nonce\<rparr>"
  let ?p = "raw_encode URLAlphabet (cx_Marshal C ?c)"
  have g: "granted = ?c" "Claims_Validate ?c = None"
      "token = tokenVersion @ ''.'' @ ?p @ ''.'' @
         raw_encode URLAlphabet (cx_Sign C (is_privateKey i) (tokenVersion @ ''.'' @ ?p))"
    using assms(1) by (auto simp: Issue_def Let_def split: option.splits)
  have "verifySignature C v (tokenVersion @ ''.'' @ ?p) (cx_Sign C (is_privateKey i) (tokenVersion @ ''.'' @ ?p))"
    using assms(2,4) by (auto simp: verifySignature_def list_ex_iff)
  moreover have "from_unix (cl_ExpiresAt ?c) = time_add t (is_ttl i) - time_add t (is_ttl i) mod second"
    using from_to_unix[OF assms(5,6)] by simp
  ultimately show ?thesis
    unfolding g(3) Verify_token[OF raw_encode_no_dot raw_encode_no_dot]
    using g(1,2) assms(3) by (auto simp: time_add_def)
qed

definition sample_claims :: claims where
  "sample_claims = \<lparr>cl_Tenant = [], cl_Namespace = ''default'', cl_SandboxUID = ''sb'', cl_TargetKind = TargetKindPort,
     cl_ComponentName = [], cl_Protocol = ''HTTP'', cl_TargetPort = 80, cl_FastletPodUID = ''pod'',
     cl_AssignmentAttempt = 1, cl_RouteGeneration = 3, cl_ExpiresAt = 1000, cl_Nonce = ''bm9uY2U''\<rparr>"

text \<open>A concrete instance of the primitives: a signature is the key followed by the message, and the codec
  knows the sample claims.\<close>

definition sample_crypto :: crypto where
  "sample_crypto = \<lparr>cx_Sign = (\<lambda>k m. k @ m), cx_Verify = (\<lambda>k m s. s = k @ m), cx_NewKeyFromSeed = (\<lambda>seed. seed @ seed),
     cx_Marshal = (\<lambda>_. ''{}''), cx_Unmarshal = (\<lambda>_. Some sample_claims)\<rparr>"

definition sample_time :: gotime where
  "sample_time = (unix_offset + 940) * second"

definition sample_token :: string where
  "sample_token = (case Issue sample_crypto sample_time ''nonce'' (Some \<lparr>is_privateKey = ''key'', is_ttl = 60 * second\<rparr>)
     sample_claims of Inl _ \<Rightarrow> [] | Inr (token, _) \<Rightarrow> token)"

theorem issued_credential_verifies_witness:
  "Verify sample_crypto (sample_time + 59 * second) (Some \<lparr>vf_publicKeys = [''old'', ''key''], vf_leeway = 0\<rparr>) sample_token
   = Inr sample_claims"
proof -
  let ?i = "\<lparr>is_privateKey = ''key'', is_ttl = 60 * second\<rparr>"
  have "sample_claims\<lparr>cl_ExpiresAt := 1000, cl_Nonce := raw_encode URLAlphabet ''nonce''\<rparr> = sample_claims" by code_simp
  moreover have "to_unix (time_add sample_time (60 * second)) = 1000"
    by (simp add: to_unix_def time_add_def sample_time_def unix_offset_def second_def)
  moreover have "Claims_Validate sample_claims = None" by (simp add: Claims_Validate_def sample_claims_def)
  ultimately have "\<exists>token. Issue sample_crypto sample_time ''nonce'' (Some ?i) sample_claims = Inr (token, sample_claims)"
    by (simp add: Issue_def Let_def)
  then have issue: "Issue sample_crypto sample_time ''nonce'' (Some ?i) sample_claims = Inr (sample_token, sample_claims)"
    by (auto simp: sample_token_def)
  let ?v = "\<lparr>vf_publicKeys = [''old'', ''key''], vf_leeway = 0\<rparr>"
  have keys: "cx_Verify sample_crypto ''key'' m (cx_Sign sample_crypto (is_privateKey ?i) m)" for m
    by (simp add: sample_crypto_def)
  have codec: "cx_Unmarshal sample_crypto (cx_Marshal sample_crypto sample_claims) = Some sample_claims"
    by (simp add: sample_crypto_def)
  have expiry: "time_add sample_time (is_ttl ?i) = (unix_offset + 1000) * second"
    by (simp add: time_add_def sample_time_def algebra_simps)
  have "Verify sample_crypto (sample_time + 59 * second) (Some ?v) sample_token =
      (if sample_time + 59 * second < time_add sample_time (is_ttl ?i) - time_add sample_time (is_ttl ?i) mod second + vf_leeway ?v
       then Inr sample_claims else Inl ErrExpiredCredential)"
    by (rule issued_credential_verifies[OF issue keys codec, THEN conjunct1])
      (simp_all add: time_add_def sample_time_def unix_offset_def second_def max_int64_def)
  then show ?thesis unfolding expiry by (simp add: sample_time_def unix_offset_def second_def)
qed

end
