(* ===== verification/Fastlet_Proxy.thy ===== *)
theory Fastlet_Proxy
  imports Route_Store Route_Auth
begin

text \<open>
  The Fastlet Proxy's request handler (\<^verbatim>\<open>internal/dataplane/fastletproxy/proxy.go\<close>): from the path, the
  route store and the credential to a refusal or to the request that is sent upstream. The transport and
  the metrics are left out.
\<close>

section \<open>Requests\<close>

type_synonym headers = "(string, string list) gomap"

definition header_get :: "headers \<Rightarrow> string \<Rightarrow> string" where
  "header_get h name = (case gm_get h name of Some (v # _) \<Rightarrow> v | _ \<Rightarrow> [])"

definition HeaderRouteCredential :: string where
  "HeaderRouteCredential = ''X-Fast-Sandbox-Route-Credential''"

definition HeaderFastletPodUID :: string where
  "HeaderFastletPodUID = ''X-Fast-Sandbox-Fastlet-Pod-Uid''"

definition HeaderAssignmentAttempt :: string where
  "HeaderAssignmentAttempt = ''X-Fast-Sandbox-Assignment-Attempt''"

definition HeaderRouteGeneration :: string where
  "HeaderRouteGeneration = ''X-Fast-Sandbox-Route-Generation''"

definition HeaderForwardedNamespace :: string where
  "HeaderForwardedNamespace = ''X-Fast-Sandbox-Namespace''"

text \<open>\<^verbatim>\<open>pq_Path\<close> is \<^verbatim>\<open>request.URL.Path\<close>.\<close>

record proxy_request =
  pq_Path :: string
  pq_Headers :: headers

record upstream_request =
  ur_Host :: string
  ur_Path :: string
  ur_Headers :: headers

datatype proxy_outcome = ProxyRefused int proxy_error | ProxyForward upstream_request

definition stripRouteHeaders :: "headers \<Rightarrow> headers" where
  "stripRouteHeaders h = gm_del HeaderForwardedNamespace (gm_del HeaderRouteGeneration
     (gm_del HeaderAssignmentAttempt (gm_del HeaderFastletPodUID (gm_del HeaderRouteCredential h))))"

definition RouteHeaders :: "route \<Rightarrow> headers" where
  "RouteHeaders r = gm_put HeaderForwardedNamespace [rt_Namespace (rt_Spec r)]
     (gm_put HeaderRouteGeneration [format_int (rt_gen r)]
       (gm_put HeaderAssignmentAttempt [format_int (rt_AssignmentAttempt (rt_Spec r))]
         (gm_put HeaderFastletPodUID [rt_FastletPodUID (rt_Spec r)] [])))"

definition parseTarget :: "string \<Rightarrow> route_path_error + (string \<times> 32 word \<times> string \<times> string)" where
  "parseTarget path =
     (if has_prefix path ''/v2/sandboxes/''
      then (case ParseComponentRoutePath path of
              Inl err \<Rightarrow> Inl err | Inr (uid, component, suffix) \<Rightarrow> Inr (uid, 0, component, suffix))
      else (case ParseRoutePath path of
              Inl err \<Rightarrow> Inl err | Inr (uid, port, suffix) \<Rightarrow> Inr (uid, port, [], suffix)))"

definition routeCredential :: "string \<Rightarrow> string option" where
  "routeCredential value = (if trim_space value = [] then None else Some (trim_space value))"

definition EqualFold :: "string \<Rightarrow> string \<Rightarrow> bool" where
  "EqualFold a b \<longleftrightarrow> to_lower a = to_lower b"

definition JoinHostPort :: "string \<Rightarrow> string \<Rightarrow> string" where
  "JoinHostPort host port = (if CHR '':'' \<in> set host then ''['' @ host @ '']:'' @ port else host @ '':'' @ port)"

section \<open>The handler\<close>

record proxy =
  px_Store :: "store option"
  px_Verifier :: "verifier option"

definition route_component :: "route \<Rightarrow> string \<Rightarrow> component_route option" where
  "route_component r name = (case rt_Components (rt_Spec r) of None \<Rightarrow> None | Some m \<Rightarrow> gm_get m name)"

text \<open>The port and protocol of the target: from the path, or from the route's component.\<close>

definition resolve_target :: "route \<Rightarrow> 32 word \<Rightarrow> string \<Rightarrow> proxy_outcome + (32 word \<times> string)" where
  "resolve_target r port name =
     (if name = [] then Inr (port, ''HTTP'')
      else case route_component r name of
          None \<Rightarrow> Inl (ProxyRefused 404 ProxyErrorComponentNotFound)
        | Some component \<Rightarrow>
            if \<not> EqualFold (cr_Protocol component) ''HTTP'' then Inl (ProxyRefused 501 ProxyErrorComponentNotReady)
            else Inr (cr_Port component, cr_Protocol component))"

definition expected_claims :: "route \<Rightarrow> 32 word \<Rightarrow> string \<Rightarrow> string \<Rightarrow> claims" where
  "expected_claims r port name protocol =
     \<lparr>cl_Tenant = [], cl_Namespace = rt_Namespace (rt_Spec r), cl_SandboxUID = rt_uid r,
      cl_TargetKind = (if name = [] then TargetKindPort else TargetKindComponent), cl_ComponentName = name,
      cl_Protocol = protocol, cl_TargetPort = port, cl_FastletPodUID = rt_FastletPodUID (rt_Spec r),
      cl_AssignmentAttempt = rt_AssignmentAttempt (rt_Spec r), cl_RouteGeneration = rt_gen r,
      cl_ExpiresAt = 0, cl_Nonce = []\<rparr>"

definition dial :: "route \<Rightarrow> 32 word \<Rightarrow> string \<Rightarrow> headers \<Rightarrow> proxy_outcome" where
  "dial r port suffix h =
     (case ad_Kind (rt_Access (rt_Spec r)) of
        AccessKindDirectIP \<Rightarrow>
          if ParseIP (ad_Address (rt_Access (rt_Spec r))) = None then ProxyRefused 501 ProxyErrorRouteUnavailable
          else ProxyForward \<lparr>ur_Host = JoinHostPort (ad_Address (rt_Access (rt_Spec r))) (format_uint (unat port)),
                 ur_Path = suffix, ur_Headers = stripRouteHeaders h\<rparr>
      | AccessKindOther _ \<Rightarrow> ProxyRefused 501 ProxyErrorRouteUnavailable)"

definition ServeHTTP :: "crypto \<Rightarrow> gotime \<Rightarrow> proxy \<Rightarrow> proxy_request \<Rightarrow> proxy_outcome" where
  "ServeHTTP C now p request =
     (case parseTarget (pq_Path request) of
        Inl _ \<Rightarrow> ProxyRefused 400 ProxyErrorRouteUnavailable
      | Inr (uid, port, name, suffix) \<Rightarrow>
          (case (px_Store p, px_Verifier p) of
             (Some s, Some v) \<Rightarrow>
               (case Lookup uid s of
                  Inl err \<Rightarrow> ProxyRefused (if err = ErrRouteDraining then 503 else 404) ProxyErrorRouteUnavailable
                | Inr r \<Rightarrow>
                    (case resolve_target r port name of
                       Inl refused \<Rightarrow> refused
                     | Inr (port, protocol) \<Rightarrow>
                         (case routeCredential (header_get (pq_Headers request) HeaderRouteCredential) of
                            None \<Rightarrow> ProxyRefused 401 ProxyErrorCredentialRejected
                          | Some token \<Rightarrow>
                              (case VerifyExpected C now (Some v) token (expected_claims r port name protocol) of
                                 Inl _ \<Rightarrow> ProxyRefused 403 ProxyErrorCredentialRejected
                               | Inr _ \<Rightarrow> dial r port suffix (pq_Headers request)))))
           | _ \<Rightarrow> ProxyRefused 503 ProxyErrorRouteUnavailable))"

section \<open>Lemmas\<close>

lemma ServeHTTP_forward:
  assumes "ServeHTTP C now p request = ProxyForward u"
  obtains uid port name suffix s v r port' protocol token c where
    "parseTarget (pq_Path request) = Inr (uid, port, name, suffix)" "px_Store p = Some s" "px_Verifier p = Some v"
    "Lookup uid s = Inr r" "resolve_target r port name = Inr (port', protocol)"
    "routeCredential (header_get (pq_Headers request) HeaderRouteCredential) = Some token"
    "VerifyExpected C now (Some v) token (expected_claims r port' name protocol) = Inr c"
    "dial r port' suffix (pq_Headers request) = ProxyForward u"
proof -
  have "\<exists>uid port name suffix s v r port' protocol token c.
    parseTarget (pq_Path request) = Inr (uid, port, name, suffix) \<and> px_Store p = Some s \<and> px_Verifier p = Some v \<and>
    Lookup uid s = Inr r \<and> resolve_target r port name = Inr (port', protocol) \<and>
    routeCredential (header_get (pq_Headers request) HeaderRouteCredential) = Some token \<and>
    VerifyExpected C now (Some v) token (expected_claims r port' name protocol) = Inr c \<and>
    dial r port' suffix (pq_Headers request) = ProxyForward u"
    using assms
    by (auto simp: ServeHTTP_def resolve_target_def split: sum.splits option.splits prod.splits if_splits)
  then show ?thesis using that by blast
qed

lemma header_names_distinct:
  "HeaderRouteCredential \<noteq> HeaderFastletPodUID" "HeaderRouteCredential \<noteq> HeaderAssignmentAttempt"
  "HeaderRouteCredential \<noteq> HeaderRouteGeneration" "HeaderRouteCredential \<noteq> HeaderForwardedNamespace"
  by (simp_all add: HeaderRouteCredential_def HeaderFastletPodUID_def HeaderAssignmentAttempt_def
      HeaderRouteGeneration_def HeaderForwardedNamespace_def)

lemma stripRouteHeaders_get:
  "gm_get (stripRouteHeaders h) name = (if name \<in> {HeaderRouteCredential, HeaderFastletPodUID, HeaderAssignmentAttempt,
     HeaderRouteGeneration, HeaderForwardedNamespace} then None else gm_get h name)"
  by (simp add: stripRouteHeaders_def)

section \<open>Properties\<close>

text \<open>C3: nothing reaches a Sandbox without a current credential for exactly that target. When the proxy,
  with a reachable store, forwards a request, then the credential header consists of a version, a payload
  and a signature with which one of the proxy's keys has signed the payload; the claims in the payload are
  complete and have not expired by more than the leeway, and they name this Sandbox, its namespace, Fastlet
  Pod, assignment attempt, component and port, the protocol HTTP, and the route generation that is the
  newest the store knows. The request goes to the route's own address at the signed port, and none of the
  five routing headers is passed on.\<close>

theorem forwarded_request_authorised:
  assumes "ServeHTTP C now p request = ProxyForward u" "px_Store p = Some s" "px_Verifier p = Some v" "store_reachable s"
  shows "\<exists>uid port name suffix r c payload encoded signature key.
    parseTarget (pq_Path request) = Inr (uid, port, name, suffix) \<and> Lookup uid s = Inr r \<and>
    split_all (CHR ''.'') (trim_space (header_get (pq_Headers request) HeaderRouteCredential)) = [tokenVersion, payload, encoded] \<and>
    raw_decode URLAlphabet encoded = Some signature \<and>
    key \<in> set (vf_publicKeys v) \<and> cx_Verify C key (tokenVersion @ ''.'' @ payload) signature \<and>
    Option.bind (raw_decode URLAlphabet payload) (cx_Unmarshal C) = Some c \<and> Claims_Validate c = None \<and>
    now - vf_leeway v < from_unix (cl_ExpiresAt c) \<and>
    cl_SandboxUID c = uid \<and> cl_Namespace c = rt_Namespace (rt_Spec r) \<and>
    cl_FastletPodUID c = rt_FastletPodUID (rt_Spec r) \<and> cl_AssignmentAttempt c = rt_AssignmentAttempt (rt_Spec r) \<and>
    cl_RouteGeneration c = high_water s uid \<and> cl_ComponentName c = name \<and>
    EqualFold (cl_Protocol c) ''HTTP'' \<and> (name = [] \<longrightarrow> cl_TargetPort c = port) \<and>
    ur_Host u = JoinHostPort (ad_Address (rt_Access (rt_Spec r))) (format_uint (unat (cl_TargetPort c))) \<and>
    ur_Path u = suffix \<and> (\<forall>h \<in> {HeaderRouteCredential, HeaderFastletPodUID, HeaderAssignmentAttempt,
      HeaderRouteGeneration, HeaderForwardedNamespace}. gm_get (ur_Headers u) h = None)"
proof -
  from assms(1) obtain uid port name suffix s' v' r port' protocol token c where
    f: "parseTarget (pq_Path request) = Inr (uid, port, name, suffix)" "px_Store p = Some s'" "px_Verifier p = Some v'"
      "Lookup uid s' = Inr r" "resolve_target r port name = Inr (port', protocol)"
      "routeCredential (header_get (pq_Headers request) HeaderRouteCredential) = Some token"
      "VerifyExpected C now (Some v') token (expected_claims r port' name protocol) = Inr c"
      "dial r port' suffix (pq_Headers request) = ProxyForward u"
    by (rule ServeHTTP_forward)
  have same: "s' = s" "v' = v" using f(2,3) assms(2,3) by simp_all
  note ok = VerifyExpected_ok[OF f(7)]
  then obtain payload encoded signature key where k: "split_all (CHR ''.'') token = [tokenVersion, payload, encoded]"
      "raw_decode URLAlphabet encoded = Some signature" "key \<in> set (vf_publicKeys v)"
      "cx_Verify C key (tokenVersion @ ''.'' @ payload) signature"
      "Option.bind (raw_decode URLAlphabet payload) (cx_Unmarshal C) = Some c" "Claims_Validate c = None"
      "time_add now (- vf_leeway v) < from_unix (cl_ExpiresAt c)"
    using Verify_ok[of C now v' token c] same by blast
  have load: "loadRoute s uid = Some r" using f(4) same by (auto simp: Lookup_def split: option.splits if_splits)
  then have route: "rt_uid r = uid" "rt_gen r = high_water s uid"
    using store_wf_route[OF store_reachable_wf[OF assms(4)] load] by (simp_all add: route_wf_def)
  have token: "trim_space (header_get (pq_Headers request) HeaderRouteCredential) = token"
    using f(6) by (simp add: routeCredential_def split: if_splits)
  have "EqualFold protocol ''HTTP''" using f(5) by (auto simp: resolve_target_def EqualFold_def split: if_splits option.splits)
  moreover have "name = [] \<longrightarrow> port' = port" using f(5) by (auto simp: resolve_target_def)
  moreover have "ur_Host u = JoinHostPort (ad_Address (rt_Access (rt_Spec r))) (format_uint (unat port'))"
      "ur_Path u = suffix" "ur_Headers u = stripRouteHeaders (pq_Headers request)"
    using f(8) by (auto simp: dial_def split: access_kind.splits if_splits)
  ultimately show ?thesis
    using f(1,4) same k ok route token
    by - (rule exI[of _ uid], rule exI[of _ port], rule exI[of _ name], rule exI[of _ suffix], rule exI[of _ r], rule exI[of _ c],
      rule exI[of _ payload], rule exI[of _ encoded], rule exI[of _ signature], rule exI[of _ key],
      simp add: claims_match_def expected_claims_def stripRouteHeaders_get time_add_def)
qed

definition sample_proxy :: "store \<Rightarrow> proxy" where
  "sample_proxy s = \<lparr>px_Store = Some s, px_Verifier = Some \<lparr>vf_publicKeys = [''old'', ''key''], vf_leeway = 0\<rparr>\<rparr>"

definition sample_proxy_request :: proxy_request where
  "sample_proxy_request = \<lparr>pq_Path = ''/v1/sandboxes/sb/ports/80/x'', pq_Headers = [(HeaderRouteCredential, [sample_token])]\<rparr>"

lemma sample_forward:
  "ServeHTTP sample_crypto sample_time (sample_proxy sample_store) sample_proxy_request =
     ProxyForward \<lparr>ur_Host = ''172.30.0.2:80'', ur_Path = ''/x'', ur_Headers = []\<rparr>"
  by code_simp

theorem forwarded_request_authorised_witness:
  "\<exists>c. cl_SandboxUID c = ''sb'' \<and> cl_RouteGeneration c = high_water sample_store ''sb'' \<and> Claims_Validate c = None"
proof -
  have "px_Store (sample_proxy sample_store) = Some sample_store"
    "px_Verifier (sample_proxy sample_store) = Some \<lparr>vf_publicKeys = [''old'', ''key''], vf_leeway = 0\<rparr>"
    by (simp_all add: sample_proxy_def)
  from forwarded_request_authorised[OF sample_forward this sample_store_reachable]
  obtain uid port name suffix c where "parseTarget (pq_Path sample_proxy_request) = Inr (uid, port, name, suffix)"
      "cl_SandboxUID c = uid" "cl_RouteGeneration c = high_water sample_store uid" "Claims_Validate c = None"
    by blast
  moreover have "parseTarget (pq_Path sample_proxy_request) = Inr (''sb'', 80, [], ''/x'')" by code_simp
  ultimately show ?thesis by auto
qed

text \<open>C22: removing a route revokes its credentials. Once a route has been deleted at a generation, then
  after any further calls on the store, a request for that Sandbox is forwarded only with a credential
  for a newer generation; a credential for the deleted generation or an older one is never accepted
  again, however long it is still valid.\<close>

theorem deleted_route_revokes_credentials:
  assumes "store_reachable s" "Delete uid g s = (Inr w, s1)" "store_step\<^sup>*\<^sup>* s1 s2"
    and "ServeHTTP C now p request = ProxyForward u" "px_Store p = Some s2"
    and "parseTarget (pq_Path request) = Inr (uid, port, name, suffix)"
  shows "\<exists>token v c. routeCredential (header_get (pq_Headers request) HeaderRouteCredential) = Some token \<and>
    px_Verifier p = Some v \<and> Verify C now (Some v) token = Inr c \<and> g < cl_RouteGeneration c"
proof -
  from assms(4) obtain uid' port0 name' suffix' s' v r port' protocol token c where
    f: "parseTarget (pq_Path request) = Inr (uid', port0, name', suffix')" "px_Store p = Some s'" "px_Verifier p = Some v"
      "Lookup uid' s' = Inr r"
      "routeCredential (header_get (pq_Headers request) HeaderRouteCredential) = Some token"
      "VerifyExpected C now (Some v) token (expected_claims r port' name' protocol) = Inr c"
    by (rule ServeHTTP_forward)
  then have "loadRoute s2 uid = Some r"
    using assms(5,6) by (auto simp: Lookup_def split: option.splits if_splits)
  then have "g < rt_gen r" by (rule deleted_generation_gone[OF assms(1-3)])
  moreover have "Verify C now (Some v) token = Inr c" "cl_RouteGeneration c = rt_gen r"
    using VerifyExpected_ok[OF f(6)] by (simp_all add: claims_match_def expected_claims_def)
  ultimately show ?thesis using f(3,5) by auto
qed

theorem deleted_route_revokes_credentials_witness:
  "let s = snd (Delete ''sb'' 2 NewStore) in
     \<exists>token v c. routeCredential (header_get (pq_Headers sample_proxy_request) HeaderRouteCredential) = Some token \<and>
       px_Verifier (sample_proxy (snd (Apply (sample_route ''sb'' 3) s))) = Some v \<and>
       Verify sample_crypto sample_time (Some v) token = Inr c \<and> 2 < cl_RouteGeneration c"
proof -
  let ?s = "snd (Delete ''sb'' 2 NewStore)" and ?s2 = "snd (Apply (sample_route ''sb'' 3) (snd (Delete ''sb'' 2 NewStore)))"
  have new: "store_reachable NewStore" by (simp add: store_reachable_def)
  have "fst (Delete ''sb'' 2 NewStore) = Inr 1" by code_simp
  then have del: "Delete ''sb'' 2 NewStore = (Inr 1, ?s)" by (metis prod.collapse)
  have step: "store_step\<^sup>*\<^sup>* ?s ?s2" by (rule r_into_rtranclp) (rule store_step.apply_route)
  have fwd: "ServeHTTP sample_crypto sample_time (sample_proxy ?s2) sample_proxy_request =
     ProxyForward \<lparr>ur_Host = ''172.30.0.2:80'', ur_Path = ''/x'', ur_Headers = []\<rparr>" by code_simp
  have path: "parseTarget (pq_Path sample_proxy_request) = Inr (''sb'', 80, [], ''/x'')" by code_simp
  have "px_Store (sample_proxy ?s2) = Some ?s2" by (simp add: sample_proxy_def)
  from deleted_route_revokes_credentials[OF new del step fwd this path] show ?thesis unfolding Let_def .
qed

text \<open>The proxy decodes the Sandbox UID and the component name twice. The path it parses is already
  decoded by the HTTP server, and the parser decodes the segment once more: the printed path of the
  Sandbox \<^verbatim>\<open>a%41\<close>, decoded once as the server does, is routed to the Sandbox \<^verbatim>\<open>aA\<close>.\<close>

lemma parseTarget_decodes_twice:
  "PathUnescape (RoutePath ''a%41'' 80) = Some ''/v1/sandboxes/a%41/ports/80'' \<and>
   parseTarget ''/v1/sandboxes/a%41/ports/80'' = Inr (''aA'', 80, [], ''/'')"
  by code_simp

end
