(* ===== verification/Memory_Observer.thy ===== *)
theory Memory_Observer
  imports Fastlet_Protocol Go_Text
begin

text \<open>
  The Fastlet's memory observer (\<^verbatim>\<open>internal/fastlet/resourceadmission\<close>): the state machine of
  \<^verbatim>\<open>observer.go\<close> that opens and blocks admission, and the parsing of the cgroup and \<^verbatim>\<open>/proc\<close> files of
  \<^verbatim>\<open>cgroup.go\<close> that feeds it. A \<^verbatim>\<open>float64\<close> is a rational number; quotients are rounded.
\<close>

section \<open>Configuration\<close>

record sample =
  sp_MemoryCurrentBytes :: "64 word"
  sp_MemoryLimitBytes :: "64 word"
  sp_OOMKills :: "64 word"
  sp_MemoryPSIAvg10 :: rat
  sp_HostAvailableRatio :: rat
  sp_HostMemoryObserved :: bool

record observer_config =
  oc_Interval :: goduration
  oc_HighWatermark :: rat
  oc_LowWatermark :: rat
  oc_HighSamples :: int
  oc_RecoverySamples :: int
  oc_PSIAvg10Threshold :: rat
  oc_NodeLowWatermark :: rat
  oc_NodeRecoveryWatermark :: rat

definition DefaultConfig :: observer_config where
  "DefaultConfig = \<lparr>oc_Interval = 2 * second, oc_HighWatermark = f64 (9 / 10), oc_LowWatermark = f64 (8 / 10),
     oc_HighSamples = 3, oc_RecoverySamples = 5, oc_PSIAvg10Threshold = 10, oc_NodeLowWatermark = f64 (5 / 100),
     oc_NodeRecoveryWatermark = f64 (10 / 100)\<rparr>"

definition Config_Validate :: "observer_config \<Rightarrow> bool" where
  "Config_Validate c \<longleftrightarrow>
     \<not> (oc_Interval c \<le> 0 \<or> oc_HighWatermark c \<le> 0 \<or> oc_HighWatermark c > 1 \<or> oc_LowWatermark c < 0 \<or>
        oc_LowWatermark c \<ge> oc_HighWatermark c) \<and>
     \<not> (oc_HighSamples c \<le> 0 \<or> oc_RecoverySamples c \<le> 0 \<or> oc_PSIAvg10Threshold c < 0) \<and>
     \<not> (oc_NodeLowWatermark c < 0 \<or> oc_NodeRecoveryWatermark c < oc_NodeLowWatermark c \<or>
        oc_NodeRecoveryWatermark c > 1)"

section \<open>State machine\<close>

record observer =
  ob_config :: observer_config
  ob_state :: admission_state
  ob_reason :: admission_reason
  ob_highSamples :: int
  ob_recoverySamples :: int
  ob_lastOOMKills :: "64 word"
  ob_initialized :: bool

definition NewObserver :: "observer_config \<Rightarrow> observer option" where
  "NewObserver c =
     (if Config_Validate c
      then Some \<lparr>ob_config = c, ob_state = AdmissionStateUnknown, ob_reason = AdmissionReasonTelemetryMissing,
        ob_highSamples = 0, ob_recoverySamples = 0, ob_lastOOMKills = 0, ob_initialized = False\<rparr>
      else None)"

text \<open>\<^verbatim>\<open>accepts\<close> says whether the state setter accepts a change.\<close>

definition transition :: "bool \<Rightarrow> admission_state \<Rightarrow> admission_reason \<Rightarrow> observer \<Rightarrow> observer" where
  "transition accepts state reason ob =
     (if ob_state ob = state \<and> ob_reason ob = reason then ob
      else if \<not> accepts then ob
      else ob\<lparr>ob_state := state, ob_reason := reason\<rparr>)"

definition usageRatio :: "sample \<Rightarrow> rat" where
  "usageRatio s = f64_div (f64_of_int (uint (sp_MemoryCurrentBytes s))) (f64_of_int (uint (sp_MemoryLimitBytes s)))"

definition reset_counters :: "observer \<Rightarrow> observer" where
  "reset_counters ob = ob\<lparr>ob_highSamples := 0, ob_recoverySamples := 0\<rparr>"

definition usable :: "observer_config \<Rightarrow> sample option \<Rightarrow> bool" where
  "usable c sample =
     (case sample of
        None \<Rightarrow> False
      | Some s \<Rightarrow> \<not> (sp_MemoryLimitBytes s = 0 \<or>
          ((oc_NodeLowWatermark c > 0 \<or> oc_NodeRecoveryWatermark c > 0) \<and> \<not> sp_HostMemoryObserved s)))"

text \<open>\<^verbatim>\<open>observe\<close> with what \<^verbatim>\<open>Read\<close> returned, \<^verbatim>\<open>None\<close> for an error.\<close>

definition observe_valid :: "bool \<Rightarrow> sample \<Rightarrow> observer \<Rightarrow> observer" where
  "observe_valid accepts s ob =
     (let c = ob_config ob;
          firstValidSample = \<not> ob_initialized ob;
          oomIncreased = (ob_initialized ob \<and> sp_OOMKills s > ob_lastOOMKills ob);
          ob = ob\<lparr>ob_lastOOMKills := sp_OOMKills s, ob_initialized := True\<rparr>
      in if oomIncreased
         then transition accepts AdmissionStateBlocked AdmissionReasonFastletOOMEvent (reset_counters ob)
         else if oc_NodeLowWatermark c > 0 \<and> sp_HostAvailableRatio s \<le> oc_NodeLowWatermark c
         then transition accepts AdmissionStateBlocked AdmissionReasonHostMemoryPressure (reset_counters ob)
         else if oc_PSIAvg10Threshold c > 0 \<and> sp_MemoryPSIAvg10 s \<ge> oc_PSIAvg10Threshold c
         then transition accepts AdmissionStateBlocked AdmissionReasonFastletMemoryPSI (reset_counters ob)
         else if usageRatio s \<ge> oc_HighWatermark c
         then let ob = ob\<lparr>ob_highSamples := ob_highSamples ob + 1, ob_recoverySamples := 0\<rparr>
              in if ob_highSamples ob \<ge> oc_HighSamples c
                 then transition accepts AdmissionStateBlocked AdmissionReasonFastletMemoryHighWatermark ob else ob
         else let ob = ob\<lparr>ob_highSamples := 0\<rparr>
              in if usageRatio s \<le> oc_LowWatermark c \<and>
                    (oc_NodeRecoveryWatermark c = 0 \<or> sp_HostAvailableRatio s \<ge> oc_NodeRecoveryWatermark c)
                 then let ob = ob\<lparr>ob_recoverySamples := ob_recoverySamples ob + 1\<rparr>
                      in if firstValidSample \<or> ob_recoverySamples ob \<ge> oc_RecoverySamples c
                         then transition accepts AdmissionStateOpen no_reason ob else ob
                 else ob\<lparr>ob_recoverySamples := 0\<rparr>)"

definition observe :: "bool \<Rightarrow> sample option \<Rightarrow> observer \<Rightarrow> observer" where
  "observe accepts sample ob =
     (case sample of
        Some s \<Rightarrow> if usable (ob_config ob) sample then observe_valid accepts s ob
          else reset_counters (transition accepts AdmissionStateUnknown AdmissionReasonTelemetryMissing ob)
      | None \<Rightarrow> reset_counters (transition accepts AdmissionStateUnknown AdmissionReasonTelemetryMissing ob))"

text \<open>\<^verbatim>\<open>SandboxManager.SetResourceAdmissionState\<close>: the setter the Fastlet installs, on the two fields it
  writes. It accepts every state the observer uses.\<close>

definition SetResourceAdmissionState ::
    "admission_state \<Rightarrow> admission_reason \<Rightarrow> (admission_state \<times> admission_reason) option" where
  "SetResourceAdmissionState state reason =
     (case state of
        AdmissionStateOpen \<Rightarrow> Some (state, no_reason)
      | AdmissionStateBlocked \<Rightarrow> Some (state, reason)
      | AdmissionStateUnknown \<Rightarrow> Some (state, reason)
      | _ \<Rightarrow> None)"

section \<open>Reading the cgroup\<close>

text \<open>What opening and reading a file gives.\<close>

datatype file_data = FileMissing | FileError | FileContent string

text \<open>\<^verbatim>\<open>bufio.Scanner\<close> over lines: a trailing carriage return is dropped, and nothing follows the last
  line break; no line of these files reaches the 64 KiB at which a scanner gives up.\<close>

definition drop_cr :: "string \<Rightarrow> string" where
  "drop_cr line = (if line \<noteq> [] \<and> (of_char (last line) :: nat) = 13 then butlast line else line)"

definition scan_lines :: "string \<Rightarrow> string list" where
  "scan_lines data =
     (let lines = split_all (CHR 0x0A) data
      in map drop_cr (if lines \<noteq> [] \<and> last lines = [] then butlast lines else lines))"

definition readUintFile :: "file_data \<Rightarrow> 64 word option" where
  "readUintFile f = (case f of FileContent data \<Rightarrow> map_option of_nat (parse_uint 64 (trim_space data)) | _ \<Rightarrow> None)"

fun key_values :: "string list \<Rightarrow> (string, 64 word) gomap \<Rightarrow> (string, 64 word) gomap option" where
  "key_values [] values = Some values"
| "key_values (line # lines) values =
     (case Fields line of
        [key, text] \<Rightarrow>
          (case parse_uint 64 text of
             None \<Rightarrow> None
           | Some n \<Rightarrow> key_values lines (gm_put key (of_nat n) values))
      | _ \<Rightarrow> key_values lines values)"

definition readKeyValues :: "file_data \<Rightarrow> (string, 64 word) gomap option" where
  "readKeyValues f = (case f of FileContent data \<Rightarrow> key_values (scan_lines data) [] | _ \<Rightarrow> None)"

text \<open>\<^verbatim>\<open>parseFloat\<close> is \<^verbatim>\<open>strconv.ParseFloat\<close> on finite numbers.\<close>

fun psi_fields :: "(string \<Rightarrow> rat option) \<Rightarrow> string list \<Rightarrow> rat option option" where
  "psi_fields parseFloat [] = None"
| "psi_fields parseFloat (field # rest) =
     (if has_prefix field ''avg10='' then Some (parseFloat (trim_prefix field ''avg10='')) else psi_fields parseFloat rest)"

fun psi_lines :: "(string \<Rightarrow> rat option) \<Rightarrow> string list \<Rightarrow> rat option" where
  "psi_lines parseFloat [] = Some 0"
| "psi_lines parseFloat (line # lines) =
     (case Fields line of
        [] \<Rightarrow> psi_lines parseFloat lines
      | first # rest \<Rightarrow>
          if first \<noteq> ''some'' then psi_lines parseFloat lines
          else case psi_fields parseFloat rest of None \<Rightarrow> psi_lines parseFloat lines | Some result \<Rightarrow> result)"

text \<open>A missing pressure file is not an error and counts as no pressure.\<close>

definition readPSIAvg10 :: "(string \<Rightarrow> rat option) \<Rightarrow> file_data \<Rightarrow> rat option" where
  "readPSIAvg10 parseFloat f =
     (case f of FileContent data \<Rightarrow> psi_lines parseFloat (scan_lines data) | FileMissing \<Rightarrow> Some 0 | FileError \<Rightarrow> None)"

fun meminfo_values :: "string list \<Rightarrow> (string, 64 word) gomap \<Rightarrow> (string, 64 word) gomap option" where
  "meminfo_values [] values = Some values"
| "meminfo_values (line # lines) values =
     (case Fields line of
        key # text # _ \<Rightarrow>
          (case parse_uint 64 text of
             None \<Rightarrow> None
           | Some n \<Rightarrow> meminfo_values lines (gm_put key (of_nat n) values))
      | _ \<Rightarrow> meminfo_values lines values)"

definition readNodeAvailableRatio :: "file_data \<Rightarrow> (rat \<times> bool) option" where
  "readNodeAvailableRatio f =
     (case f of
        FileMissing \<Rightarrow> Some (0, False)
      | FileError \<Rightarrow> None
      | FileContent data \<Rightarrow>
          (case meminfo_values (scan_lines data) [] of
             None \<Rightarrow> None
           | Some values \<Rightarrow>
               (case (gm_get values ''MemTotal:'', gm_get values ''MemAvailable:'') of
                  (Some capacity, Some available) \<Rightarrow>
                    if capacity = 0 then Some (0, False)
                    else Some (f64_div (f64_of_int (uint available)) (f64_of_int (uint capacity)), True)
                | _ \<Rightarrow> Some (0, False))))"

record cgroup_files =
  cf_current :: file_data
  cf_max :: file_data
  cf_events :: file_data
  cf_pressure :: file_data
  cf_meminfo :: file_data

definition memory_limit :: "64 word \<Rightarrow> file_data \<Rightarrow> 64 word option" where
  "memory_limit fallbackLimit f =
     (case f of
        FileContent data \<Rightarrow>
          (let text = trim_space data
           in case (if text \<noteq> ''max'' then map_option of_nat (parse_uint 64 text) else Some fallbackLimit) of
                None \<Rightarrow> None
              | Some limit \<Rightarrow>
                  (let limit = (if fallbackLimit > 0 \<and> limit > fallbackLimit then fallbackLimit else limit)
                   in if limit = 0 then None else Some limit))
      | _ \<Rightarrow> None)"

definition Read :: "(string \<Rightarrow> rat option) \<Rightarrow> 64 word \<Rightarrow> cgroup_files \<Rightarrow> sample option" where
  "Read parseFloat fallbackLimit fs =
     (case readUintFile (cf_current fs) of None \<Rightarrow> None
      | Some current \<Rightarrow>
          (case memory_limit fallbackLimit (cf_max fs) of None \<Rightarrow> None
           | Some limit \<Rightarrow>
               (case readKeyValues (cf_events fs) of None \<Rightarrow> None
                | Some events \<Rightarrow>
                    (case readPSIAvg10 parseFloat (cf_pressure fs) of None \<Rightarrow> None
                     | Some psi \<Rightarrow>
                         (case readNodeAvailableRatio (cf_meminfo fs) of None \<Rightarrow> None
                          | Some (nodeAvailable, observed) \<Rightarrow>
                              Some \<lparr>sp_MemoryCurrentBytes = current, sp_MemoryLimitBytes = limit,
                                sp_OOMKills = (case gm_get events ''oom_kill'' of None \<Rightarrow> 0 | Some n \<Rightarrow> n),
                                sp_MemoryPSIAvg10 = psi, sp_HostAvailableRatio = nodeAvailable,
                                sp_HostMemoryObserved = observed\<rparr>)))))"

section \<open>Lemmas\<close>

text \<open>A sample that was read has a limit, and never one above the runtime limit.\<close>

lemma Read_limit:
  assumes "Read parseFloat fallback fs = Some s"
  shows "sp_MemoryLimitBytes s \<noteq> 0 \<and> (fallback > 0 \<longrightarrow> sp_MemoryLimitBytes s \<le> fallback)"
proof -
  obtain limit where "memory_limit fallback (cf_max fs) = Some limit" "sp_MemoryLimitBytes s = limit"
    using assms by (auto simp: Read_def split: option.splits)
  then show ?thesis by (auto simp: memory_limit_def Let_def split: file_data.splits option.splits if_splits)
qed

text \<open>The verdicts on one sample, given the last OOM count.\<close>

definition alarming :: "observer_config \<Rightarrow> sample \<Rightarrow> bool" where
  "alarming c s \<longleftrightarrow> oc_NodeLowWatermark c > 0 \<and> sp_HostAvailableRatio s \<le> oc_NodeLowWatermark c \<or>
     oc_PSIAvg10Threshold c > 0 \<and> sp_MemoryPSIAvg10 s \<ge> oc_PSIAvg10Threshold c"

definition high :: "observer_config \<Rightarrow> sample \<Rightarrow> bool" where
  "high c s \<longleftrightarrow> usageRatio s \<ge> oc_HighWatermark c"

definition good :: "observer_config \<Rightarrow> sample \<Rightarrow> bool" where
  "good c s \<longleftrightarrow> \<not> alarming c s \<and> usageRatio s \<le> oc_LowWatermark c \<and>
     (oc_NodeRecoveryWatermark c = 0 \<or> sp_HostAvailableRatio s \<ge> oc_NodeRecoveryWatermark c)"

definition observe_all :: "sample option list \<Rightarrow> observer \<Rightarrow> observer" where
  "observe_all xs ob = fold (observe True) xs ob"

lemma observe_all_snoc [simp]: "observe_all (xs @ [x]) ob = observe True x (observe_all xs ob)"
  by (simp add: observe_all_def)

lemma transition_simps [simp]:
  "ob_config (transition a st rs ob) = ob_config ob" "ob_highSamples (transition a st rs ob) = ob_highSamples ob"
  "ob_recoverySamples (transition a st rs ob) = ob_recoverySamples ob"
  "ob_lastOOMKills (transition a st rs ob) = ob_lastOOMKills ob"
  "ob_initialized (transition a st rs ob) = ob_initialized ob" "ob_state (transition True st rs ob) = st"
  by (simp_all add: transition_def)

lemma reset_counters_simps [simp]:
  "ob_config (reset_counters ob) = ob_config ob" "ob_highSamples (reset_counters ob) = 0"
  "ob_recoverySamples (reset_counters ob) = 0" "ob_lastOOMKills (reset_counters ob) = ob_lastOOMKills ob"
  "ob_initialized (reset_counters ob) = ob_initialized ob" "ob_state (reset_counters ob) = ob_state ob"
  by (simp_all add: reset_counters_def)

text \<open>One observation as one of five cases.\<close>

lemma observe_cases:
  assumes "c = ob_config ob"
  obtains (unusable) "\<not> usable c x" "ob_state (observe True x ob) = AdmissionStateUnknown"
      "ob_highSamples (observe True x ob) = 0" "ob_recoverySamples (observe True x ob) = 0"
      "ob_initialized (observe True x ob) = ob_initialized ob" "ob_lastOOMKills (observe True x ob) = ob_lastOOMKills ob"
  | (alarm) s where "x = Some s" "usable c x" "alarming c s \<or> ob_initialized ob \<and> ob_lastOOMKills ob < sp_OOMKills s"
      "ob_state (observe True x ob) = AdmissionStateBlocked"
      "ob_highSamples (observe True x ob) = 0" "ob_recoverySamples (observe True x ob) = 0"
      "ob_initialized (observe True x ob)" "ob_lastOOMKills (observe True x ob) = sp_OOMKills s"
  | (high) s where "x = Some s" "usable c x" "\<not> alarming c s" "ob_initialized ob \<longrightarrow> sp_OOMKills s \<le> ob_lastOOMKills ob" "high c s"
      "ob_state (observe True x ob) =
         (if ob_highSamples ob + 1 \<ge> oc_HighSamples c then AdmissionStateBlocked else ob_state ob)"
      "ob_highSamples (observe True x ob) = ob_highSamples ob + 1" "ob_recoverySamples (observe True x ob) = 0"
      "ob_initialized (observe True x ob)" "ob_lastOOMKills (observe True x ob) = sp_OOMKills s"
  | (good) s where "x = Some s" "usable c x" "good c s" "ob_initialized ob \<longrightarrow> sp_OOMKills s \<le> ob_lastOOMKills ob" "\<not> high c s"
      "ob_state (observe True x ob) = (if \<not> ob_initialized ob \<or> ob_recoverySamples ob + 1 \<ge> oc_RecoverySamples c
         then AdmissionStateOpen else ob_state ob)"
      "ob_highSamples (observe True x ob) = 0" "ob_recoverySamples (observe True x ob) = ob_recoverySamples ob + 1"
      "ob_initialized (observe True x ob)" "ob_lastOOMKills (observe True x ob) = sp_OOMKills s"
  | (between) s where "x = Some s" "usable c x" "\<not> alarming c s" "ob_initialized ob \<longrightarrow> sp_OOMKills s \<le> ob_lastOOMKills ob"
      "\<not> high c s" "ob_state (observe True x ob) = ob_state ob"
      "ob_highSamples (observe True x ob) = 0" "ob_recoverySamples (observe True x ob) = 0"
      "ob_initialized (observe True x ob)" "ob_lastOOMKills (observe True x ob) = sp_OOMKills s"
proof (cases "usable c x")
  case False
  then show ?thesis using assms by (intro unusable) (auto simp: observe_def split: option.split)
next
  case True
  then obtain s where x: "x = Some s" by (auto simp: usable_def split: option.splits)
  have o: "observe True (Some s) ob = observe_valid True s ob" using True assms x by (simp add: observe_def)
  show ?thesis
  proof (cases "alarming c s \<or> ob_initialized ob \<and> ob_lastOOMKills ob < sp_OOMKills s")
    case al: True
    then show ?thesis using x True assms
      by (intro alarm[of s]) (auto simp: o observe_valid_def alarming_def Let_def)
  next
    case calm: False
    then have oom: "ob_initialized ob \<longrightarrow> sp_OOMKills s \<le> ob_lastOOMKills ob" by auto
    consider (hi) "high c s" | (gd) "\<not> high c s" "good c s" | (bt) "\<not> high c s" "\<not> good c s" by blast
    then show ?thesis
    proof cases
      case hi
      then show ?thesis using x True assms calm oom
        by (intro high[of s]) (auto simp: o observe_valid_def alarming_def high_def Let_def)
    next
      case gd
      then show ?thesis using x True assms calm oom
        by (intro good[of s]) (auto simp: o observe_valid_def alarming_def high_def good_def Let_def)
    next
      case bt
      then show ?thesis using x True assms calm oom
        by (intro between[of s]) (auto simp: o observe_valid_def alarming_def high_def good_def Let_def)
    qed
  qed
qed

lemma observe_config [simp]: "ob_config (observe a x ob) = ob_config ob"
  by (simp add: observe_def observe_valid_def Let_def split: option.split)

lemma observe_all_config [simp]: "ob_config (observe_all xs ob) = ob_config ob"
  by (induction xs rule: rev_induct) (simp_all add: observe_all_def)

text \<open>What the counters and the memory of an observer say about the samples so far.\<close>

definition is_good :: "observer_config \<Rightarrow> sample option \<Rightarrow> bool" where
  "is_good c x \<longleftrightarrow> usable c x \<and> (case x of None \<Rightarrow> False | Some s \<Rightarrow> good c s)"

definition is_high :: "observer_config \<Rightarrow> sample option \<Rightarrow> bool" where
  "is_high c x \<longleftrightarrow> usable c x \<and> (case x of None \<Rightarrow> False | Some s \<Rightarrow> high c s)"

definition last_kills :: "observer_config \<Rightarrow> sample option list \<Rightarrow> 64 word option" where
  "last_kills c xs = map_option sp_OOMKills (Option.bind (find (usable c) (rev xs)) id)"

definition tracks :: "observer_config \<Rightarrow> sample option list \<Rightarrow> observer \<Rightarrow> bool" where
  "tracks c xs ob \<longleftrightarrow>
     last_kills c xs = (if ob_initialized ob then Some (ob_lastOOMKills ob) else None) \<and>
     0 \<le> ob_recoverySamples ob \<and> ob_recoverySamples ob \<le> int (length (takeWhile (is_good c) (rev xs))) \<and>
     (ob_state ob = AdmissionStateOpen \<longrightarrow>
        ob_highSamples ob = int (length (takeWhile (is_high c) (rev xs))) \<and> ob_highSamples ob < oc_HighSamples c)"

lemma last_kills_snoc:
  "last_kills c (xs @ [x]) = (if usable c x then map_option sp_OOMKills x else last_kills c xs)"
  by (simp add: last_kills_def)

lemma good_not_high: "Config_Validate c \<Longrightarrow> good c s \<Longrightarrow> \<not> high c s"
  by (auto simp: good_def high_def Config_Validate_def)

lemma observe_tracks:
  assumes "Config_Validate c" "ob_config ob = c" "tracks c xs ob"
  shows "tracks c (xs @ [x]) (observe True x ob)"
proof -
  have c: "c = ob_config ob" "0 < oc_HighSamples c" using assms(1,2) by (auto simp: Config_Validate_def)
  show ?thesis
    by (rule observe_cases[OF c(1), of x])
      (use assms(3) c(2) good_not_high[OF assms(1)] in
        \<open>auto simp: tracks_def last_kills_snoc is_good_def is_high_def split: if_splits\<close>)
qed

lemma observe_all_tracks:
  assumes "NewObserver c = Some ob"
  shows "tracks c xs (observe_all xs ob)" "ob_config (observe_all xs ob) = c" "Config_Validate c"
proof -
  have ob: "Config_Validate c" "ob_config ob = c" "ob_state ob = AdmissionStateUnknown" "\<not> ob_initialized ob"
      "ob_recoverySamples ob = 0" "ob_highSamples ob = 0"
    using assms by (auto simp: NewObserver_def split: if_splits)
  show "tracks c xs (observe_all xs ob)"
  proof (induction xs rule: rev_induct)
    case Nil
    then show ?case using ob by (simp add: observe_all_def tracks_def last_kills_def)
  next
    case (snoc x xs)
    then show ?case using observe_tracks[OF ob(1)] ob(2) by simp
  qed
  show "ob_config (observe_all xs ob) = c" "Config_Validate c" using ob by simp_all
qed

section \<open>Properties\<close>

text \<open>C33: admission is open only while memory is safe. After any sequence of readings, failed ones
  included, an observer that reports \<^verbatim>\<open>Open\<close> has just read a usable sample in which the host has more
  memory available than the low watermark and the pressure is below the threshold, the number of OOM
  kills has not risen since the usable reading before, and fewer than the configured number of the
  latest readings in a row were at or above the high watermark.\<close>

theorem open_only_when_safe:
  assumes "NewObserver c = Some ob" "ob_state (observe_all (xs @ [x]) ob) = AdmissionStateOpen"
  shows "\<exists>s. x = Some s \<and> usable c x \<and> \<not> alarming c s \<and>
    (\<forall>k. last_kills c xs = Some k \<longrightarrow> sp_OOMKills s \<le> k) \<and>
    int (length (takeWhile (is_high c) (rev (xs @ [x])))) < oc_HighSamples c"
proof -
  let ?o = "observe_all xs ob"
  have c: "c = ob_config ?o" using observe_all_tracks(2)[OF assms(1)] by simp
  have after: "int (length (takeWhile (is_high c) (rev (xs @ [x])))) < oc_HighSamples c"
    using observe_all_tracks(1)[OF assms(1), of "xs @ [x]"] assms(2) by (simp add: tracks_def)
  have kills: "last_kills c xs = (if ob_initialized ?o then Some (ob_lastOOMKills ?o) else None)"
    using observe_all_tracks(1)[OF assms(1), of xs] by (simp add: tracks_def)
  show ?thesis
    by (rule observe_cases[OF c, of x]) (use assms(2) after kills in \<open>auto simp: good_def split: if_splits\<close>)
qed

definition sample_observer_config :: observer_config where
  "sample_observer_config = \<lparr>oc_Interval = second, oc_HighWatermark = 9 / 10, oc_LowWatermark = 8 / 10, oc_HighSamples = 3,
     oc_RecoverySamples = 2, oc_PSIAvg10Threshold = 10, oc_NodeLowWatermark = 0, oc_NodeRecoveryWatermark = 0\<rparr>"

definition calm_sample :: sample where
  "calm_sample = \<lparr>sp_MemoryCurrentBytes = 0, sp_MemoryLimitBytes = 1, sp_OOMKills = 0, sp_MemoryPSIAvg10 = 0,
     sp_HostAvailableRatio = 1, sp_HostMemoryObserved = True\<rparr>"

lemma calm_simps:
  "usageRatio calm_sample = 0" "sp_MemoryLimitBytes calm_sample = 1" "sp_OOMKills calm_sample = 0"
  "sp_MemoryPSIAvg10 calm_sample = 0" "sp_HostMemoryObserved calm_sample" "sp_HostAvailableRatio calm_sample = 1"
  by (simp_all add: usageRatio_def calm_sample_def f64_div_def f64_of_int_def)

definition fresh_observer :: observer where
  "fresh_observer = \<lparr>ob_config = sample_observer_config, ob_state = AdmissionStateUnknown,
     ob_reason = AdmissionReasonTelemetryMissing, ob_highSamples = 0, ob_recoverySamples = 0, ob_lastOOMKills = 0,
     ob_initialized = False\<rparr>"

lemma sample_observer: "NewObserver sample_observer_config = Some fresh_observer"
  by (simp add: NewObserver_def Config_Validate_def fresh_observer_def sample_observer_config_def second_def)

lemmas observe_eval = observe_all_def observe_def observe_valid_def usable_def calm_simps sample_observer_config_def
  transition_def reset_counters_def Let_def

theorem open_only_when_safe_witness:
  "\<exists>s. Some calm_sample = Some s \<and> \<not> alarming sample_observer_config s"
proof -
  have "ob_state (observe_all ([] @ [Some calm_sample]) fresh_observer) = AdmissionStateOpen"
    by (simp add: observe_eval fresh_observer_def)
  from open_only_when_safe[OF sample_observer this] show ?thesis by blast
qed

text \<open>C34: reopening takes the configured number of good readings in a row. When an observer that is not
  open becomes open, either the reading is the first usable one ever, or that reading and the ones
  before it, as many as the configuration asks for, were all usable, at or below the low watermark, with
  host memory at or above the recovery watermark and without pressure.\<close>

theorem reopening_needs_recovery:
  assumes "NewObserver c = Some ob" "ob_state (observe_all xs ob) \<noteq> AdmissionStateOpen"
    "ob_state (observe_all (xs @ [x]) ob) = AdmissionStateOpen"
  shows "is_good c x \<and> (last_kills c xs = None \<or>
    oc_RecoverySamples c \<le> int (length (takeWhile (is_good c) (rev (xs @ [x])))))"
proof -
  let ?o = "observe_all xs ob"
  have c: "c = ob_config ?o" using observe_all_tracks(2)[OF assms(1)] by simp
  have t: "tracks c xs ?o" using observe_all_tracks(1)[OF assms(1)] .
  show ?thesis
    by (rule observe_cases[OF c, of x]) (use assms(2,3) t in \<open>auto simp: tracks_def is_good_def split: if_splits\<close>)
qed

theorem reopening_needs_recovery_witness:
  "2 \<le> int (length (takeWhile (is_good sample_observer_config)
     (rev ([Some calm_sample, None, Some calm_sample] @ [Some calm_sample]))))"
proof -
  let ?xs = "[Some calm_sample, None, Some calm_sample]"
  have closed: "ob_state (observe_all ?xs fresh_observer) \<noteq> AdmissionStateOpen"
    by (simp add: observe_eval fresh_observer_def)
  have opened: "ob_state (observe_all (?xs @ [Some calm_sample]) fresh_observer) = AdmissionStateOpen"
    by (simp add: observe_eval fresh_observer_def)
  have "last_kills sample_observer_config ?xs \<noteq> None" "oc_RecoverySamples sample_observer_config = 2"
    by (simp_all add: last_kills_def usable_def sample_observer_config_def calm_sample_def)
  then show ?thesis using reopening_needs_recovery[OF sample_observer closed opened] by metis
qed

end
