(* ===== verification/Go_Path.thy ===== *)
theory Go_Path
  imports Go_Text
begin

text \<open>
  The path functions of \<^verbatim>\<open>path/filepath\<close> on Unix that the program uses, and \<^verbatim>\<open>hex.EncodeToString\<close>.
\<close>

section \<open>Paths\<close>

text \<open>\<^verbatim>\<open>filepath.Clean\<close> keeps a stack of path elements; the top is the head of the list.\<close>

fun push_element :: "bool \<Rightarrow> string list \<Rightarrow> string \<Rightarrow> string list" where
  "push_element rooted out c =
     (if c = [] \<or> c = ''.'' then out
      else if c = ''..''
      then (case out of
              [] \<Rightarrow> if rooted then [] else [''..'']
            | t # rest \<Rightarrow> if t = ''..'' then ''..'' # out else rest)
      else c # out)"

definition Clean :: "string \<Rightarrow> string" where
  "Clean path =
     (let rooted = has_prefix path ''/'';
          out = foldl (push_element rooted) [] (split_all (CHR ''/'') path);
          text = (if rooted then ''/'' else []) @ join ''/'' (rev out)
      in if text = [] then ''.'' else text)"

definition Join :: "string list \<Rightarrow> string" where
  "Join elements = (case dropWhile (\<lambda>e. e = []) elements of [] \<Rightarrow> [] | rest \<Rightarrow> Clean (join ''/'' rest))"

definition Dir :: "string \<Rightarrow> string" where
  "Dir path = Clean (rev (dropWhile (\<lambda>c. c \<noteq> CHR ''/'') (rev path)))"

definition Ext :: "string \<Rightarrow> string" where
  "Ext path =
     (let name = rev (takeWhile (\<lambda>c. c \<noteq> CHR ''/'') (rev path))
      in if CHR ''.'' \<in> set name then CHR ''.'' # rev (takeWhile (\<lambda>c. c \<noteq> CHR ''.'') (rev name)) else [])"

section \<open>Hexadecimal text\<close>

definition hex_lower :: "nat \<Rightarrow> char" where
  "hex_lower n = (if n < 10 then digit_char n else char_of (of_char (CHR ''a'') + n - 10))"

definition hex_encode :: "8 word list \<Rightarrow> string" where
  "hex_encode bytes = concat (map (\<lambda>b. [hex_lower (unat b div 16), hex_lower (unat b mod 16)]) bytes)"

lemma length_hex_encode [simp]: "length (hex_encode bytes) = 2 * length bytes"
  by (induction bytes) (simp_all add: hex_encode_def)

end
