(* ===== verification/Network_Slot.thy ===== *)
theory Network_Slot
  imports Data_Plane Go_Path
begin

text \<open>
  Network slots and their files: the types of \<^verbatim>\<open>internal/fastlet/network/types.go\<close> and the durable store of
  \<^verbatim>\<open>state_store.go\<close>.
\<close>

section \<open>Types\<close>

text \<open>A value of the typed string \<^verbatim>\<open>SlotPhase\<close> read from a file may be none of the three constants.\<close>

datatype slot_phase = SlotPhaseClean | SlotPhaseBound | SlotPhaseDestroying | SlotPhaseOther string

record owner =
  ow_SandboxUID :: string
  ow_SandboxName :: string
  ow_SandboxNamespace :: string
  ow_InstanceGeneration :: int
  ow_RuntimeInstanceID :: string
  ow_AssignmentAttempt :: int
  ow_ResidualProcess :: string

definition no_owner :: owner where
  "no_owner = \<lparr>ow_SandboxUID = [], ow_SandboxName = [], ow_SandboxNamespace = [], ow_InstanceGeneration = 0,
     ow_RuntimeInstanceID = [], ow_AssignmentAttempt = 0, ow_ResidualProcess = []\<rparr>"

definition Owner_Equal :: "owner \<Rightarrow> owner \<Rightarrow> bool" where
  "Owner_Equal o1 o2 \<longleftrightarrow> ow_SandboxUID o1 = ow_SandboxUID o2 \<and>
     ow_InstanceGeneration o1 = ow_InstanceGeneration o2 \<and>
     ow_RuntimeInstanceID o1 = ow_RuntimeInstanceID o2 \<and>
     ow_AssignmentAttempt o1 = ow_AssignmentAttempt o2"

record slot =
  sl_Version :: int
  sl_ID :: string
  sl_OwnerPodUID :: string
  sl_OwnerPodName :: string
  sl_OwnerNamespace :: string
  sl_Phase :: slot_phase
  sl_Owner :: owner
  sl_NetNSName :: string
  sl_NetNSPath :: string
  sl_HostNetNSPath :: string
  sl_HostVeth :: string
  sl_PeerVeth :: string
  sl_Bridge :: string
  sl_GuestTap :: string
  sl_GuestIP :: string
  sl_GuestNATBatch :: bool
  sl_Address :: string
  sl_IP :: string
  sl_Gateway :: string
  sl_PrivateCIDR :: string
  sl_DNSPath :: string
  sl_MTU :: int
  sl_EgressDevice :: string
  sl_Access :: access_descriptor
  sl_CreatedAt :: gotime
  sl_BoundAt :: "gotime option"

definition no_access :: access_descriptor where
  "no_access = \<lparr>ad_Kind = AccessKindOther [], ad_Address = [], ad_NetNSPath = []\<rparr>"

datatype net_error = ErrNoCleanSlot | ErrSlotNotFound | ErrOwnerConflict | ErrStateInconsistent
  | ErrInvalidOwner | ErrStore | ErrDriver | ErrIDGenerator | ErrInvalidSlotID | ErrDuplicateSlotID

text \<open>What a driver may change in a slot it prepares.\<close>

definition prepares :: "slot \<Rightarrow> slot \<Rightarrow> bool" where
  "prepares s t \<longleftrightarrow> t = s\<lparr>sl_EgressDevice := sl_EgressDevice t, sl_GuestTap := sl_GuestTap t, sl_GuestNATBatch := sl_GuestNATBatch t\<rparr>"

lemma prepares_refl [simp]: "prepares s s"
  by (simp add: prepares_def)

lemma prepares_fields:
  assumes "prepares s t"
  shows "sl_ID t = sl_ID s" "sl_IP t = sl_IP s" "sl_Phase t = sl_Phase s" "sl_Owner t = sl_Owner s"
  using assms by (cases s; cases t; simp add: prepares_def)+

section \<open>The durable store\<close>

text \<open>
  A directory maps file names to what reading and decoding the file gives. Writing a slot and reading it
  back gives the same slot: \<^verbatim>\<open>encoding/json\<close> is inverse to itself on these structs.
\<close>

datatype state_file = StateDirectory | Unreadable | Undecodable | StateSlot slot

type_synonym state_dir = "(string, state_file) gomap"

definition safeSlotID :: "string \<Rightarrow> bool" where
  "safeSlotID s \<longleftrightarrow> s \<noteq> [] \<and> is_alnum (hd s) \<and> (\<forall>c \<in> set (tl s). is_alnum c \<or> c \<in> set ''_.-'') \<and> length s \<le> 128"

definition state_name :: "string \<Rightarrow> string" where
  "state_name slotID = slotID @ ''.json''"

text \<open>
  How a call that writes ends: it works, it fails before anything is visible, or it fails after the rename
  or removal, when the directory cannot be synchronised.
\<close>

datatype outcome = Done | Failed | FailedAfter

definition Save :: "outcome \<Rightarrow> slot \<Rightarrow> state_dir \<Rightarrow> bool \<times> state_dir" where
  "Save out s dir =
     (if out = Failed then (False, dir)
      else if \<not> safeSlotID (sl_ID s) then (False, dir)
      else (out = Done, gm_put (state_name (sl_ID s)) (StateSlot s) dir))"

definition Store_Delete :: "outcome \<Rightarrow> string \<Rightarrow> state_dir \<Rightarrow> bool \<times> state_dir" where
  "Store_Delete out slotID dir =
     (if out = Failed then (False, dir)
      else if \<not> safeSlotID slotID then (False, dir)
      else if gm_get dir (state_name slotID) = None then (True, dir)
      else (out = Done, gm_del (state_name slotID) dir))"

text \<open>The names of entries are sorted. A directory that does not exist gives what an empty one gives.\<close>

fun load_entries :: "(string \<times> state_file) list \<Rightarrow> slot list option" where
  "load_entries [] = Some []"
| "load_entries ((name, entry) # rest) =
     (if entry = StateDirectory \<or> Ext name \<noteq> ''.json'' then load_entries rest
      else case entry of
          StateSlot s \<Rightarrow>
            if \<not> safeSlotID (sl_ID s) \<or> name \<noteq> state_name (sl_ID s) then None
            else map_option ((#) s) (load_entries rest)
        | _ \<Rightarrow> None)"

definition LoadAll :: "outcome \<Rightarrow> state_dir \<Rightarrow> slot list option" where
  "LoadAll out dir = (if out \<noteq> Done then None else load_entries (sort_slice (\<lambda>a b. fst a < fst b) dir))"

end
