(* ===== verification/Network_IPAM.thy ===== *)
theory Network_IPAM
  imports Go_Net
begin

text \<open>
  Address management of the Fastlet network: the IPv4 allocator of \<^verbatim>\<open>internal/fastlet/network/ipam.go\<close>
  and the check for overlapping routes of \<^verbatim>\<open>cidr_conflict.go\<close>.
\<close>

section \<open>The allocator\<close>

text \<open>After the checks of the constructor all addresses are IPv4; \<^verbatim>\<open>None\<close> is the invalid zero address.\<close>

record ipv4_ipam =
  im_prefix :: "32 word \<times> nat"
  im_gateway :: "32 word option"
  im_guest :: "32 word option"

datatype ipam_error = CIDRMalformed | CIDRNotIPv4 | CIDRTooSmall | CIDRNoGuest

definition Next_addr :: "32 word option \<Rightarrow> 32 word option" where
  "Next_addr a = Option.bind a Next4"

definition Contains_addr :: "32 word \<times> nat \<Rightarrow> 32 word option \<Rightarrow> bool" where
  "Contains_addr p a = (case a of None \<Rightarrow> False | Some a \<Rightarrow> Contains4 p a)"

definition newIPv4IPAM :: "string \<Rightarrow> bool \<Rightarrow> ipam_error + ipv4_ipam" where
  "newIPv4IPAM cidr reserveGuest =
     (case ParsePrefix cidr of
        None \<Rightarrow> Inl CIDRMalformed
      | Some prefix \<Rightarrow>
          (case Masked prefix of
             (Addr6 _ _, _) \<Rightarrow> Inl CIDRNotIPv4
           | (Addr4 base, bits) \<Rightarrow>
               if bits > 29 then Inl CIDRTooSmall
               else let gateway = Next4 base;
                        guest = (if reserveGuest then Next_addr (Next_addr gateway) else None)
                    in if reserveGuest \<and> \<not> Contains_addr (base, bits) guest then Inl CIDRNoGuest
                       else Inr \<lparr>im_prefix = (base, bits), im_gateway = gateway, im_guest = guest\<rparr>))"

definition NewIPv4IPAM :: "string \<Rightarrow> ipam_error + ipv4_ipam" where
  "NewIPv4IPAM cidr = newIPv4IPAM cidr False"

definition NewGuestVMIPAM :: "string \<Rightarrow> ipam_error + ipv4_ipam" where
  "NewGuestVMIPAM cidr = newIPv4IPAM cidr True"

definition ipam_CIDR :: "ipv4_ipam \<Rightarrow> string" where
  "ipam_CIDR i = Prefix4_String (im_prefix i)"

definition ipam_Gateway :: "ipv4_ipam \<Rightarrow> string" where
  "ipam_Gateway i = (case im_gateway i of None \<Rightarrow> ''invalid IP'' | Some g \<Rightarrow> String4 g)"

definition ipam_GatewayPrefix :: "ipv4_ipam \<Rightarrow> string" where
  "ipam_GatewayPrefix i =
     (case im_gateway i of None \<Rightarrow> ''invalid Prefix'' | Some g \<Rightarrow> Prefix4_String (g, snd (im_prefix i)))"

lemma Next4_unat: "Next4 a = Some b \<Longrightarrow> unat b = Suc (unat a)"
  by (auto simp: Next4_def split: if_splits) (metis add.commute unatSuc)

text \<open>The loop of \<^verbatim>\<open>Allocate\<close>; \<^verbatim>\<open>used\<close> are the keys of the map of used addresses.\<close>

function allocate_from :: "ipv4_ipam \<Rightarrow> string list \<Rightarrow> 32 word option \<Rightarrow> (string \<times> string) option" where
  "allocate_from i used None = None"
| "allocate_from i used (Some address) =
     (if \<not> Contains4 (im_prefix i) address then None
      else if \<not> Contains_addr (im_prefix i) (Next4 address) then None
      else if im_guest i = Some address then allocate_from i used (Next4 address)
      else if String4 address \<in> set used then allocate_from i used (Next4 address)
      else Some (String4 address, Prefix4_String (address, snd (im_prefix i))))"
  by pat_completeness auto

termination
proof (relation "measure (\<lambda>(i, used, a). case a of None \<Rightarrow> 0 | Some a \<Rightarrow> Suc (2 ^ 32 - unat a))", goal_cases)
  case 1
  show ?case by simp
next
  case (2 i used address)
  then show ?case using Next4_unat[of address] unsigned_less[of address, where 'a = nat] by (auto split: option.split)
next
  case (3 i used address)
  then show ?case using Next4_unat[of address] unsigned_less[of address, where 'a = nat] by (auto split: option.split)
qed

definition Allocate :: "ipv4_ipam \<Rightarrow> string list \<Rightarrow> (string \<times> string) option" where
  "Allocate i used = allocate_from i used (Next_addr (im_gateway i))"

section \<open>Overlapping routes\<close>

text \<open>The device is the field after the first \<^verbatim>\<open>dev\<close>.\<close>

fun routeDevice :: "string list \<Rightarrow> string" where
  "routeDevice (f # g # rest) = (if f = ''dev'' then g else routeDevice (g # rest))"
| "routeDevice _ = []"

definition parseRouteDestination :: "string \<Rightarrow> ip_prefix option" where
  "parseRouteDestination field =
     (case ParsePrefix field of
        Some (Addr4 a, bits) \<Rightarrow> Some (Masked (Addr4 a, bits))
      | _ \<Rightarrow> (case ParseAddr field of Some (Addr4 a) \<Rightarrow> Some (Addr4 a, 32) | _ \<Rightarrow> None))"

definition prefixesOverlap :: "ip_prefix \<Rightarrow> ip_prefix \<Rightarrow> bool" where
  "prefixesOverlap a b \<longleftrightarrow> Prefix_Contains a (fst b) \<or> Prefix_Contains b (fst a)"

definition route_conflicts :: "ip_prefix \<Rightarrow> string \<Rightarrow> string \<Rightarrow> bool" where
  "route_conflicts slotPrefix bridgeDevice line =
     (case Fields line of
        [] \<Rightarrow> False
      | dest # rest \<Rightarrow>
          if dest = ''default'' then False
          else if routeDevice (dest # rest) = bridgeDevice then False
          else case parseRouteDestination dest of
              None \<Rightarrow> False
            | Some routePrefix \<Rightarrow> prefixesOverlap slotPrefix routePrefix)"

datatype overlap_result = NoOverlap | OverlapCIDRMalformed | OverlapNotIPv4 | RoutesUnreadable | Overlaps "string list"

text \<open>\<^verbatim>\<open>output\<close> is what \<^verbatim>\<open>ip -4 route show\<close> printed, \<^verbatim>\<open>None\<close> when it failed.\<close>

definition DetectCIDROverlap :: "string \<Rightarrow> string \<Rightarrow> string option \<Rightarrow> overlap_result" where
  "DetectCIDROverlap cidr bridgeDevice output =
     (case ParsePrefix cidr of
        None \<Rightarrow> OverlapCIDRMalformed
      | Some slotPrefix \<Rightarrow>
          if \<not> Is4 (fst slotPrefix) then OverlapNotIPv4
          else case output of
              None \<Rightarrow> RoutesUnreadable
            | Some text \<Rightarrow>
                (let conflicts = map trim_space
                       (filter (route_conflicts (Masked slotPrefix) bridgeDevice) (split_all (CHR 0x0A) text))
                 in if conflicts = [] then NoOverlap else Overlaps conflicts))"

section \<open>Lemmas\<close>

lemma unat_plus_one_zero: "a + 1 = 0 \<Longrightarrow> Suc (unat (a :: 32 word)) = 2 ^ 32"
proof -
  assume "a + 1 = 0"
  then have "a = - 1" by (simp add: eq_neg_iff_add_eq_0)
  then show ?thesis by (simp add: unsigned_minus_1_eq_mask mask_eq_exp_minus_1)
qed

lemma Contains4_between:
  assumes "Contains4 p a" "Contains4 p c" "a \<le> b" "b \<le> c"
  shows "Contains4 p b"
proof (cases p)
  case (Pair base bits)
  have "unat a \<le> unat b" "unat b \<le> unat c" using assms(3,4) by (simp_all add: word_le_nat_alt)
  then have "unat a div 2 ^ (32 - bits) \<le> unat b div 2 ^ (32 - bits)"
      "unat b div 2 ^ (32 - bits) \<le> unat c div 2 ^ (32 - bits)" by (simp_all add: div_le_mono)
  then show ?thesis using assms(1,2) by (simp add: Pair Contains4_iff)
qed

text \<open>The addresses that may be given to slots.\<close>

definition slot_address :: "ipv4_ipam \<Rightarrow> 32 word \<Rightarrow> bool" where
  "slot_address i a \<longleftrightarrow> Contains4 (im_prefix i) a \<and> Contains_addr (im_prefix i) (Next4 a) \<and>
     (\<exists>g. im_gateway i = Some g \<and> g < a) \<and> im_guest i \<noteq> Some a"

lemma unat_clear_low: "unat (clear_low k (a :: 32 word)) = unat a div 2 ^ k * 2 ^ k"
proof -
  have "unat a div 2 ^ k * 2 ^ k \<le> unat a" by simp
  also have "unat a < 2 ^ 32" using unsigned_less[of a, where 'a = nat] by simp
  finally have "take_bit 32 (unat a div 2 ^ k * 2 ^ k) = unat a div 2 ^ k * 2 ^ k" by (rule take_bit_nat_eq_self)
  then show ?thesis
    unfolding clear_low_def unsigned_push_bit_eq unat_drop_bit_eq by (simp add: push_bit_eq_mult drop_bit_eq_div)
qed

lemma newIPv4IPAM_gateway:
  assumes "newIPv4IPAM cidr r = Inr i"
  obtains g where "im_gateway i = Some g" "Contains4 (im_prefix i) g"
proof -
  obtain base0 bits where b: "bits \<le> 29" "im_prefix i = (clear_low (32 - bits) base0, bits)"
      "im_gateway i = Next4 (clear_low (32 - bits) base0)"
    using assms by (auto simp: newIPv4IPAM_def Masked_def Let_def split: option.splits addr.splits if_splits)
  let ?m = "2 ^ (32 - bits) :: nat" and ?b = "clear_low (32 - bits) base0"
  have base: "unat ?b = unat base0 div ?m * ?m" by (rule unat_clear_low)
  have "(2 :: nat) ^ 3 \<le> ?m" using b(1) by (intro power_increasing) simp_all
  then have m: "1 < ?m" by simp
  have "Suc (unat ?b) \<noteq> 2 ^ 32"
  proof
    assume "Suc (unat ?b) = 2 ^ 32"
    moreover have "?m dvd 2 ^ 32" by (rule le_imp_power_dvd) simp
    moreover have "?m dvd unat ?b" by (simp add: base)
    ultimately have "?m dvd 1" by (metis Suc_eq_plus1 dvd_add_right_iff)
    then show False using m by simp
  qed
  then have ne: "?b + 1 \<noteq> 0" using unat_plus_one_zero by blast
  then have "unat (?b + 1) = Suc (unat ?b)" using Next4_unat[of ?b] by (simp add: Next4_def)
  moreover have "Suc (q * ?m) div ?m = q" for q using m by (intro div_nat_eqI) simp_all
  ultimately have "unat (?b + 1) div ?m = unat ?b div ?m" using m by (simp add: base)
  then show ?thesis using that[of "?b + 1"] b(2,3) ne by (simp add: Next4_def Contains4_iff)
qed

lemma Next4_least: "Next4 a = Some b \<Longrightarrow> a < c \<longleftrightarrow> b \<le> c"
  using Next4_unat[of a b] by (simp add: word_less_nat_alt word_le_nat_alt Suc_le_eq)

lemma Next4_None: "Next4 a = None \<Longrightarrow> \<not> a < c"
  using unat_plus_one_zero[of a] unsigned_less[of c, where 'a = nat]
  by (auto simp: Next4_def word_less_nat_alt split: if_splits)

text \<open>From an address above the gateway on, the loop finds the least free slot address.\<close>

definition least_free :: "ipv4_ipam \<Rightarrow> string list \<Rightarrow> 32 word option \<Rightarrow> (string \<times> string) option \<Rightarrow> bool" where
  "least_free i used start res \<longleftrightarrow>
     (case res of
        None \<Rightarrow> (\<forall>b. slot_address i b \<and> (\<exists>a. start = Some a \<and> a \<le> b) \<longrightarrow> String4 b \<in> set used)
      | Some (ip, address) \<Rightarrow>
          (\<exists>a. slot_address i a \<and> ip = String4 a \<and> address = Prefix4_String (a, snd (im_prefix i)) \<and> ip \<notin> set used \<and>
             (\<forall>b. slot_address i b \<and> (\<exists>a0. start = Some a0 \<and> a0 \<le> b) \<and> b < a \<longrightarrow> String4 b \<in> set used)))"

lemma least_free_skip:
  assumes "least_free i used (Next4 a) res" "\<not> slot_address i a \<or> String4 a \<in> set used"
  shows "least_free i used (Some a) res"
proof -
  have "b = a \<or> (\<exists>n. Next4 a = Some n \<and> n \<le> b)" if "a \<le> b" for b
    using that Next4_least[of a] Next4_None[of a b] by (cases "Next4 a") (auto simp: order_le_less)
  then show ?thesis using assms unfolding least_free_def by (auto split: option.splits)
qed

lemma allocate_from_least:
  assumes "im_gateway i = Some g" "Contains4 (im_prefix i) g" "\<And>a. start = Some a \<Longrightarrow> g < a"
  shows "least_free i used start (allocate_from i used start)"
  using assms
proof (induction i used start rule: allocate_from.induct)
  case (1 i used)
  then show ?case by (simp add: least_free_def)
next
  case (2 i used a)
  have above: "g < a" using 2 by simp
  have next_above: "g < n" if "Next4 a = Some n" for n
    using that above Next4_least[of a n n] by (meson order.refl order.strict_trans)
  have inside: "Contains4 (im_prefix i) b" if "slot_address i c" "g \<le> b" "b \<le> c" for b c
    using Contains4_between[OF 2(4) _ that(2,3)] that(1) by (simp add: slot_address_def)
  consider (out) "\<not> Contains4 (im_prefix i) a" | (broadcast) "Contains4 (im_prefix i) a" "\<not> Contains_addr (im_prefix i) (Next4 a)"
    | (guest) "Contains4 (im_prefix i) a" "Contains_addr (im_prefix i) (Next4 a)" "im_guest i = Some a"
    | (taken) "Contains4 (im_prefix i) a" "Contains_addr (im_prefix i) (Next4 a)" "im_guest i \<noteq> Some a" "String4 a \<in> set used"
    | (free) "Contains4 (im_prefix i) a" "Contains_addr (im_prefix i) (Next4 a)" "im_guest i \<noteq> Some a" "String4 a \<notin> set used"
    by blast
  then show ?case
  proof cases
    case out
    then show ?thesis using inside above by (auto simp: least_free_def)
  next
    case broadcast
    have "\<not> slot_address i b" if "a \<le> b" for b
    proof
      assume b: "slot_address i b"
      then have "a < b" using that broadcast(2) by (auto simp: slot_address_def order_le_less)
      then obtain n where "Next4 a = Some n" "n \<le> b" using Next4_None[of a b] Next4_least[of a] by (cases "Next4 a") auto
      then show False using broadcast(2) inside[OF b, of n] next_above[of n] by (simp add: Contains_addr_def order_less_imp_le)
    qed
    then show ?thesis using broadcast by (auto simp: least_free_def)
  next
    case guest
    then show ?thesis using 2 next_above by (auto intro!: least_free_skip simp: slot_address_def)
  next
    case taken
    then show ?thesis using 2 next_above by (auto intro!: least_free_skip)
  next
    case free
    then have "slot_address i a" using 2(3) above by (simp add: slot_address_def)
    then show ?thesis using free by (auto simp: least_free_def)
  qed
qed

lemma Allocate_least_free:
  assumes "newIPv4IPAM cidr reserveGuest = Inr i"
  shows "least_free i used (Next_addr (im_gateway i)) (Allocate i used)"
    and "slot_address i b \<Longrightarrow> \<exists>a. Next_addr (im_gateway i) = Some a \<and> a \<le> b"
proof -
  obtain g where g: "im_gateway i = Some g" "Contains4 (im_prefix i) g" using newIPv4IPAM_gateway[OF assms] by blast
  have start: "(\<exists>a. Next_addr (im_gateway i) = Some a \<and> a \<le> b) \<longleftrightarrow> g < b" for b
    using Next4_least[of g] Next4_None[of g b] g(1) by (cases "Next4 g") (auto simp: Next_addr_def)
  have "g < a" if "Next_addr (im_gateway i) = Some a" for a
    using that start[of a] by auto
  from allocate_from_least[OF g this, where used = used]
  show "least_free i used (Next_addr (im_gateway i)) (Allocate i used)" by (simp add: Allocate_def)
  show "slot_address i b \<Longrightarrow> \<exists>a. Next_addr (im_gateway i) = Some a \<and> a \<le> b"
    using start[of b] g(1) by (auto simp: slot_address_def)
qed

lemma Allocate_Some:
  assumes "newIPv4IPAM cidr reserveGuest = Inr i" "Allocate i used = Some (ip, address)"
  shows "\<exists>a. slot_address i a \<and> ip = String4 a \<and> address = Prefix4_String (a, snd (im_prefix i)) \<and> ip \<notin> set used"
  using Allocate_least_free(1)[OF assms(1), of used] assms(2) by (auto simp: least_free_def)

text \<open>Two prefixes have an address in common exactly when one of them contains the base of the other.\<close>

lemma Contains4_coarser:
  assumes "Contains4 (b, n) x" "m \<le> n"
  shows "Contains4 (b, m) x"
proof -
  have split: "(2 :: nat) ^ (32 - m) = 2 ^ (32 - n) * 2 ^ (min 32 n - min 32 m)"
    unfolding power_add[symmetric] using assms(2) by (intro arg_cong[where f = "power 2"]) simp
  show ?thesis using assms(1) unfolding Contains4_iff split div_mult2_eq by simp
qed

lemma Contains4_trans: "Contains4 (a, m) x \<Longrightarrow> Contains4 (b, n) x \<Longrightarrow> m \<le> n \<Longrightarrow> Contains4 (a, m) b"
  using Contains4_coarser[of b n x m] by (simp add: Contains4_iff)

lemma prefixesOverlap_iff:
  "prefixesOverlap (Addr4 a, m) (Addr4 b, n) \<longleftrightarrow> (\<exists>x. Contains4 (a, m) x \<and> Contains4 (b, n) x)"
proof -
  have self: "Contains4 (c, k) c" for c k by (simp add: Contains4_iff)
  have "Contains4 (a, m) b \<or> Contains4 (b, n) a" if "Contains4 (a, m) x" "Contains4 (b, n) x" for x
    using Contains4_trans[OF that] Contains4_trans[OF that(2,1)] linear[of m n] by blast
  then show ?thesis unfolding prefixesOverlap_def Prefix_Contains_def using self by (simp, blast)
qed

lemma Contains4_masked: "Contains4 (clear_low (32 - m) a, m) x \<longleftrightarrow> Contains4 (a, m) x"
  by (simp add: Contains4_iff unat_clear_low)

text \<open>The text of a prefix is read back.\<close>

lemma String4_chars: "c \<in> set (String4 a) \<Longrightarrow> is_digit c \<or> c = CHR ''.''"
  by (auto simp: String4_def octets_def Let_def dest: format_uint_digits)

lemma String4_dot: "CHR ''.'' \<in> set (String4 a)"
  by (simp add: String4_def octets_def Let_def)

lemma ParsePrefix_Prefix4_String:
  assumes "n \<le> 32"
  shows "ParsePrefix (Prefix4_String (a, n)) = Some (Addr4 a, n)"
proof -
  have "\<forall>n \<in> set [0..<33]. parsePrefixBits (format_uint n) = Some (int n)" by code_simp
  then have bits: "parsePrefixBits (format_uint n) = Some (int n)" using assms by auto
  have no: "c \<noteq> CHR ''/''" if "c \<in> set (format_uint n)" for c
    using format_uint_digits[OF that] by (auto simp: is_digit_def)
  have tail: "takeWhile (\<lambda>c. c \<noteq> CHR ''/'') (rev (Prefix4_String (a, n))) = rev (format_uint n)"
    using no by (simp add: Prefix4_String_def takeWhile_tail)
  then show ?thesis
    using assms bits by (simp add: ParsePrefix_def Let_def) (simp add: Prefix4_String_def BitLen_def)
qed

lemma ParsePrefix_String4: "ParsePrefix (String4 a) = None"
  using String4_chars[of "CHR ''/''" a] by (auto simp: ParsePrefix_def is_digit_def Let_def)

text \<open>A line of the routing table that starts with an IPv4 destination: a prefix, or a bare address for a
  host route. The device is the word after the first \<^verbatim>\<open>dev\<close>, or empty when there is none.\<close>

definition route_device :: "string list \<Rightarrow> string \<Rightarrow> bool" where
  "route_device rest dev \<longleftrightarrow> (\<exists>before after. rest = before @ ''dev'' # dev # after \<and> ''dev'' \<notin> set before) \<or>
     ''dev'' \<notin> set rest \<and> dev = []"

definition route_line :: "string \<Rightarrow> 32 word \<Rightarrow> nat \<Rightarrow> string \<Rightarrow> bool" where
  "route_line line r n dev \<longleftrightarrow> (\<exists>dest rest. Fields line = dest # rest \<and> n \<le> 32 \<and>
     (dest = Prefix4_String (r, n) \<or> n = 32 \<and> dest = String4 r) \<and> route_device rest dev)"

lemma route_lineI:
  "Fields line = dest # before @ ''dev'' # dev # after \<Longrightarrow> n \<le> 32 \<Longrightarrow> dest = Prefix4_String (r, n) \<or> n = 32 \<and> dest = String4 r \<Longrightarrow>
   ''dev'' \<notin> set before \<Longrightarrow> route_line line r n dev"
  unfolding route_line_def route_device_def by blast

lemma routeDevice_none: "''dev'' \<notin> set fs \<Longrightarrow> routeDevice fs = []"
  by (induction fs rule: routeDevice.induct) auto

lemma routeDevice_first: "''dev'' \<notin> set before \<Longrightarrow> routeDevice (before @ ''dev'' # dev # after) = dev"
proof (induction before)
  case (Cons f fs)
  then show ?case by (cases fs) auto
qed simp

lemma routeDevice_line:
  assumes "route_device rest dev" "CHR ''.'' \<in> set dest"
  shows "routeDevice (dest # rest) = dev"
proof -
  have "dest \<noteq> ''dev''" using assms(2) by auto
  then show ?thesis
    using assms(1) routeDevice_first[of "dest # before" for before] routeDevice_none[of "dest # rest"]
    by (auto simp: route_device_def)
qed

lemma parseRouteDestination_line:
  assumes "n \<le> 32" "dest = Prefix4_String (r, n) \<or> n = 32 \<and> dest = String4 r"
  shows "\<exists>base. parseRouteDestination dest = Some (Addr4 base, n) \<and> (\<forall>x. Contains4 (base, n) x \<longleftrightarrow> Contains4 (r, n) x)"
  using assms ParsePrefix_Prefix4_String[OF assms(1)] Contains4_masked
  by (auto simp: parseRouteDestination_def ParsePrefix_String4 Masked_def)

lemma route_conflicts_line:
  assumes "route_line line r n dev"
  shows "route_conflicts (Masked (Addr4 s, m)) bridgeDevice line \<longleftrightarrow>
    dev \<noteq> bridgeDevice \<and> (\<exists>x. Contains4 (s, m) x \<and> Contains4 (r, n) x)"
proof -
  obtain dest rest where l: "Fields line = dest # rest" "n \<le> 32"
      "dest = Prefix4_String (r, n) \<or> n = 32 \<and> dest = String4 r" "route_device rest dev"
    using assms by (auto simp: route_line_def simp del: Fields.simps)
  have dot: "CHR ''.'' \<in> set dest" using l(3) String4_dot by (auto simp: Prefix4_String_def)
  then have "dest \<noteq> ''default''" by auto
  moreover obtain base where "parseRouteDestination dest = Some (Addr4 base, n)" "\<forall>x. Contains4 (base, n) x \<longleftrightarrow> Contains4 (r, n) x"
    using parseRouteDestination_line[OF l(2,3)] by blast
  ultimately show ?thesis
    by (simp add: route_conflicts_def l(1) routeDevice_line[OF l(4) dot] Masked_def prefixesOverlap_iff Contains4_masked
        del: Fields.simps)
qed

section \<open>Properties\<close>

text \<open>C12: the allocator hands out the first free address and fails only when there is none. For every
  allocator the constructor accepts, with or without a reserved guest address, and every set of used
  addresses: a result is the smallest address of the prefix that lies above the gateway and below the
  broadcast address, is not the guest address and is not used, printed together with the prefix length;
  when there is no result, every such address is used.\<close>

theorem Allocate_least:
  assumes "newIPv4IPAM cidr reserveGuest = Inr i"
  shows "case Allocate i used of
      None \<Rightarrow> \<forall>b. slot_address i b \<longrightarrow> String4 b \<in> set used
    | Some (ip, address) \<Rightarrow> \<exists>a. slot_address i a \<and> ip = String4 a \<and> address = Prefix4_String (a, snd (im_prefix i)) \<and>
        ip \<notin> set used \<and> (\<forall>b. slot_address i b \<and> b < a \<longrightarrow> String4 b \<in> set used)"
proof -
  have start: "slot_address i b \<and> (\<exists>a. Next_addr (im_gateway i) = Some a \<and> a \<le> b) \<longleftrightarrow> slot_address i b" for b
    using Allocate_least_free(2)[OF assms, of b] by blast
  show ?thesis using Allocate_least_free(1)[OF assms, of used]
    unfolding least_free_def conj_assoc[symmetric] start by (simp split: option.splits prod.splits)
qed

theorem Allocate_least_witness:
  "\<exists>i. newIPv4IPAM ''10.0.0.0/29'' True = Inr i \<and> Allocate i [''10.0.0.2''] = Some (''10.0.0.4'', ''10.0.0.4/29'') \<and>
     (\<forall>b. slot_address i b \<and> b < 0x0A000004 \<longrightarrow> String4 b \<in> set [''10.0.0.2''])"
proof -
  let ?i = "\<lparr>im_prefix = (0x0A000000, 29), im_gateway = Some 0x0A000001, im_guest = Some 0x0A000003\<rparr>"
  have i: "newIPv4IPAM ''10.0.0.0/29'' True = Inr ?i" by code_simp
  have a: "Allocate ?i [''10.0.0.2''] = Some (''10.0.0.4'', ''10.0.0.4/29'')" by code_simp
  have s: "String4 0x0A000004 = ''10.0.0.4''" by code_simp
  from Allocate_least[OF i, of "[''10.0.0.2'']"] obtain x where x: "''10.0.0.4'' = String4 x"
      "\<forall>b. slot_address ?i b \<and> b < x \<longrightarrow> String4 b \<in> set [''10.0.0.2'']"
    unfolding a option.case prod.case by blast
  have "x = 0x0A000004" using x(1) unfolding s[symmetric] String4_inj by (rule sym)
  with x(2) show ?thesis using i a by blast
qed

text \<open>C35: the start-up check reports a printed route exactly when it overlaps. Let the slot CIDR be an IPv4
  prefix, host bits allowed. Every line of the routing table that starts with an IPv4 destination, a
  prefix in its usual notation or a bare address for a host route, that names another device than the
  bridge, or none, and that shares an address with the slot CIDR is among the reported conflicts. When
  every line is empty, is the default route, or starts with an IPv4 destination and is on the bridge or
  shares no address with the slot CIDR, no overlap is reported. Lines that start with a route type, such
  as \<^verbatim>\<open>blackhole\<close>, are outside the first part; the check skips them.\<close>

theorem DetectCIDROverlap_complete:
  assumes cidr: "ParsePrefix cidr = Some (Addr4 s, m)"
  shows "(\<forall>line r n dev. line \<in> set (split_all (CHR 0x0A) output) \<and> route_line line r n dev \<and> dev \<noteq> bridgeDevice \<and>
      (\<exists>x. Contains4 (s, m) x \<and> Contains4 (r, n) x) \<longrightarrow>
      (\<exists>conflicts. DetectCIDROverlap cidr bridgeDevice (Some output) = Overlaps conflicts \<and> trim_space line \<in> set conflicts)) \<and>
    ((\<forall>line \<in> set (split_all (CHR 0x0A) output). Fields line = [] \<or> hd (Fields line) = ''default'' \<or>
        (\<exists>r n dev. route_line line r n dev \<and> (dev = bridgeDevice \<or> \<not> (\<exists>x. Contains4 (s, m) x \<and> Contains4 (r, n) x)))) \<longrightarrow>
      DetectCIDROverlap cidr bridgeDevice (Some output) = NoOverlap)"
proof -
  let ?lines = "split_all (CHR 0x0A) output" and ?hit = "route_conflicts (Masked (Addr4 s, m)) bridgeDevice"
  have det: "DetectCIDROverlap cidr bridgeDevice (Some output) =
      (if filter ?hit ?lines = [] then NoOverlap else Overlaps (map trim_space (filter ?hit ?lines)))"
    using cidr by (simp add: DetectCIDROverlap_def Is4_def Let_def)
  have "\<exists>conflicts. DetectCIDROverlap cidr bridgeDevice (Some output) = Overlaps conflicts \<and> trim_space line \<in> set conflicts"
    if "line \<in> set ?lines" "?hit line" for line
  proof -
    have "line \<in> set (filter ?hit ?lines)" using that by simp
    then have "filter ?hit ?lines \<noteq> []" "trim_space line \<in> set (map trim_space (filter ?hit ?lines))" by force+
    then show ?thesis unfolding det by simp
  qed
  moreover have "DetectCIDROverlap cidr bridgeDevice (Some output) = NoOverlap" if "\<forall>line \<in> set ?lines. \<not> ?hit line"
    using that by (simp add: det filter_empty_conv)
  moreover have "\<not> ?hit line" if "Fields line = [] \<or> hd (Fields line) = ''default''" for line
    using that by (auto simp: route_conflicts_def simp del: Fields.simps split: list.split)
  ultimately show ?thesis using route_conflicts_line[where s = s and m = m and bridgeDevice = bridgeDevice] by blast
qed

theorem DetectCIDROverlap_complete_witness:
  "(\<exists>conflicts. DetectCIDROverlap ''10.0.0.5/29'' ''br0'' (Some ''10.0.0.6 via 10.1.0.1 dev eth0'') = Overlaps conflicts \<and>
      ''10.0.0.6 via 10.1.0.1 dev eth0'' \<in> set conflicts) \<and>
   DetectCIDROverlap ''10.0.0.5/29'' ''br0'' (Some ''10.0.0.8/29 dev eth0'') = NoOverlap"
proof -
  let ?a = "''10.0.0.6 via 10.1.0.1 dev eth0''" and ?b = "''10.0.0.8/29 dev eth0''"
  have cidr: "ParsePrefix ''10.0.0.5/29'' = Some (Addr4 0x0A000005, 29)" by code_simp
  have fa: "Fields ?a = ''10.0.0.6'' # [''via'', ''10.1.0.1''] @ ''dev'' # ''eth0'' # []"
      "''10.0.0.6'' = Prefix4_String (0x0A000006, 32) \<or> (32 :: nat) = 32 \<and> ''10.0.0.6'' = String4 0x0A000006" by code_simp+
  have a: "route_line ?a 0x0A000006 32 ''eth0''" by (rule route_lineI[OF fa(1) _ fa(2)]) simp_all
  have fb: "Fields ?b = ''10.0.0.8/29'' # [] @ ''dev'' # ''eth0'' # []"
      "''10.0.0.8/29'' = Prefix4_String (0x0A000008, 29) \<or> (29 :: nat) = 32 \<and> ''10.0.0.8/29'' = String4 0x0A000008" by code_simp+
  have b: "route_line ?b 0x0A000008 29 ''eth0''" by (rule route_lineI[OF fb(1) _ fb(2)]) simp_all
  have sp: "split_all (CHR 0x0A) ?a = [?a]" "split_all (CHR 0x0A) ?b = [?b]" "trim_space ?a = ?a" by code_simp+
  have "Contains4 (0x0A000005, 29) 0x0A000006 \<and> Contains4 (0x0A000006, 32) 0x0A000006" by code_simp
  then have overlap: "\<exists>x. Contains4 (0x0A000005, 29) x \<and> Contains4 (0x0A000006, 32) x" by (rule exI)
  have mem: "?a \<in> set (split_all (CHR 0x0A) ?a)" unfolding sp(1) by (rule list.set_intros)
  have "''eth0'' \<noteq> ''br0''" by simp
  with mem a overlap have "?a \<in> set (split_all (CHR 0x0A) ?a) \<and> route_line ?a 0x0A000006 32 ''eth0'' \<and> ''eth0'' \<noteq> ''br0'' \<and>
      (\<exists>x. Contains4 (0x0A000005, 29) x \<and> Contains4 (0x0A000006, 32) x)" by (intro conjI)
  from conjunct1[OF DetectCIDROverlap_complete[OF cidr, of ?a "''br0''"], rule_format, OF this]
  have "\<exists>conflicts. DetectCIDROverlap ''10.0.0.5/29'' ''br0'' (Some ?a) = Overlaps conflicts \<and> trim_space ?a \<in> set conflicts" .
  then have "\<exists>conflicts. DetectCIDROverlap ''10.0.0.5/29'' ''br0'' (Some ?a) = Overlaps conflicts \<and> ?a \<in> set conflicts"
    unfolding sp(3) .
  moreover have "\<not> prefixesOverlap (Addr4 0x0A000005, 29) (Addr4 0x0A000008, 29)" by code_simp
  then have free: "\<not> (\<exists>x. Contains4 (0x0A000005, 29) x \<and> Contains4 (0x0A000008, 29) x)" unfolding prefixesOverlap_iff .
  have "DetectCIDROverlap ''10.0.0.5/29'' ''br0'' (Some ?b) = NoOverlap"
  proof (rule mp[OF conjunct2[OF DetectCIDROverlap_complete[OF cidr, of ?b "''br0''"]]], rule ballI, rule disjI2, rule disjI2)
    fix line
    assume "line \<in> set (split_all (CHR 0x0A) ?b)"
    then have "line = ?b" unfolding sp(2) by simp
    then show "\<exists>r n dev. route_line line r n dev \<and> (dev = ''br0'' \<or> \<not> (\<exists>x. Contains4 (0x0A000005, 29) x \<and> Contains4 (r, n) x))"
      using b free by blast
  qed
  ultimately show ?thesis by blast
qed

end
