(* ===== verification/Network_Driver.thy ===== *)
theory Network_Driver
  imports Network_Slot Network_IPAM
begin

text \<open>
  The drivers that build and remove the network namespace of a slot: \<^verbatim>\<open>LinuxNetNSDriver\<close> of
  \<^verbatim>\<open>internal/fastlet/network/linux_driver.go\<close> and \<^verbatim>\<open>GuestVMNetNSDriver\<close> of
  \<^verbatim>\<open>guest_vm_linux_driver.go\<close>, as the sequences of commands and file operations they issue.
\<close>

section \<open>The host\<close>

datatype host_call = Command string "string list" | CommandInput string string "string list"
  | MkdirAll string | ReadFile string | WriteFile string string | Stat string | RemoveFile string | DialUDP string

datatype call_result = CallOk string | CallError string

text \<open>
  The host answers each call as a function of all calls before it, so an answer may depend on anything
  that has happened. The drivers pass the list of calls made so far along.
\<close>

type_synonym host = "host_call list \<Rightarrow> host_call \<Rightarrow> call_result"

definition call :: "host \<Rightarrow> host_call \<Rightarrow> host_call list \<Rightarrow> call_result \<times> host_call list" where
  "call h c tr = (h tr c, tr @ [c])"

fun call_ok :: "call_result \<Rightarrow> bool" where
  "call_ok (CallOk _) = True"
| "call_ok (CallError _) = False"

text \<open>Calls in order up to the first error.\<close>

fun run_all :: "host \<Rightarrow> host_call list \<Rightarrow> host_call list \<Rightarrow> bool \<times> host_call list" where
  "run_all h [] tr = (True, tr)"
| "run_all h (c # cs) tr = (if call_ok (h tr c) then run_all h cs (tr @ [c]) else (False, tr @ [c]))"

text \<open>Calls in order whose errors are ignored.\<close>

definition run_ignored :: "host_call list \<Rightarrow> host_call list \<Rightarrow> host_call list" where
  "run_ignored cs tr = tr @ cs"

section \<open>The Linux driver\<close>

record linux_driver =
  ld_resolverPath :: string
  ld_ip :: string
  ld_iptables :: string
  ld_sysctl :: string

definition or_default :: "string \<Rightarrow> string \<Rightarrow> string" where
  "or_default s d = (if s = [] then d else s)"

definition NewLinuxNetNSDriver :: "linux_driver \<Rightarrow> linux_driver" where
  "NewLinuxNetNSDriver c = \<lparr>ld_resolverPath = or_default (ld_resolverPath c) ''/etc/resolv.conf'',
     ld_ip = or_default (ld_ip c) ''ip'', ld_iptables = or_default (ld_iptables c) ''iptables'',
     ld_sysctl = or_default (ld_sysctl c) ''sysctl''\<rparr>"

definition validateLinuxSlot :: "slot \<Rightarrow> bool" where
  "validateLinuxSlot s \<longleftrightarrow>
     \<not> (sl_NetNSName s = [] \<or> sl_NetNSPath s = [] \<or> sl_HostNetNSPath s = [] \<or> sl_HostVeth s = [] \<or> sl_PeerVeth s = [] \<or>
        sl_Bridge s = [] \<or> sl_Address s = [] \<or> sl_IP s = [] \<or> sl_Gateway s = [] \<or> sl_PrivateCIDR s = [] \<or>
        sl_DNSPath s = [] \<or> sl_MTU s \<le> 0)"

definition gatewayPrefix :: "slot \<Rightarrow> string" where
  "gatewayPrefix s =
     (case split_n (CHR ''/'') 2 (sl_Address s) of
        [_, bits] \<Rightarrow> sl_Gateway s @ ''/'' @ bits
      | _ \<Rightarrow> sl_Gateway s)"

definition defaultRouteDevice :: "string \<Rightarrow> string" where
  "defaultRouteDevice output = routeDevice (Fields output)"

definition isMissingNetworkResource :: "string \<Rightarrow> bool" where
  "isMissingNetworkResource err =
     (let message = to_lower err
      in contains_text message ''cannot find device'' \<or> contains_text message ''no such file'' \<or>
         contains_text message ''no such device'' \<or> contains_text message ''cannot open network namespace'')"

definition os_IsNotExist :: "string \<Rightarrow> bool" where
  "os_IsNotExist err = contains_text err ''no such file or directory''"

definition bridge_address :: "linux_driver \<Rightarrow> slot \<Rightarrow> host_call" where
  "bridge_address d s = Command (ld_ip d) [''addr'', ''add'', gatewayPrefix s, ''dev'', sl_Bridge s]"

definition ensureBridge :: "host \<Rightarrow> linux_driver \<Rightarrow> slot \<Rightarrow> host_call list \<Rightarrow> bool \<times> host_call list" where
  "ensureBridge h d s tr =
     (let (shown, tr) = call h (Command (ld_ip d) [''link'', ''show'', ''dev'', sl_Bridge s]) tr;
          (ok, tr) = (if call_ok shown then (True, tr)
            else run_all h [Command (ld_ip d) [''link'', ''add'', sl_Bridge s, ''type'', ''bridge''], bridge_address d s] tr)
      in if \<not> ok then (False, tr)
         else let (up, tr) = call h (Command (ld_ip d) [''link'', ''set'', sl_Bridge s, ''up'']) tr
              in if \<not> call_ok up then (False, tr)
                 else (True, run_ignored
                   [Command (ld_sysctl d) [''-w'', ''net.ipv4.neigh.'' @ sl_Bridge s @ ''.retrans_time_ms=100'']] tr))"

definition masquerade :: "string \<Rightarrow> slot \<Rightarrow> string \<Rightarrow> string list" where
  "masquerade flag s egress = [''-t'', ''nat'', flag, ''POSTROUTING'', ''-s'', sl_PrivateCIDR s, ''!'', ''-d'',
     sl_PrivateCIDR s, ''-o'', egress, ''-j'', ''MASQUERADE'']"

definition ensureEgress :: "host \<Rightarrow> linux_driver \<Rightarrow> slot \<Rightarrow> host_call list \<Rightarrow> bool \<times> slot \<times> host_call list" where
  "ensureEgress h d s tr =
     (let (fwd, tr) = call h (Command (ld_sysctl d) [''-w'', ''net.ipv4.ip_forward=1'']) tr
      in if \<not> call_ok fwd then (False, s, tr)
      else let (egress, s, tr) =
          (if sl_EgressDevice s \<noteq> [] then (Some (sl_EgressDevice s), s, tr)
           else case call h (Command (ld_ip d) [''-4'', ''route'', ''show'', ''default'']) tr of
               (CallError _, tr) \<Rightarrow> (None, s, tr)
             | (CallOk output, tr) \<Rightarrow>
                 if defaultRouteDevice output = [] then (None, s, tr)
                 else (Some (defaultRouteDevice output), s\<lparr>sl_EgressDevice := defaultRouteDevice output\<rparr>, tr))
      in case egress of
           None \<Rightarrow> (False, s, tr)
         | Some egress \<Rightarrow>
             (let (present, tr) = call h (Command (ld_iptables d) (masquerade ''-C'' s egress)) tr
              in if call_ok present then (True, s, tr)
                 else let (added, tr) = call h (Command (ld_iptables d) (masquerade ''-A'' s egress)) tr
                      in (call_ok added, s, tr)))"

text \<open>The commands that create the namespace, from \<^verbatim>\<open>ip netns add\<close> to the isolation of siblings.\<close>

definition in_netns :: "linux_driver \<Rightarrow> slot \<Rightarrow> string \<Rightarrow> string list \<Rightarrow> host_call" where
  "in_netns d s command args = Command (ld_ip d) (''netns'' # ''exec'' # sl_NetNSName s # command # args)"

definition accept_gateway :: "linux_driver \<Rightarrow> slot \<Rightarrow> host_call" where
  "accept_gateway d s = in_netns d s (ld_iptables d) [''-A'', ''OUTPUT'', ''-d'', sl_Gateway s @ ''/32'', ''-j'', ''ACCEPT'']"

definition reject_siblings :: "linux_driver \<Rightarrow> slot \<Rightarrow> host_call" where
  "reject_siblings d s = in_netns d s (ld_iptables d) [''-A'', ''OUTPUT'', ''-d'', sl_PrivateCIDR s, ''-j'', ''REJECT'']"

definition netns_commands :: "linux_driver \<Rightarrow> slot \<Rightarrow> host_call list" where
  "netns_commands d s =
     (let ip = Command (ld_ip d); inside = (\<lambda>args. Command (ld_ip d) (''-n'' # sl_NetNSName s # args)); mtu = format_int (sl_MTU s)
      in [ip [''netns'', ''add'', sl_NetNSName s],
          ip [''link'', ''add'', sl_HostVeth s, ''mtu'', mtu, ''type'', ''veth'', ''peer'', ''name'', sl_PeerVeth s],
          ip [''link'', ''set'', sl_HostVeth s, ''master'', sl_Bridge s],
          ip [''link'', ''set'', sl_HostVeth s, ''up''],
          ip [''link'', ''set'', sl_PeerVeth s, ''netns'', sl_NetNSName s],
          inside [''link'', ''set'', ''lo'', ''up''],
          inside [''link'', ''set'', sl_PeerVeth s, ''name'', ''eth0''],
          inside [''link'', ''set'', ''eth0'', ''mtu'', mtu],
          inside [''addr'', ''add'', sl_Address s, ''dev'', ''eth0''],
          inside [''link'', ''set'', ''eth0'', ''up''],
          inside [''route'', ''add'', ''default'', ''via'', sl_Gateway s, ''dev'', ''eth0''],
          accept_gateway d s, reject_siblings d s])"

definition prepare_body :: "host \<Rightarrow> linux_driver \<Rightarrow> slot \<Rightarrow> host_call list \<Rightarrow> bool \<times> slot \<times> host_call list" where
  "prepare_body h d s tr =
     (let (made, tr) = run_all h [MkdirAll (Dir (sl_NetNSPath s)), MkdirAll (Dir (sl_DNSPath s))] tr
      in if \<not> made then (False, s, tr)
      else case call h (ReadFile (ld_resolverPath d)) tr of
          (CallError _, tr) \<Rightarrow> (False, s, tr)
        | (CallOk resolver, tr) \<Rightarrow>
            (let (written, tr) = call h (WriteFile (sl_DNSPath s) resolver) tr
             in if \<not> call_ok written then (False, s, tr)
             else let (bridge, tr) = ensureBridge h d s tr
             in if \<not> bridge then (False, s, tr)
             else let (egress, s, tr) = ensureEgress h d s tr
             in if \<not> egress then (False, s, tr)
             else let (ok, tr) = run_all h (netns_commands d s) tr
             in (ok, s, tr)))"

text \<open>\<^verbatim>\<open>deleteNetNSWithRetry\<close>; \<^verbatim>\<open>ctx\<close> says whether the context is done. The result is the error, if any.\<close>

fun delete_retry :: "nat \<Rightarrow> (host_call list \<Rightarrow> bool) \<Rightarrow> host \<Rightarrow> host_call \<Rightarrow> host_call list \<Rightarrow> string option \<times> host_call list" where
  "delete_retry 0 ctx h c tr = (None, tr)"
| "delete_retry (Suc n) ctx h c tr =
     (case call h c tr of
        (CallOk _, tr) \<Rightarrow> (None, tr)
      | (CallError err, tr) \<Rightarrow>
          if ctx tr then (Some ''context canceled'', tr)
          else if n = 0 then (Some err, tr) else delete_retry n ctx h c tr)"

definition deleteNetNSWithRetry ::
    "(host_call list \<Rightarrow> bool) \<Rightarrow> host \<Rightarrow> string \<Rightarrow> string \<Rightarrow> host_call list \<Rightarrow> string option \<times> host_call list" where
  "deleteNetNSWithRetry ctx h ip name = delete_retry 5 ctx h (Command ip [''netns'', ''delete'', name])"

definition remove_host_veth :: "linux_driver \<Rightarrow> slot \<Rightarrow> host_call" where
  "remove_host_veth d s = Command (ld_ip d) [''link'', ''delete'', sl_HostVeth s]"

definition Linux_Destroy ::
    "(host_call list \<Rightarrow> bool) \<Rightarrow> host \<Rightarrow> linux_driver \<Rightarrow> slot \<Rightarrow> host_call list \<Rightarrow> bool \<times> host_call list" where
  "Linux_Destroy ctx h d s tr =
     (let (veth, tr) = (if sl_HostVeth s = [] then (True, tr)
            else case call h (remove_host_veth d s) tr of
                (CallOk _, tr) \<Rightarrow> (True, tr)
              | (CallError err, tr) \<Rightarrow> (isMissingNetworkResource err, tr));
          tr = (if sl_IP s \<noteq> [] \<and> sl_Bridge s \<noteq> []
            then run_ignored [Command (ld_ip d) [''neigh'', ''del'', sl_IP s, ''dev'', sl_Bridge s]] tr else tr);
          (netns, tr) = (if sl_NetNSName s = [] then (True, tr)
            else case deleteNetNSWithRetry ctx h (ld_ip d) (sl_NetNSName s) tr of
                (None, tr) \<Rightarrow> (True, tr)
              | (Some err, tr) \<Rightarrow> (isMissingNetworkResource err, tr));
          (dns, tr) = (if sl_DNSPath s = [] then (True, tr)
            else case call h (RemoveFile (sl_DNSPath s)) tr of
                (CallOk _, tr) \<Rightarrow> (True, tr)
              | (CallError err, tr) \<Rightarrow> (os_IsNotExist err, tr))
      in (veth \<and> netns \<and> dns, tr))"

text \<open>A failed preparation destroys what it has created, in a context that is never done.\<close>

definition Linux_Prepare :: "host \<Rightarrow> linux_driver \<Rightarrow> slot \<Rightarrow> host_call list \<Rightarrow> bool \<times> slot \<times> host_call list" where
  "Linux_Prepare h d s tr =
     (if \<not> validateLinuxSlot s then (False, s, tr)
      else let (ok, s, tr) = prepare_body h d s tr
           in if ok then (True, s, tr) else (False, s, snd (Linux_Destroy (\<lambda>_. False) h d s tr)))"

definition Linux_Validate :: "host \<Rightarrow> linux_driver \<Rightarrow> slot \<Rightarrow> host_call list \<Rightarrow> bool \<times> host_call list" where
  "Linux_Validate h d s tr =
     (if \<not> validateLinuxSlot s then (False, tr)
      else run_all h [Stat (sl_NetNSPath s), Stat (sl_DNSPath s), Command (ld_ip d) [''link'', ''show'', ''dev'', sl_HostVeth s],
        Command (ld_ip d) [''-n'', sl_NetNSName s, ''addr'', ''show'', ''dev'', ''eth0'']] tr)"

section \<open>The guest-VM driver\<close>

record guest_driver =
  gd_linux :: linux_driver
  gd_iptablesRestore :: string
  gd_restoreRunner :: bool

text \<open>\<^verbatim>\<open>takesInput\<close> says whether the runner has \<^verbatim>\<open>RunInput\<close>, \<^verbatim>\<open>executes\<close> whether it is the
  \<^verbatim>\<open>ExecRunner\<close>, and \<^verbatim>\<open>lookPath\<close> finds a command in the path.\<close>

definition NewGuestVMNetNSDriver :: "bool \<Rightarrow> bool \<Rightarrow> (string \<Rightarrow> bool) \<Rightarrow> linux_driver \<Rightarrow> string \<Rightarrow> guest_driver" where
  "NewGuestVMNetNSDriver takesInput executes lookPath config iptablesRestore =
     (let d = NewLinuxNetNSDriver config; restore = or_default iptablesRestore (ld_iptables d @ ''-restore'')
      in \<lparr>gd_linux = d, gd_iptablesRestore = restore, gd_restoreRunner = takesInput \<and> (executes \<longrightarrow> lookPath restore)\<rparr>)"

definition guestVMDefaultTapName :: string where
  "guestVMDefaultTapName = ''vmtap0''"

definition GatewayMAC :: string where
  "GatewayMAC = ''02:00:00:00:00:02''"

definition newline :: string where
  "newline = [CHR 0x0A]"

definition guestNATChains :: string where
  "guestNATChains = ''*nat'' @ newline @ '':FSB_GUEST_DNAT - [0:0]'' @ newline @ '':FSB_GUEST_SNAT - [0:0]'' @ newline"

definition guestNATPrepareRules :: string where
  "guestNATPrepareRules = guestNATChains @ ''-A PREROUTING -j FSB_GUEST_DNAT'' @ newline @
     ''-A POSTROUTING -j FSB_GUEST_SNAT'' @ newline @ ''COMMIT'' @ newline"

definition guestNATApplyRules :: "string \<Rightarrow> string \<Rightarrow> string" where
  "guestNATApplyRules slotIP guestIP = guestNATChains @
     ''-A FSB_GUEST_DNAT -d '' @ slotIP @ ''/32 -j DNAT --to-destination '' @ guestIP @ newline @
     ''-A FSB_GUEST_SNAT -s '' @ guestIP @ ''/32 -j SNAT --to-source '' @ slotIP @ newline @ ''COMMIT'' @ newline"

definition restoreGuestNAT :: "host \<Rightarrow> guest_driver \<Rightarrow> slot \<Rightarrow> string \<Rightarrow> host_call list \<Rightarrow> bool \<times> host_call list" where
  "restoreGuestNAT h g s payload tr =
     (if \<not> gd_restoreRunner g then (False, tr)
      else run_all h [CommandInput payload (ld_ip (gd_linux g))
        [''netns'', ''exec'', sl_NetNSName s, gd_iptablesRestore g, ''--noflush'']] tr)"

text \<open>The first \<^verbatim>\<open>-A\<close> becomes \<^verbatim>\<open>-C\<close>.\<close>

fun check_arguments :: "string list \<Rightarrow> string list" where
  "check_arguments [] = []"
| "check_arguments (a # as) = (if a = ''-A'' then ''-C'' # as else a # check_arguments as)"

definition checkThenAdd :: "host \<Rightarrow> string \<Rightarrow> string list \<Rightarrow> host_call list \<Rightarrow> bool \<times> host_call list" where
  "checkThenAdd h command args tr =
     (let (present, tr) = call h (Command command (check_arguments args)) tr
      in if call_ok present then (True, tr) else run_all h [Command command args] tr)"

fun check_then_add_all :: "host \<Rightarrow> string \<Rightarrow> string list list \<Rightarrow> host_call list \<Rightarrow> bool \<times> host_call list" where
  "check_then_add_all h command [] tr = (True, tr)"
| "check_then_add_all h command (args # rest) tr =
     (let (ok, tr) = checkThenAdd h command args tr
      in if ok then check_then_add_all h command rest tr else (False, tr))"

definition ns_args :: "slot \<Rightarrow> string \<Rightarrow> string list \<Rightarrow> string list" where
  "ns_args s command args = ''netns'' # ''exec'' # sl_NetNSName s # command # args"

definition tap_commands :: "linux_driver \<Rightarrow> slot \<Rightarrow> host_call list" where
  "tap_commands d s = map (\<lambda>(command, args). Command (ld_ip d) (ns_args s command args))
     [(ld_ip d, [''tuntap'', ''add'', ''dev'', guestVMDefaultTapName, ''mode'', ''tap'']),
      (ld_ip d, [''link'', ''set'', guestVMDefaultTapName, ''address'', GatewayMAC]),
      (ld_ip d, [''link'', ''set'', guestVMDefaultTapName, ''mtu'', format_int (sl_MTU s)]),
      (ld_ip d, [''link'', ''set'', guestVMDefaultTapName, ''up'']),
      (ld_sysctl d, [''-w'', ''net.ipv4.conf.'' @ guestVMDefaultTapName @ ''.proxy_arp=1'']),
      (ld_sysctl d, [''-w'', ''net.ipv4.neigh.'' @ guestVMDefaultTapName @ ''.proxy_delay=0'']),
      (ld_sysctl d, [''-w'', ''net.ipv4.ip_forward=1''])]"

definition retrans_commands :: "linux_driver \<Rightarrow> slot \<Rightarrow> host_call list" where
  "retrans_commands d s = map (\<lambda>device. Command (ld_ip d)
     (ns_args s (ld_sysctl d) [''-w'', ''net.ipv4.neigh.'' @ device @ ''.retrans_time_ms=100'']))
     [guestVMDefaultTapName, ''eth0'']"

text \<open>The forward rules in their order; \<^verbatim>\<open>flag\<close> is \<^verbatim>\<open>-A\<close> to add and \<^verbatim>\<open>-D\<close> to delete them.\<close>

definition forward_rules :: "linux_driver \<Rightarrow> slot \<Rightarrow> string \<Rightarrow> string list list" where
  "forward_rules d s flag = map (\<lambda>args. ns_args s (ld_iptables d) (flag # ''FORWARD'' # args))
     [[''-d'', sl_Gateway s @ ''/32'', ''-j'', ''ACCEPT''],
      [''-i'', guestVMDefaultTapName, ''-o'', ''eth0'', ''-d'', sl_PrivateCIDR s, ''-j'', ''REJECT''],
      [''-i'', guestVMDefaultTapName, ''-o'', ''eth0'', ''-j'', ''ACCEPT''],
      [''-i'', ''eth0'', ''-o'', guestVMDefaultTapName, ''-j'', ''ACCEPT''],
      [''-m'', ''conntrack'', ''--ctstate'', ''ESTABLISHED,RELATED'', ''-j'', ''ACCEPT'']]"

definition Guest_Prepare :: "host \<Rightarrow> guest_driver \<Rightarrow> slot \<Rightarrow> host_call list \<Rightarrow> bool \<times> slot \<times> host_call list" where
  "Guest_Prepare h g s tr =
     (let d = gd_linux g; (ok, s, tr) = Linux_Prepare h d s tr
      in if \<not> ok then (False, s, tr)
      else let s = s\<lparr>sl_GuestTap := or_default (sl_GuestTap s) guestVMDefaultTapName\<rparr>;
               (ok, tr) = run_all h (tap_commands d s) tr
      in if \<not> ok then (False, s, tr)
      else let (ok, tr) = check_then_add_all h (ld_ip d) (forward_rules d s ''-A'') (run_ignored (retrans_commands d s) tr)
      in if \<not> ok then (False, s, tr)
      else if \<not> gd_restoreRunner g then (True, s, tr)
      else let (ok, tr) = restoreGuestNAT h g s guestNATPrepareRules tr
      in if ok then (True, s\<lparr>sl_GuestNATBatch := True\<rparr>, tr) else (False, s, tr))"

definition nat_rules :: "linux_driver \<Rightarrow> slot \<Rightarrow> string \<Rightarrow> string \<Rightarrow> string list list" where
  "nat_rules d s flag guestIP =
     [ns_args s (ld_iptables d) [''-t'', ''nat'', flag, ''PREROUTING'', ''-d'', sl_IP s @ ''/32'', ''-j'', ''DNAT'', ''--to-destination'', guestIP],
      ns_args s (ld_iptables d) [''-t'', ''nat'', flag, ''POSTROUTING'', ''-s'', guestIP @ ''/32'', ''-j'', ''SNAT'', ''--to-source'', sl_IP s]]"

definition applyLegacyGuestNAT :: "host \<Rightarrow> guest_driver \<Rightarrow> slot \<Rightarrow> string \<Rightarrow> host_call list \<Rightarrow> bool \<times> host_call list" where
  "applyLegacyGuestNAT h g s guestIP tr =
     check_then_add_all h (ld_ip (gd_linux g)) (nat_rules (gd_linux g) s ''-A'' guestIP) tr"

definition parses4 :: "string \<Rightarrow> bool" where
  "parses4 text = (case ParseAddr text of Some a \<Rightarrow> Is4 a | None \<Rightarrow> False)"

text \<open>The slot is changed before the first command, also when a command fails.\<close>

definition Guest_ApplyGuest :: "host \<Rightarrow> guest_driver \<Rightarrow> slot \<Rightarrow> string \<Rightarrow> host_call list \<Rightarrow> bool \<times> slot \<times> host_call list" where
  "Guest_ApplyGuest h g s guestIP tr =
     (if sl_NetNSName s = [] \<or> sl_IP s = [] then (False, s, tr)
      else if \<not> parses4 guestIP then (False, s, tr)
      else if \<not> parses4 (sl_IP s) then (False, s, tr)
      else if sl_IP s = guestIP then (False, s, tr)
      else let s = s\<lparr>sl_GuestIP := guestIP\<rparr>;
               (ok, tr) = run_all h [Command (ld_ip (gd_linux g)) [''-n'', sl_NetNSName s, ''route'', ''replace'', guestIP @ ''/32'',
                 ''dev'', guestVMDefaultTapName]] tr
      in if \<not> ok then (False, s, tr)
      else let (ok, tr) = (if sl_GuestNATBatch s then restoreGuestNAT h g s (guestNATApplyRules (sl_IP s) guestIP) tr
                 else applyLegacyGuestNAT h g s guestIP tr)
      in if \<not> ok then (False, s, tr) else (True, s, run_ignored [DialUDP (sl_IP s @ '':9'')] tr))"

definition BakedGuestIP :: "slot \<Rightarrow> string option" where
  "BakedGuestIP s =
     (if sl_Gateway s = [] then None
      else case ParseAddr (sl_Gateway s) of
          Some (Addr4 gateway) \<Rightarrow>
            (case Next_addr (Next4 gateway) of
               None \<Rightarrow> None
             | Some guest \<Rightarrow> if guest = gateway then None else Some (String4 guest))
        | _ \<Rightarrow> None)"

definition GuestVMIP :: "slot \<Rightarrow> string option" where
  "GuestVMIP s =
     (if sl_IP s = [] \<or> sl_PrivateCIDR s = [] then None
      else case ParseAddr (sl_IP s) of
          Some (Addr4 address) \<Rightarrow>
            (case ParsePrefix (sl_PrivateCIDR s) of
               None \<Rightarrow> None
             | Some prefix \<Rightarrow>
                 if \<not> Prefix_Contains prefix (Addr4 address) then None
                 else case Next4 address of
                     None \<Rightarrow> None
                   | Some guest \<Rightarrow> if Prefix_Contains prefix (Addr4 guest) then Some (String4 guest) else None)
        | _ \<Rightarrow> None)"

text \<open>\<^verbatim>\<open>decodeLinks\<close> gives the addresses of the links that \<^verbatim>\<open>ip -j link show\<close> printed.\<close>

definition Guest_Validate ::
    "(string \<Rightarrow> string list option) \<Rightarrow> host \<Rightarrow> guest_driver \<Rightarrow> slot \<Rightarrow> host_call list \<Rightarrow> bool \<times> host_call list" where
  "Guest_Validate decodeLinks h g s tr =
     (let d = gd_linux g; (ok, tr) = Linux_Validate h d s tr
      in if \<not> ok then (False, tr)
      else if sl_GuestTap s = [] then (False, tr)
      else case call h (Command (ld_ip d) [''-j'', ''-n'', sl_NetNSName s, ''link'', ''show'', ''dev'', guestVMDefaultTapName]) tr of
          (CallError _, tr) \<Rightarrow> (False, tr)
        | (CallOk output, tr) \<Rightarrow>
            if decodeLinks output \<noteq> Some [GatewayMAC] then (False, tr)
            else if \<not> sl_GuestNATBatch s then (True, tr)
            else run_all h (map (\<lambda>(chain, target). Command (ld_ip d)
                   (ns_args s (ld_iptables d) [''-t'', ''nat'', ''-C'', chain, ''-j'', target]))
                   [(''PREROUTING'', ''FSB_GUEST_DNAT''), (''POSTROUTING'', ''FSB_GUEST_SNAT'')]) tr)"

definition Guest_Destroy ::
    "(host_call list \<Rightarrow> bool) \<Rightarrow> host \<Rightarrow> guest_driver \<Rightarrow> slot \<Rightarrow> host_call list \<Rightarrow> bool \<times> host_call list" where
  "Guest_Destroy ctx h g s tr =
     (let d = gd_linux g;
          rules = (if sl_GuestIP s \<noteq> [] \<and> \<not> sl_GuestNATBatch s then nat_rules d s ''-D'' (sl_GuestIP s) else []) @
            forward_rules d s ''-D'';
          tr = (if sl_NetNSName s \<noteq> [] then run_ignored (map (Command (ld_ip d)) rules) tr else tr)
      in Linux_Destroy ctx h d s tr)"

section \<open>The contract of a driver\<close>

text \<open>What the slot manager relies on: a preparation changes no more of the slot than it may.\<close>

locale slot_driver =
  fixes prepare :: "host \<Rightarrow> slot \<Rightarrow> host_call list \<Rightarrow> bool \<times> slot \<times> host_call list"
  assumes prepared: "prepare h s tr = (ok, t, tr') \<Longrightarrow> prepares s t"
begin

lemma keeps_identity: "prepare h s tr = (ok, t, tr') \<Longrightarrow> sl_ID t = sl_ID s \<and> sl_IP t = sl_IP s \<and> sl_Owner t = sl_Owner s"
  using prepares_fields[of s t] prepared by simp

end

lemma ensureEgress_prepares: "ensureEgress h d s tr = (ok, t, tr') \<Longrightarrow> prepares s t"
  by (auto simp: ensureEgress_def prepares_def call_def Let_def split: if_splits call_result.splits option.splits prod.splits)

lemma prepare_body_prepares: "prepare_body h d s tr = (ok, t, tr') \<Longrightarrow> prepares s t"
  by (auto simp: prepare_body_def Let_def dest: ensureEgress_prepares split: if_splits call_result.splits prod.splits)

lemma Linux_Prepare_prepares: "Linux_Prepare h d s tr = (ok, t, tr') \<Longrightarrow> prepares s t"
  by (auto simp: Linux_Prepare_def dest: prepare_body_prepares split: if_splits prod.splits)

lemma Guest_Prepare_prepares:
  assumes "Guest_Prepare h g s tr = (ok, t, tr')"
  shows "prepares s t"
proof -
  obtain ok1 s1 tr1 where l: "Linux_Prepare h (gd_linux g) s tr = (ok1, s1, tr1)" by (metis surj_pair)
  have "t = s1 \<or> t = s1\<lparr>sl_GuestTap := sl_GuestTap t\<rparr> \<or> t = s1\<lparr>sl_GuestTap := sl_GuestTap t, sl_GuestNATBatch := True\<rparr>"
    using assms l by (auto simp: Guest_Prepare_def Let_def split: if_splits prod.splits)
  then show ?thesis using Linux_Prepare_prepares[OF l] by (cases s; cases s1; cases t) (auto simp: prepares_def)
qed

interpretation linux: slot_driver "\<lambda>h. Linux_Prepare h d" for d
  by unfold_locales (rule Linux_Prepare_prepares)

interpretation guest_vm: slot_driver "\<lambda>h. Guest_Prepare h g" for g
  by unfold_locales (rule Guest_Prepare_prepares)

section \<open>Traces\<close>

text \<open>The host accepted the call at some point of the trace, or of the part \<^verbatim>\<open>ext\<close> that follows the trace.\<close>

definition accepted :: "host \<Rightarrow> host_call list \<Rightarrow> host_call \<Rightarrow> bool" where
  "accepted h tr c \<longleftrightarrow> (\<exists>p q. tr = p @ c # q \<and> call_ok (h p c))"

definition accepted_in :: "host \<Rightarrow> host_call list \<Rightarrow> host_call list \<Rightarrow> host_call \<Rightarrow> bool" where
  "accepted_in h tr ext c \<longleftrightarrow> (\<exists>p q. ext = p @ c # q \<and> call_ok (h (tr @ p) c))"

lemma accepted_in_append: "accepted_in h tr ext c \<Longrightarrow> accepted_in h tr (ext @ later) c"
  unfolding accepted_in_def by (metis append.assoc append_Cons)

lemma accepted_in_mem: "accepted_in h tr ext c \<Longrightarrow> c \<in> set ext"
  by (auto simp: accepted_in_def)

lemma accepted_in_later: "accepted_in h (tr @ ext) later c \<Longrightarrow> accepted_in h tr (ext @ later) c"
  unfolding accepted_in_def by (metis append.assoc)

lemma run_all_calls: "run_all h cs tr = (True, tr') \<Longrightarrow> tr' = tr @ cs \<and> (\<forall>c \<in> set cs. accepted_in h tr cs c)"
proof (induction h cs tr rule: run_all.induct)
  case (2 h x cs tr)
  have ok: "call_ok (h tr x)" and rest: "run_all h cs (tr @ [x]) = (True, tr')" using 2(2) by (auto split: if_splits)
  have "accepted_in h tr (x # cs) x" using ok by (force simp: accepted_in_def)
  moreover have "accepted_in h tr (x # cs) c" if "c \<in> set cs" for c
    using 2(1)[OF ok rest] that accepted_in_later[of h tr "[x]" cs c] by simp
  ultimately show ?case using 2(1)[OF ok rest] by auto
qed simp

text \<open>A rule is looked for, and added unless it is found.\<close>

lemma checkThenAdd_calls:
  assumes "checkThenAdd h command args tr = (True, tr')"
  obtains ext where "tr' = tr @ ext" "set ext \<subseteq> {Command command (check_arguments args), Command command args}"
    "hd ext = Command command (check_arguments args)" "ext \<noteq> []"
    "accepted_in h tr ext (Command command (check_arguments args)) \<or> accepted_in h tr ext (Command command args)"
proof (cases "call_ok (h tr (Command command (check_arguments args)))")
  case True
  then show thesis
    using assms that[of "[Command command (check_arguments args)]"] by (force simp: checkThenAdd_def call_def accepted_in_def)
next
  case False
  then have "call_ok (h (tr @ [Command command (check_arguments args)]) (Command command args))"
    using assms by (simp add: checkThenAdd_def call_def split: if_splits)
  then have "accepted_in h tr [Command command (check_arguments args), Command command args] (Command command args)"
    unfolding accepted_in_def by - (rule exI[of _ "[Command command (check_arguments args)]"], rule exI[of _ "[]"], simp)
  then show thesis
    using assms False that[of "[Command command (check_arguments args), Command command args]"]
    by (simp add: checkThenAdd_def call_def split: if_splits)
qed

lemma check_then_add_all_ext: "check_then_add_all h command rules tr = (ok, tr') \<Longrightarrow> \<exists>ext. tr' = tr @ ext"
proof (induction h command rules tr arbitrary: ok rule: check_then_add_all.induct)
  case (2 h command args rest tr)
  have "\<exists>ext. snd (checkThenAdd h command args tr) = tr @ ext" by (simp add: checkThenAdd_def call_def)
  then show ?case using 2 by (fastforce split: if_splits prod.splits)
qed simp

lemma check_then_add_all_Cons:
  "check_then_add_all h command (args # rest) tr = (True, tr') \<longleftrightarrow>
     (\<exists>tr1. checkThenAdd h command args tr = (True, tr1) \<and> check_then_add_all h command rest tr1 = (True, tr'))"
  by (auto split: if_splits prod.splits)

text \<open>A call of iptables in the namespace of a slot, and the calls that are about a \<^verbatim>\<open>FORWARD\<close> chain.\<close>

definition iptables_call :: "linux_driver \<Rightarrow> slot \<Rightarrow> string \<Rightarrow> string \<Rightarrow> string list \<Rightarrow> host_call" where
  "iptables_call d s flag chain args =
     Command (ld_ip d) ([''netns'', ''exec'', sl_NetNSName s, ld_iptables d, flag, chain] @ args)"

definition forward_call :: "host_call \<Rightarrow> bool" where
  "forward_call c \<longleftrightarrow> (\<exists>ip ns iptables flag args. c = Command ip ([''netns'', ''exec'', ns, iptables, flag, ''FORWARD''] @ args))"

lemma ensureBridge_calls:
  "ensureBridge h d s tr = (True, tr') \<Longrightarrow> \<exists>ext. tr' = tr @ ext \<and> (\<forall>c \<in> set ext. \<not> forward_call c)"
  by (auto simp: ensureBridge_def call_def run_ignored_def bridge_address_def forward_call_def split: if_splits)

lemma ensureEgress_calls:
  "ensureEgress h d s tr = (True, t, tr') \<Longrightarrow> \<exists>ext. tr' = tr @ ext \<and> (\<forall>c \<in> set ext. \<not> forward_call c)"
  by (auto simp: ensureEgress_def call_def masquerade_def forward_call_def Let_def
      split: if_splits option.splits call_result.splits prod.splits)

lemma Linux_Prepare_calls:
  assumes "Linux_Prepare h d s tr = (True, t, tr')"
  obtains pre where "tr' = tr @ pre @ netns_commands d t" "\<forall>c \<in> set pre. \<not> forward_call c"
    "\<forall>c \<in> set (netns_commands d t). accepted_in h tr (pre @ netns_commands d t) c"
proof -
  obtain tr1 where made: "run_all h [MkdirAll (Dir (sl_NetNSPath s)), MkdirAll (Dir (sl_DNSPath s))] tr = (True, tr1)"
    using assms by (auto simp: Linux_Prepare_def prepare_body_def split: if_splits prod.splits)
  obtain resolver where read: "h tr1 (ReadFile (ld_resolverPath d)) = CallOk resolver"
    using assms made by (auto simp: Linux_Prepare_def prepare_body_def call_def split: if_splits call_result.splits prod.splits)
  define tr2 where "tr2 = tr1 @ [ReadFile (ld_resolverPath d), WriteFile (sl_DNSPath s) resolver]"
  obtain tr3 where bridge: "ensureBridge h d s tr2 = (True, tr3)"
    using assms made read by (auto simp: Linux_Prepare_def prepare_body_def call_def tr2_def Let_def split: if_splits prod.splits)
  obtain tr4 where egress: "ensureEgress h d s tr3 = (True, t, tr4)" "run_all h (netns_commands d t) tr4 = (True, tr')"
    using assms made read bridge
    by (auto simp: Linux_Prepare_def prepare_body_def call_def tr2_def Let_def split: if_splits prod.splits)
  obtain e1 e2 where ext: "tr3 = tr2 @ e1" "tr4 = tr3 @ e2" "\<forall>c \<in> set (e1 @ e2). \<not> forward_call c"
    using ensureBridge_calls[OF bridge] ensureEgress_calls[OF egress(1)] by (metis Un_iff set_append)
  define pre where "pre = [MkdirAll (Dir (sl_NetNSPath s)), MkdirAll (Dir (sl_DNSPath s)), ReadFile (ld_resolverPath d),
    WriteFile (sl_DNSPath s) resolver] @ e1 @ e2"
  have tr4: "tr4 = tr @ pre" using run_all_calls[OF made] by (simp add: ext pre_def tr2_def)
  have "\<forall>c \<in> set pre. \<not> forward_call c" using ext(3) by (auto simp: pre_def forward_call_def)
  then show thesis
    using that[of pre] run_all_calls[OF egress(2)] accepted_in_later[of h tr pre "netns_commands d t"] by (simp add: tr4)
qed

lemma rules_update [simp]:
  "netns_commands d (s\<lparr>sl_GuestTap := x\<rparr>) = netns_commands d s" "netns_commands d (s\<lparr>sl_GuestNATBatch := b\<rparr>) = netns_commands d s"
  "forward_rules d (s\<lparr>sl_GuestNATBatch := b\<rparr>) flag = forward_rules d s flag"
  by (simp_all add: netns_commands_def accept_gateway_def reject_siblings_def in_netns_def forward_rules_def ns_args_def)

text \<open>The parts of a successful preparation for a guest VM.\<close>

lemma Guest_Prepare_parts:
  assumes "Guest_Prepare h g s tr = (True, t, tr')"
  obtains s1 tr1 u tr3 ext where "Linux_Prepare h (gd_linux g) s tr = (True, s1, tr1)"
    "u = s1\<lparr>sl_GuestTap := sl_GuestTap u\<rparr>" "t = u\<lparr>sl_GuestNATBatch := sl_GuestNATBatch t\<rparr>"
    "check_then_add_all h (ld_ip (gd_linux g)) (forward_rules (gd_linux g) u ''-A'')
       (tr1 @ tap_commands (gd_linux g) u @ retrans_commands (gd_linux g) u) = (True, tr3)"
    "tr' = tr3 @ ext"
proof -
  obtain s1 tr1 where l: "Linux_Prepare h (gd_linux g) s tr = (True, s1, tr1)"
    using assms by (auto simp: Guest_Prepare_def Let_def split: if_splits prod.splits)
  define u where "u = s1\<lparr>sl_GuestTap := or_default (sl_GuestTap s1) guestVMDefaultTapName\<rparr>"
  have eta: "u = s1\<lparr>sl_GuestTap := sl_GuestTap u\<rparr>" by (simp add: u_def)
  obtain tr2 where r: "run_all h (tap_commands (gd_linux g) u) tr1 = (True, tr2)"
    using assms l by (auto simp: Guest_Prepare_def Let_def u_def[symmetric] split: if_splits prod.splits)
  obtain tr3 where c: "check_then_add_all h (ld_ip (gd_linux g)) (forward_rules (gd_linux g) u ''-A'')
      (tr2 @ retrans_commands (gd_linux g) u) = (True, tr3)"
    using assms l r by (auto simp: Guest_Prepare_def Let_def u_def[symmetric] run_ignored_def split: if_splits prod.splits)
  have "t = u\<lparr>sl_GuestNATBatch := sl_GuestNATBatch t\<rparr> \<and> (\<exists>ext. tr' = tr3 @ ext)"
    using assms l r c
    by (auto simp: Guest_Prepare_def Let_def u_def[symmetric] run_ignored_def restoreGuestNAT_def dest: run_all_calls
        split: if_splits prod.splits)
  then show thesis using that[OF l eta _ c[unfolded run_all_calls[OF r, THEN conjunct1] append.assoc]] by blast
qed

text \<open>The first three forward rules, written out: the gateway, the siblings, and everything else.\<close>

lemma forward_rules_calls:
  assumes "check_then_add_all h (ld_ip d) (forward_rules d u ''-A'') tr = (True, tr')" "sl_NetNSName u \<noteq> ''-A''" "ld_iptables d \<noteq> ''-A''"
    and "gw = [''-d'', sl_Gateway u @ ''/32'', ''-j'', ''ACCEPT'']"
    and "sib = [''-i'', ''vmtap0'', ''-o'', ''eth0'', ''-d'', sl_PrivateCIDR u, ''-j'', ''REJECT'']"
  obtains ext rest where "tr' = tr @ ext @ iptables_call d u ''-C'' ''FORWARD'' [''-i'', ''vmtap0'', ''-o'', ''eth0'', ''-j'', ''ACCEPT''] # rest"
    "set ext \<subseteq> {iptables_call d u flag ''FORWARD'' args | flag args. flag \<in> {''-C'', ''-A''} \<and> args \<in> {gw, sib}}"
    "\<exists>flag \<in> {''-C'', ''-A''}. accepted_in h tr ext (iptables_call d u flag ''FORWARD'' sib)"
proof -
  let ?args = "\<lambda>flag args. ns_args u (ld_iptables d) (flag # ''FORWARD'' # args)"
  let ?out = "[''-i'', ''vmtap0'', ''-o'', ''eth0'', ''-j'', ''ACCEPT'']"
  have chk: "check_arguments (?args ''-A'' args) = ?args ''-C'' args" for args
    using assms(2,3) by (simp add: ns_args_def)
  have cmd: "Command (ld_ip d) (?args flag args) = iptables_call d u flag ''FORWARD'' args" for flag args
    by (simp add: iptables_call_def ns_args_def)
  obtain later where rules: "forward_rules d u ''-A'' = ?args ''-A'' gw # ?args ''-A'' sib # ?args ''-A'' ?out # later"
    by (simp add: forward_rules_def guestVMDefaultTapName_def assms(4,5))
  obtain tr1 tr2 tr3 where steps: "checkThenAdd h (ld_ip d) (?args ''-A'' gw) tr = (True, tr1)"
      "checkThenAdd h (ld_ip d) (?args ''-A'' sib) tr1 = (True, tr2)" "checkThenAdd h (ld_ip d) (?args ''-A'' ?out) tr2 = (True, tr3)"
      "check_then_add_all h (ld_ip d) later tr3 = (True, tr')"
    using assms(1) unfolding rules check_then_add_all_Cons by blast
  obtain e1 where e1: "tr1 = tr @ e1" "set e1 \<subseteq> {iptables_call d u ''-C'' ''FORWARD'' gw, iptables_call d u ''-A'' ''FORWARD'' gw}"
    using checkThenAdd_calls[OF steps(1)] unfolding chk cmd by metis
  obtain e2 where e2: "tr2 = tr1 @ e2" "set e2 \<subseteq> {iptables_call d u ''-C'' ''FORWARD'' sib, iptables_call d u ''-A'' ''FORWARD'' sib}"
      "accepted_in h tr1 e2 (iptables_call d u ''-C'' ''FORWARD'' sib) \<or> accepted_in h tr1 e2 (iptables_call d u ''-A'' ''FORWARD'' sib)"
    using checkThenAdd_calls[OF steps(2)] unfolding chk cmd by metis
  obtain e3 where e3: "tr3 = tr2 @ e3" "hd e3 = iptables_call d u ''-C'' ''FORWARD'' ?out" "e3 \<noteq> []"
    using checkThenAdd_calls[OF steps(3)] unfolding chk cmd by metis
  obtain e4 where e4: "tr' = tr3 @ e4" using check_then_add_all_ext[OF steps(4)] by blast
  show thesis
  proof (rule that[of "e1 @ e2" "tl e3 @ e4"])
    show "tr' = tr @ (e1 @ e2) @ iptables_call d u ''-C'' ''FORWARD'' ?out # tl e3 @ e4"
      using e1(1) e2(1) e3 e4 by (cases e3) auto
    show "set (e1 @ e2) \<subseteq> {iptables_call d u flag ''FORWARD'' args | flag args. flag \<in> {''-C'', ''-A''} \<and> args \<in> {gw, sib}}"
      using e1(2) e2(2) by (fastforce dest!: subsetD)
    show "\<exists>flag \<in> {''-C'', ''-A''}. accepted_in h tr (e1 @ e2) (iptables_call d u flag ''FORWARD'' sib)"
      using e2(3) accepted_in_later unfolding e1(1) by blast
  qed
qed

lemma netns_commands_isolate:
  obtains pre where "netns_commands d s = pre @ [iptables_call d s ''-A'' ''OUTPUT'' [''-d'', sl_Gateway s @ ''/32'', ''-j'', ''ACCEPT''],
      iptables_call d s ''-A'' ''OUTPUT'' [''-d'', sl_PrivateCIDR s, ''-j'', ''REJECT'']]"
    "\<forall>c \<in> set (netns_commands d s). \<not> forward_call c"
proof (rule that[of "take 11 (netns_commands d s)"])
  show "netns_commands d s = take 11 (netns_commands d s) @
      [iptables_call d s ''-A'' ''OUTPUT'' [''-d'', sl_Gateway s @ ''/32'', ''-j'', ''ACCEPT''],
       iptables_call d s ''-A'' ''OUTPUT'' [''-d'', sl_PrivateCIDR s, ''-j'', ''REJECT'']]"
    by (simp add: netns_commands_def accept_gateway_def reject_siblings_def in_netns_def iptables_call_def Let_def)
  show "\<forall>c \<in> set (netns_commands d s). \<not> forward_call c"
    by (simp add: netns_commands_def accept_gateway_def reject_siblings_def in_netns_def forward_call_def Let_def)
qed

lemma tap_no_forward: "\<forall>c \<in> set (tap_commands d s @ retrans_commands d s). \<not> forward_call c"
  by (simp add: tap_commands_def retrans_commands_def ns_args_def forward_call_def)

section \<open>Properties\<close>

text \<open>C38: a guest VM is isolated from its siblings before it gets network access. Take a preparation of a
  slot for a guest VM that succeeds, and what it asks of the host up to the point where it turns to the
  rule \<^verbatim>\<open>FORWARD -i vmtap0 -o eth0 -j ACCEPT\<close>, which lets the guest out. By then the host has accepted, in
  the namespace of the slot, \<^verbatim>\<open>-A OUTPUT\<close> with \<^verbatim>\<open>ACCEPT\<close> for the gateway and right after it with \<^verbatim>\<open>REJECT\<close>
  for the private CIDR, and it has found or added \<^verbatim>\<open>FORWARD -i vmtap0 -o eth0 -d\<close> private CIDR
  \<^verbatim>\<open>-j REJECT\<close>; and up to then no other \<^verbatim>\<open>FORWARD\<close> rule was asked for but that one and the acceptance of
  the gateway. Neither the namespace nor the iptables command is called \<^verbatim>\<open>-A\<close>, which the search for a
  rule would mistake for the option.\<close>

theorem prepared_namespace_isolated:
  assumes "Guest_Prepare h g s tr = (True, t, tr')" "d = gd_linux g" "sl_NetNSName t \<noteq> ''-A''" "ld_iptables d \<noteq> ''-A''"
    and "gw = [''-d'', sl_Gateway t @ ''/32'', ''-j'', ''ACCEPT'']"
    and "sib = [''-i'', ''vmtap0'', ''-o'', ''eth0'', ''-d'', sl_PrivateCIDR t, ''-j'', ''REJECT'']"
  shows "\<exists>before ext rest.
    tr' = tr @ before @ ext @ iptables_call d t ''-C'' ''FORWARD'' [''-i'', ''vmtap0'', ''-o'', ''eth0'', ''-j'', ''ACCEPT''] # rest \<and>
    last before = iptables_call d t ''-A'' ''OUTPUT'' [''-d'', sl_PrivateCIDR t, ''-j'', ''REJECT''] \<and>
    last (butlast before) = iptables_call d t ''-A'' ''OUTPUT'' gw \<and>
    accepted_in h tr before (last before) \<and> accepted_in h tr before (last (butlast before)) \<and>
    (\<exists>flag \<in> {''-C'', ''-A''}. accepted_in h (tr @ before) ext (iptables_call d t flag ''FORWARD'' sib)) \<and>
    (\<forall>c \<in> set (before @ ext). forward_call c \<longrightarrow>
       (\<exists>flag \<in> {''-C'', ''-A''}. c = iptables_call d t flag ''FORWARD'' gw \<or> c = iptables_call d t flag ''FORWARD'' sib))"
proof -
  obtain s1 tr1 u tr3 ext where p: "Linux_Prepare h d s tr = (True, s1, tr1)" "u = s1\<lparr>sl_GuestTap := sl_GuestTap u\<rparr>"
      "t = u\<lparr>sl_GuestNATBatch := sl_GuestNATBatch t\<rparr>"
      "check_then_add_all h (ld_ip d) (forward_rules d u ''-A'') (tr1 @ tap_commands d u @ retrans_commands d u) = (True, tr3)"
      "tr' = tr3 @ ext"
    using Guest_Prepare_parts[OF assms(1)] unfolding assms(2) .
  have same: "netns_commands d s1 = netns_commands d t" "forward_rules d u flag = forward_rules d t flag" for flag
  proof -
    show "netns_commands d s1 = netns_commands d t" by (subst p(3), simp, subst p(2), simp)
    show "forward_rules d u flag = forward_rules d t flag" by (subst p(3), simp)
  qed
  obtain pre where pre: "tr1 = tr @ pre @ netns_commands d t" "\<forall>c \<in> set pre. \<not> forward_call c"
      "\<forall>c \<in> set (netns_commands d t). accepted_in h tr (pre @ netns_commands d t) c"
    using Linux_Prepare_calls[OF p(1)] unfolding same by blast
  obtain head where head: "netns_commands d t = head @ [iptables_call d t ''-A'' ''OUTPUT'' gw,
      iptables_call d t ''-A'' ''OUTPUT'' [''-d'', sl_PrivateCIDR t, ''-j'', ''REJECT'']]"
      "\<forall>c \<in> set (netns_commands d t). \<not> forward_call c"
    using netns_commands_isolate[of d t] unfolding assms(5) by blast
  let ?tap = "tap_commands d u @ retrans_commands d u"
  obtain e rest where e: "tr3 = (tr1 @ ?tap) @ e @ iptables_call d t ''-C'' ''FORWARD'' [''-i'', ''vmtap0'', ''-o'', ''eth0'', ''-j'', ''ACCEPT''] # rest"
      "set e \<subseteq> {iptables_call d t flag ''FORWARD'' args | flag args. flag \<in> {''-C'', ''-A''} \<and> args \<in> {gw, sib}}"
      "\<exists>flag \<in> {''-C'', ''-A''}. accepted_in h (tr1 @ ?tap) e (iptables_call d t flag ''FORWARD'' sib)"
    using forward_rules_calls[OF p(4)[unfolded same] assms(3-6)] by blast
  let ?before = "pre @ netns_commands d t"
  have last: "last ?before = iptables_call d t ''-A'' ''OUTPUT'' [''-d'', sl_PrivateCIDR t, ''-j'', ''REJECT'']"
      "last (butlast ?before) = iptables_call d t ''-A'' ''OUTPUT'' gw"
    by (simp_all add: head(1) butlast_append)
  then have acc: "accepted_in h tr ?before (last ?before)" "accepted_in h tr ?before (last (butlast ?before))"
    using pre(3) by (simp_all add: head(1))
  have "\<exists>flag \<in> {''-C'', ''-A''}. accepted_in h (tr @ ?before) (?tap @ e) (iptables_call d t flag ''FORWARD'' sib)"
    using e(3) accepted_in_later[of h tr1 ?tap e] by (auto simp: pre(1))
  moreover have "\<forall>c \<in> set (?before @ ?tap @ e). forward_call c \<longrightarrow>
      (\<exists>flag \<in> {''-C'', ''-A''}. c = iptables_call d t flag ''FORWARD'' gw \<or> c = iptables_call d t flag ''FORWARD'' sib)"
    using pre(2) head(2) tap_no_forward[of d u] e(2) by auto
  moreover have "tr' = tr @ ?before @ (?tap @ e) @
      iptables_call d t ''-C'' ''FORWARD'' [''-i'', ''vmtap0'', ''-o'', ''eth0'', ''-j'', ''ACCEPT''] # rest @ ext"
    by (simp add: p(5) e(1) pre(1))
  ultimately show ?thesis using last acc by blast
qed

definition sample_driver_slot :: slot where
  "sample_driver_slot = \<lparr>sl_Version = 1, sl_ID = ''a'', sl_OwnerPodUID = ''p'', sl_OwnerPodName = [], sl_OwnerNamespace = [],
     sl_Phase = SlotPhaseClean, sl_Owner = no_owner, sl_NetNSName = ''n'', sl_NetNSPath = ''/n'', sl_HostNetNSPath = ''/h'',
     sl_HostVeth = ''v'', sl_PeerVeth = ''w'', sl_Bridge = ''b'', sl_GuestTap = [], sl_GuestIP = [], sl_GuestNATBatch = False,
     sl_Address = ''10.0.0.2/29'', sl_IP = ''10.0.0.2'', sl_Gateway = ''10.0.0.1'', sl_PrivateCIDR = ''10.0.0.0/29'',
     sl_DNSPath = ''/d'', sl_MTU = 9, sl_EgressDevice = [], sl_Access = no_access, sl_CreatedAt = 0, sl_BoundAt = None\<rparr>"

definition sample_guest_driver :: guest_driver where
  "sample_guest_driver = NewGuestVMNetNSDriver True False (\<lambda>_. True) \<lparr>ld_resolverPath = [], ld_ip = [], ld_iptables = [], ld_sysctl = []\<rparr> []"

definition willing_host :: host where
  "willing_host tr c = CallOk ''default dev eth0''"

theorem prepared_namespace_isolated_witness:
  "\<exists>t tr before rest. Guest_Prepare willing_host sample_guest_driver sample_driver_slot [] = (True, t, tr) \<and>
     tr = before @ Command ''ip'' [''netns'', ''exec'', ''n'', ''iptables'', ''-C'', ''FORWARD'', ''-i'', ''vmtap0'', ''-o'', ''eth0'', ''-j'', ''ACCEPT''] # rest \<and>
     Command ''ip'' [''netns'', ''exec'', ''n'', ''iptables'', ''-A'', ''OUTPUT'', ''-d'', ''10.0.0.0/29'', ''-j'', ''REJECT''] \<in> set before"
proof -
  let ?g = "Guest_Prepare willing_host sample_guest_driver sample_driver_slot []"
  have "fst ?g \<and> sl_NetNSName (fst (snd ?g)) = ''n'' \<and> sl_PrivateCIDR (fst (snd ?g)) = ''10.0.0.0/29''" by code_simp
  then obtain t tr where ok: "?g = (True, t, tr)" "sl_NetNSName t = ''n''" "sl_PrivateCIDR t = ''10.0.0.0/29''"
    by (cases ?g) auto
  have d: "ld_ip (gd_linux sample_guest_driver) = ''ip''" "ld_iptables (gd_linux sample_guest_driver) = ''iptables''" by code_simp+
  from prepared_namespace_isolated[OF ok(1) refl _ _ refl refl] ok(2) d(2)
  obtain before ext rest where t:
      "tr = [] @ before @ ext @ iptables_call (gd_linux sample_guest_driver) t ''-C'' ''FORWARD'' [''-i'', ''vmtap0'', ''-o'', ''eth0'', ''-j'', ''ACCEPT''] # rest"
      "last before = iptables_call (gd_linux sample_guest_driver) t ''-A'' ''OUTPUT'' [''-d'', sl_PrivateCIDR t, ''-j'', ''REJECT'']"
      "accepted_in willing_host [] before (last before)" by auto
  have "last before \<in> set (before @ ext)" using accepted_in_mem[OF t(3)] by simp
  then show ?thesis
    using t(1,2) ok d by (intro exI[of _ t] exI[of _ tr] exI[of _ "before @ ext"] exI[of _ rest]) (simp add: iptables_call_def)
qed

text \<open>C40: a bridge whose address could not be set stays without it. For every driver and slot there is a
  host on which the first preparation creates the bridge and fails to give it the gateway address, and
  on which the next attempt finds the bridge and succeeds although no attempt to set the address was ever
  accepted.\<close>

theorem bridge_address_lost:
  "\<exists>h tr1 tr2. ensureBridge h d s [] = (False, tr1) \<and> ensureBridge h d s tr1 = (True, tr2) \<and> \<not> accepted h tr2 (bridge_address d s)"
proof -
  let ?show = "Command (ld_ip d) [''link'', ''show'', ''dev'', sl_Bridge s]"
  let ?h = "\<lambda>tr c. if c = bridge_address d s \<or> c = ?show \<and> tr = [] then CallError [] else CallOk []"
  have ne: "bridge_address d s \<noteq> Command (ld_ip d) (''link'' # args)" "bridge_address d s \<noteq> Command (ld_sysctl d) (''-w'' # args)" for args
    by (simp_all add: bridge_address_def)
  have "\<exists>tr1 tr2. ensureBridge ?h d s [] = (False, tr1) \<and> ensureBridge ?h d s tr1 = (True, tr2)"
    by (simp add: ensureBridge_def call_def run_ignored_def ne[symmetric] ne)
  moreover have "\<not> accepted ?h tr (bridge_address d s)" for tr by (simp add: accepted_def)
  ultimately show ?thesis by blast
qed

end
