(* ===== verification/Network_Manager.thy ===== *)
theory Network_Manager
  imports Network_Driver
begin

text \<open>
  The slot manager of \<^verbatim>\<open>internal/fastlet/network/manager.go\<close>. The functions here are the sections the
  code runs under its lock and, between them, the calls to the driver and the store; the operations are
  composed of them. How the sections of concurrent calls interleave is the subject of \<^verbatim>\<open>Network_Runs\<close>.
\<close>

section \<open>State\<close>

record net_config =
  nc_Capacity :: int
  nc_PodUID :: string
  nc_PodName :: string
  nc_PodNamespace :: string
  nc_PrivateCIDR :: string
  nc_Bridge :: string
  nc_MTU :: int
  nc_EgressDevice :: string
  nc_StateRoot :: string
  nc_NetNSRoot :: string
  nc_HostNetNSRoot :: string
  nc_ReplenishTimeout :: goduration

definition DefaultPrivateCIDR :: string where
  "DefaultPrivateCIDR = ''172.30.0.0/24''"

definition DefaultBridge :: string where
  "DefaultBridge = ''fsb0''"

definition DefaultMTU :: int where
  "DefaultMTU = 1500"

definition Network_DefaultConfig :: "int \<Rightarrow> string \<Rightarrow> net_config" where
  "Network_DefaultConfig capacity podUID = \<lparr>nc_Capacity = capacity, nc_PodUID = podUID, nc_PodName = [], nc_PodNamespace = [],
     nc_PrivateCIDR = DefaultPrivateCIDR, nc_Bridge = DefaultBridge, nc_MTU = DefaultMTU, nc_EgressDevice = [],
     nc_StateRoot = ''/run/fast-sandbox/network'', nc_NetNSRoot = ''/run/netns'', nc_HostNetNSRoot = ''/run/fast-sandbox/netns'',
     nc_ReplenishTimeout = 60 * second\<rparr>"

text \<open>The state of the manager together with the directory of its store.\<close>

record manager =
  mg_config :: net_config
  mg_ipam :: ipv4_ipam
  mg_slots :: "(string, slot) gomap"
  mg_closed :: bool
  mg_hit :: "64 word"
  mg_miss :: "64 word"
  mg_dir :: state_dir

definition normalize_config :: "net_config \<Rightarrow> net_config" where
  "normalize_config c = c\<lparr>nc_PrivateCIDR := or_default (nc_PrivateCIDR c) DefaultPrivateCIDR,
     nc_Bridge := or_default (nc_Bridge c) DefaultBridge,
     nc_MTU := (if nc_MTU c \<le> 0 then DefaultMTU else nc_MTU c),
     nc_ReplenishTimeout := (if nc_ReplenishTimeout c \<le> 0 then 60 * second else nc_ReplenishTimeout c)\<rparr>"

text \<open>\<^verbatim>\<open>guest\<close> says whether the driver has a guest data plane.\<close>

definition NewManager :: "bool \<Rightarrow> net_config \<Rightarrow> state_dir \<Rightarrow> manager option" where
  "NewManager guest config dir =
     (if nc_Capacity config \<le> 0 \<or> nc_PodUID config = [] then None
      else if nc_NetNSRoot config = [] \<or> nc_HostNetNSRoot config = [] \<or> nc_StateRoot config = [] then None
      else let c = normalize_config config
           in case (if guest then NewGuestVMIPAM (nc_PrivateCIDR c) else NewIPv4IPAM (nc_PrivateCIDR c)) of
                Inl _ \<Rightarrow> None
              | Inr ipam \<Rightarrow> Some \<lparr>mg_config = c, mg_ipam = ipam, mg_slots = [], mg_closed = False, mg_hit = 0, mg_miss = 0,
                  mg_dir = dir\<rparr>)"

definition sortedSlots :: "manager \<Rightarrow> (string \<times> slot) list" where
  "sortedSlots m = sort_slice (\<lambda>a b. fst a < fst b) (mg_slots m)"

definition full :: "manager \<Rightarrow> bool" where
  "full m \<longleftrightarrow> int (length (mg_slots m)) \<ge> nc_Capacity (mg_config m)"

section \<open>Binding\<close>

definition bind_slot :: "gotime \<Rightarrow> owner \<Rightarrow> slot \<Rightarrow> slot" where
  "bind_slot now owner s = s\<lparr>sl_Phase := SlotPhaseBound, sl_Owner := owner, sl_BoundAt := Some now,
     sl_Access := \<lparr>ad_Kind = AccessKindDirectIP, ad_Address = sl_IP s, ad_NetNSPath = sl_HostNetNSPath s\<rparr>\<rparr>"

definition bound_to :: "string \<Rightarrow> slot \<Rightarrow> bool" where
  "bound_to uid s \<longleftrightarrow> sl_Phase s = SlotPhaseBound \<and> ow_SandboxUID (sl_Owner s) = uid"

definition Acquire :: "outcome \<Rightarrow> gotime \<Rightarrow> owner \<Rightarrow> manager \<Rightarrow> (net_error + slot) \<times> manager" where
  "Acquire out now owner m =
     (if ow_SandboxUID owner = [] \<or> ow_InstanceGeneration owner \<le> 0 \<or> ow_AssignmentAttempt owner \<le> 0
      then (Inl ErrInvalidOwner, m)
      else case List.find (bound_to (ow_SandboxUID owner)) (gm_vals (mg_slots m)) of
          Some s \<Rightarrow>
            if \<not> Owner_Equal (sl_Owner s) owner then (Inl ErrOwnerConflict, m)
            else (Inr s, m\<lparr>mg_hit := mg_hit m + 1\<rparr>)
        | None \<Rightarrow>
            (case List.find (\<lambda>(slotID, s). sl_Phase s = SlotPhaseClean) (sortedSlots m) of
               None \<Rightarrow> (Inl ErrNoCleanSlot, m\<lparr>mg_miss := mg_miss m + 1\<rparr>)
             | Some (slotID, s) \<Rightarrow>
                 (let candidate = bind_slot now owner s; (ok, dir) = Save out candidate (mg_dir m)
                  in if \<not> ok then (Inl ErrStore, m\<lparr>mg_dir := dir\<rparr>)
                     else (Inr candidate,
                       m\<lparr>mg_slots := gm_put slotID candidate (mg_slots m), mg_hit := mg_hit m + 1, mg_dir := dir\<rparr>))))"

definition Manager_Lookup :: "string \<Rightarrow> manager \<Rightarrow> slot option" where
  "Manager_Lookup uid m = List.find (bound_to uid) (gm_vals (mg_slots m))"

text \<open>\<^verbatim>\<open>ApplyGuest\<close>: a section that finds the slot, the driver outside the lock, a section that commits.
  The driver gives the slot with the changes it made, or fails; a driver without a guest data plane sets
  the guest address only.\<close>

definition guest_find :: "owner \<Rightarrow> manager \<Rightarrow> slot option" where
  "guest_find owner m =
     List.find (\<lambda>s. sl_Phase s = SlotPhaseBound \<and> Owner_Equal (sl_Owner s) owner) (gm_vals (mg_slots m))"

definition guest_commit :: "outcome \<Rightarrow> owner \<Rightarrow> slot \<Rightarrow> manager \<Rightarrow> net_error option \<times> manager" where
  "guest_commit out owner applied m =
     (case gm_get (mg_slots m) (sl_ID applied) of
        None \<Rightarrow> (Some ErrSlotNotFound, m)
      | Some current \<Rightarrow>
          if sl_Phase current \<noteq> SlotPhaseBound \<or> \<not> Owner_Equal (sl_Owner current) owner then (Some ErrSlotNotFound, m)
          else let (ok, dir) = Save out applied (mg_dir m)
               in (if ok then None else Some ErrStore,
                   m\<lparr>mg_slots := gm_put (sl_ID applied) applied (mg_slots m), mg_dir := dir\<rparr>))"

definition ApplyGuest ::
    "(slot \<Rightarrow> string \<Rightarrow> slot option) \<Rightarrow> outcome \<Rightarrow> owner \<Rightarrow> string \<Rightarrow> manager \<Rightarrow> net_error option \<times> manager" where
  "ApplyGuest driver out owner guestIP m =
     (case guest_find owner m of
        None \<Rightarrow> (Some ErrSlotNotFound, m)
      | Some s \<Rightarrow>
          (case driver s guestIP of
             None \<Rightarrow> (Some ErrDriver, m)
           | Some applied \<Rightarrow> guest_commit out owner applied m))"

section \<open>Destruction\<close>

text \<open>\<^verbatim>\<open>destroySlot\<close> reads the slot, destroys it, deletes its file, and forgets it in a section of its own.\<close>

definition delete_file :: "outcome \<Rightarrow> string \<Rightarrow> manager \<Rightarrow> bool \<times> manager" where
  "delete_file out slotID m = (let (ok, dir) = Store_Delete out slotID (mg_dir m) in (ok, m\<lparr>mg_dir := dir\<rparr>))"

definition forget :: "string \<Rightarrow> manager \<Rightarrow> manager" where
  "forget slotID m = m\<lparr>mg_slots := gm_del slotID (mg_slots m)\<rparr>"

definition destroySlot :: "bool \<Rightarrow> outcome \<Rightarrow> string \<Rightarrow> manager \<Rightarrow> net_error option \<times> manager" where
  "destroySlot destroyed out slotID m =
     (case gm_get (mg_slots m) slotID of
        None \<Rightarrow> (None, m)
      | Some s \<Rightarrow>
          if \<not> destroyed then (Some ErrDriver, m)
          else let (ok, m) = delete_file out slotID m
               in if ok then (None, forget slotID m) else (Some ErrStore, m))"

definition mark_slot :: "outcome \<Rightarrow> string \<Rightarrow> manager \<Rightarrow> net_error option \<times> manager" where
  "mark_slot out slotID m =
     (case gm_get (mg_slots m) slotID of
        None \<Rightarrow> (None, m)
      | Some s \<Rightarrow>
          if sl_Phase s = SlotPhaseDestroying then (None, m)
          else let candidate = s\<lparr>sl_Phase := SlotPhaseDestroying\<rparr>; (ok, dir) = Save out candidate (mg_dir m)
               in if ok then (None, m\<lparr>mg_slots := gm_put slotID candidate (mg_slots m), mg_dir := dir\<rparr>)
                  else (Some ErrStore, m\<lparr>mg_dir := dir\<rparr>))"

definition release_target :: "owner \<Rightarrow> manager \<Rightarrow> slot option" where
  "release_target owner m =
     List.find (\<lambda>s. ow_SandboxUID (sl_Owner s) = ow_SandboxUID owner \<and>
       (sl_Phase s = SlotPhaseBound \<or> sl_Phase s = SlotPhaseDestroying)) (gm_vals (mg_slots m))"

section \<open>Preparation\<close>

text \<open>The digest function \<^verbatim>\<open>sha256\<close> is an argument.\<close>

definition resourceName :: "(string \<Rightarrow> 8 word list) \<Rightarrow> string \<Rightarrow> string \<Rightarrow> string \<Rightarrow> nat \<Rightarrow> string" where
  "resourceName sha256 prefix podUID slotID limit =
     prefix @ take (limit - length prefix) (hex_encode (sha256 (podUID @ [CHR 0x00] @ slotID)))"

definition new_slot :: "(string \<Rightarrow> 8 word list) \<Rightarrow> manager \<Rightarrow> gotime \<Rightarrow> string \<Rightarrow> string \<Rightarrow> string \<Rightarrow> slot" where
  "new_slot sha256 m now slotID ip address =
     (let c = mg_config m; netnsName = resourceName sha256 ''fsb'' (nc_PodUID c) slotID 63
      in \<lparr>sl_Version = 1, sl_ID = slotID, sl_OwnerPodUID = nc_PodUID c, sl_OwnerPodName = nc_PodName c,
          sl_OwnerNamespace = nc_PodNamespace c, sl_Phase = SlotPhaseClean, sl_Owner = no_owner, sl_NetNSName = netnsName,
          sl_NetNSPath = Join [nc_NetNSRoot c, netnsName], sl_HostNetNSPath = Join [nc_HostNetNSRoot c, netnsName],
          sl_HostVeth = resourceName sha256 ''fh'' (nc_PodUID c) slotID 15,
          sl_PeerVeth = resourceName sha256 ''fp'' (nc_PodUID c) slotID 15, sl_Bridge = nc_Bridge c,
          sl_GuestTap = guestVMDefaultTapName, sl_GuestIP = [], sl_GuestNATBatch = False, sl_Address = address, sl_IP = ip,
          sl_Gateway = ipam_Gateway (mg_ipam m), sl_PrivateCIDR = ipam_CIDR (mg_ipam m),
          sl_DNSPath = Join [nc_StateRoot c, nc_PodUID c, slotID @ ''.resolv.conf''], sl_MTU = nc_MTU c,
          sl_EgressDevice = nc_EgressDevice c, sl_Access = no_access, sl_CreatedAt = now, sl_BoundAt = None\<rparr>)"

text \<open>The first section of \<^verbatim>\<open>prepareOne\<close> reserves an address and an identifier; \<^verbatim>\<open>None\<close> says that the
  manager is full. \<^verbatim>\<open>generated\<close> is what the generator returned.\<close>

definition reserve ::
    "(string \<Rightarrow> 8 word list) \<Rightarrow> gotime \<Rightarrow> string option \<Rightarrow> manager \<Rightarrow> (net_error + slot option) \<times> manager" where
  "reserve sha256 now generated m =
     (if full m then (Inr None, m)
      else case Allocate (mg_ipam m) (map sl_IP (gm_vals (mg_slots m))) of
          None \<Rightarrow> (Inl ErrNoCleanSlot, m)
        | Some (ip, address) \<Rightarrow>
            (case generated of
               None \<Rightarrow> (Inl ErrIDGenerator, m)
             | Some text \<Rightarrow>
                 (let slotID = to_lower (trim_space text)
                  in if \<not> safeSlotID slotID then (Inl ErrInvalidSlotID, m)
                     else if gm_get (mg_slots m) slotID \<noteq> None then (Inl ErrDuplicateSlotID, m)
                     else let s = new_slot sha256 m now slotID ip address
                          in (Inr (Some s), m\<lparr>mg_slots := gm_put slotID (s\<lparr>sl_Phase := SlotPhaseDestroying\<rparr>) (mg_slots m)\<rparr>))))"

definition save_prepared :: "outcome \<Rightarrow> slot \<Rightarrow> manager \<Rightarrow> bool \<times> manager" where
  "save_prepared out s m = (let (ok, dir) = Save out (s\<lparr>sl_Phase := SlotPhaseClean\<rparr>) (mg_dir m) in (ok, m\<lparr>mg_dir := dir\<rparr>))"

definition publish :: "slot \<Rightarrow> manager \<Rightarrow> manager" where
  "publish s m = m\<lparr>mg_slots := gm_put (sl_ID s) (s\<lparr>sl_Phase := SlotPhaseClean\<rparr>) (mg_slots m)\<rparr>"

section \<open>Snapshot\<close>

record net_snapshot =
  sn_Capacity :: int
  sn_Clean :: nat
  sn_Bound :: nat
  sn_Destroying :: nat
  sn_Hit :: "64 word"
  sn_Miss :: "64 word"

definition phase_count :: "slot_phase \<Rightarrow> manager \<Rightarrow> nat" where
  "phase_count p m = length (filter (\<lambda>s. sl_Phase s = p) (gm_vals (mg_slots m)))"

definition Manager_Snapshot :: "manager \<Rightarrow> net_snapshot" where
  "Manager_Snapshot m = \<lparr>sn_Capacity = nc_Capacity (mg_config m), sn_Clean = phase_count SlotPhaseClean m,
     sn_Bound = phase_count SlotPhaseBound m, sn_Destroying = phase_count SlotPhaseDestroying m, sn_Hit = mg_hit m,
     sn_Miss = mg_miss m\<rparr>"

section \<open>Operations\<close>

text \<open>
  What the surroundings answer to the calls of an operation, in order: whether a call of the driver works,
  how a call of the store ends, and what the generator of identifiers returns. When a list is used up,
  calls work and the generator fails. \<^verbatim>\<open>ev_prepared\<close> is what a preparation changes in the slot.
\<close>

record env =
  ev_driver :: "bool list"
  ev_store :: "outcome list"
  ev_ids :: "string option list"
  ev_prepared :: "slot \<Rightarrow> slot"
  ev_now :: gotime
  ev_sha256 :: "string \<Rightarrow> 8 word list"

definition next_driver :: "env \<Rightarrow> bool \<times> env" where
  "next_driver e = (case ev_driver e of [] \<Rightarrow> (True, e) | b # rest \<Rightarrow> (b, e\<lparr>ev_driver := rest\<rparr>))"

definition next_store :: "env \<Rightarrow> outcome \<times> env" where
  "next_store e = (case ev_store e of [] \<Rightarrow> (Done, e) | out # rest \<Rightarrow> (out, e\<lparr>ev_store := rest\<rparr>))"

definition next_id :: "env \<Rightarrow> string option \<times> env" where
  "next_id e = (case ev_ids e of [] \<Rightarrow> (None, e) | i # rest \<Rightarrow> (i, e\<lparr>ev_ids := rest\<rparr>))"

type_synonym operation = "manager \<Rightarrow> env \<Rightarrow> net_error option \<times> manager \<times> env"

definition destroy_op :: "string \<Rightarrow> operation" where
  "destroy_op slotID m e =
     (if gm_get (mg_slots m) slotID = None then (None, m, e)
      else let (destroyed, e) = next_driver e
           in if \<not> destroyed then (Some ErrDriver, m, e)
              else let (out, e) = next_store e; (err, m) = destroySlot True out slotID m in (err, m, e))"

definition markAndDestroy :: "string \<Rightarrow> operation" where
  "markAndDestroy slotID m e =
     (case gm_get (mg_slots m) slotID of
        None \<Rightarrow> (None, m, e)
      | Some s \<Rightarrow>
          if sl_Phase s = SlotPhaseDestroying then destroy_op slotID m e
          else let (out, e) = next_store e
               in case mark_slot out slotID m of
                    (Some err, m) \<Rightarrow> (Some err, m, e)
                  | (None, m) \<Rightarrow> destroy_op slotID m e)"

text \<open>The generator is not asked when there is no address.\<close>

definition generate_id :: "manager \<Rightarrow> env \<Rightarrow> string option \<times> env" where
  "generate_id m e = (if Allocate (mg_ipam m) (map sl_IP (gm_vals (mg_slots m))) = None then (None, e) else next_id e)"

definition prepareOne :: operation where
  "prepareOne m e =
     (if full m then (None, m, e)
      else let (generated, e) = generate_id m e
      in case reserve (ev_sha256 e) (ev_now e) generated m of
           (Inl err, m) \<Rightarrow> (Some err, m, e)
         | (Inr None, m) \<Rightarrow> (None, m, e)
         | (Inr (Some s), m) \<Rightarrow>
             (let (prepared, e) = next_driver e
              in if \<not> prepared then (Some ErrDriver, forget (sl_ID s) m, snd (next_driver e))
              else let s = ev_prepared e s; (out, e) = next_store e; (saved, m) = save_prepared out s m
              in if \<not> saved then (Some ErrStore, forget (sl_ID s) m, snd (next_driver e))
              else if mg_closed m
              then let e = snd (next_driver e); (out, e) = next_store e in (None, forget (sl_ID s) (snd (delete_file out (sl_ID s) m)), e)
              else (None, publish s m, e)))"

lemma length_gm_put: "length (gm_put k v m) = (if gm_get m k = None then Suc (length m) else length m)"
  unfolding gm_put_def gm_get_def by (induction m) auto

lemma reserve_Some:
  assumes "reserve sha256 now generated m = (Inr (Some s), m')"
  shows "m' = m\<lparr>mg_slots := gm_put (sl_ID s) (s\<lparr>sl_Phase := SlotPhaseDestroying\<rparr>) (mg_slots m)\<rparr> \<and> \<not> full m \<and>
    gm_get (mg_slots m) (sl_ID s) = None \<and> safeSlotID (sl_ID s) \<and>
    (\<exists>slotID ip address. s = new_slot sha256 m now slotID ip address \<and>
       Allocate (mg_ipam m) (map sl_IP (gm_vals (mg_slots m))) = Some (ip, address))"
  using assms by (auto simp: reserve_def new_slot_def Let_def split: if_splits option.splits)

lemma prepareOne_grows:
  assumes "prepareOne m e = (None, m', e')" "\<not> full m" "\<not> mg_closed m"
  shows "length (mg_slots m) < length (mg_slots m') \<and> mg_config m' = mg_config m"
  using assms
  by (auto simp: prepareOne_def reserve_def publish_def save_prepared_def length_gm_put Let_def
    split: prod.splits sum.splits option.splits if_splits)

function Replenish :: operation where
  "Replenish m e =
     (if mg_closed m then (None, m, e)
      else if full m then (None, m, e)
      else case prepareOne m e of
          (Some err, m', e') \<Rightarrow> (Some err, m', e')
        | (None, m', e') \<Rightarrow> Replenish m' e')"
  by pat_completeness auto
termination
proof (relation "measure (\<lambda>(m, e). nat (nc_Capacity (mg_config m) - int (length (mg_slots m))))", goal_cases)
  case (2 m e r p m' e')
  then have "prepareOne m e = (None, m', e')" by simp
  with 2 show ?case using prepareOne_grows[of m e m' e'] by (auto simp: full_def)
qed simp

declare Replenish.simps [simp del]

text \<open>\<^verbatim>\<open>Release\<close> starts a \<^verbatim>\<open>Replenish\<close> of its own in the background when it succeeds.\<close>

definition Release :: "owner \<Rightarrow> operation" where
  "Release owner m e =
     (case release_target owner m of
        None \<Rightarrow> (None, m, e)
      | Some target \<Rightarrow>
          if \<not> Owner_Equal (sl_Owner target) owner then (Some ErrOwnerConflict, m, e)
          else markAndDestroy (sl_ID target) m e)"

definition validateStoredSlot :: "manager \<Rightarrow> slot \<Rightarrow> bool" where
  "validateStoredSlot m s \<longleftrightarrow>
     \<not> (sl_Version s \<noteq> 1 \<or> sl_OwnerPodUID s \<noteq> nc_PodUID (mg_config m) \<or> \<not> safeSlotID (sl_ID s) \<or> sl_NetNSName s = [] \<or>
        sl_NetNSPath s = [] \<or> sl_HostNetNSPath s = [] \<or> sl_IP s = [] \<or> sl_PrivateCIDR s \<noteq> ipam_CIDR (mg_ipam m)) \<and>
     sl_Phase s \<in> {SlotPhaseClean, SlotPhaseBound, SlotPhaseDestroying} \<and>
     \<not> (sl_Phase s = SlotPhaseBound \<and> ow_SandboxUID (sl_Owner s) = [])"

fun load_slots :: "slot list \<Rightarrow> manager \<Rightarrow> bool \<times> manager" where
  "load_slots [] m = (True, m)"
| "load_slots (s # rest) m =
     (if \<not> validateStoredSlot m s then (False, m)
      else if gm_get (mg_slots m) (sl_ID s) \<noteq> None then (False, m)
      else load_slots rest (m\<lparr>mg_slots := gm_put (sl_ID s) s (mg_slots m)\<rparr>))"

fun check_loaded :: "slot list \<Rightarrow> operation" where
  "check_loaded [] m e = (None, m, e)"
| "check_loaded (s # rest) m e =
     (if sl_Phase s = SlotPhaseDestroying
      then (case destroy_op (sl_ID s) m e of
              (Some err, m, e) \<Rightarrow> (Some err, m, e)
            | (None, m, e) \<Rightarrow> check_loaded rest m e)
      else let (valid, e) = next_driver e
           in if valid then check_loaded rest m e
              else if sl_Phase s = SlotPhaseBound then (Some ErrStateInconsistent, m, e)
              else case markAndDestroy (sl_ID s) m e of
                  (Some err, m, e) \<Rightarrow> (Some err, m, e)
                | (None, m, e) \<Rightarrow> check_loaded rest m e)"

definition Initialize :: operation where
  "Initialize m e =
     (let (out, e) = next_store e
      in case LoadAll out (mg_dir m) of
           None \<Rightarrow> (Some ErrStore, m, e)
         | Some loaded \<Rightarrow>
             (let (ok, m) = load_slots loaded m
              in if \<not> ok then (Some ErrStateInconsistent, m, e)
                 else if int (length loaded) > nc_Capacity (mg_config m) then (Some ErrStateInconsistent, m, e)
                 else case check_loaded loaded m e of
                     (Some err, m, e) \<Rightarrow> (Some err, m, e)
                   | (None, m, e) \<Rightarrow> Replenish m e))"

definition runtime_owners :: "owner list \<Rightarrow> (string, owner) gomap" where
  "runtime_owners owners = fold (\<lambda>ow m. if ow_SandboxUID ow = [] then m else gm_put (ow_SandboxUID ow) ow m) owners []"

fun reconcile_bound :: "(string, owner) gomap \<Rightarrow> slot list \<Rightarrow> string list \<Rightarrow> manager \<Rightarrow> env \<Rightarrow>
    (net_error + string list) \<times> manager \<times> env" where
  "reconcile_bound owners [] seen m e = (Inr seen, m, e)"
| "reconcile_bound owners (s # rest) seen m e =
     (case gm_get owners (ow_SandboxUID (sl_Owner s)) of
        None \<Rightarrow>
          (case markAndDestroy (sl_ID s) m e of
             (Some err, m, e) \<Rightarrow> (Inl err, m, e)
           | (None, m, e) \<Rightarrow> reconcile_bound owners rest seen m e)
      | Some ow \<Rightarrow>
          if \<not> Owner_Equal (sl_Owner s) ow then (Inl ErrStateInconsistent, m, e)
          else reconcile_bound owners rest (ow_SandboxUID ow # seen) m e)"

definition Reconcile :: "owner list \<Rightarrow> operation" where
  "Reconcile runtimeOwners m e =
     (let owners = runtime_owners runtimeOwners;
          bound = filter (\<lambda>s. sl_Phase s = SlotPhaseBound) (gm_vals (mg_slots m))
      in case reconcile_bound owners bound [] m e of
           (Inl err, m, e) \<Rightarrow> (Some err, m, e)
         | (Inr seen, m, e) \<Rightarrow>
             if \<exists>uid \<in> set (gm_keys owners). uid \<notin> set seen then (Some ErrStateInconsistent, m, e)
             else Replenish m e)"

text \<open>\<^verbatim>\<open>Close\<close> tries every slot again and again until none is left; not to end is the value \<^verbatim>\<open>None\<close>.\<close>

fun destroy_each :: "string list \<Rightarrow> manager \<Rightarrow> env \<Rightarrow> manager \<times> env" where
  "destroy_each [] m e = (m, e)"
| "destroy_each (slotID # rest) m e = (case destroy_op slotID m e of (_, m', e') \<Rightarrow> destroy_each rest m' e')"

partial_function (option) close_loop :: "manager \<Rightarrow> env \<Rightarrow> (manager \<times> env) option" where
  [code]: "close_loop m e =
     (if mg_slots m = [] then Some (m, e)
      else case destroy_each (map fst (sortedSlots m)) m e of (m', e') \<Rightarrow> close_loop m' e')"

definition Close :: "manager \<Rightarrow> env \<Rightarrow> (manager \<times> env) option" where
  "Close m e = (if mg_closed m then Some (m, e) else close_loop (m\<lparr>mg_closed := True\<rparr>) e)"

end
