(* ===== verification/Network_Invariant.thy ===== *)
theory Network_Invariant
  imports Network_Manager
begin

text \<open>
  The invariant of the slots of a manager: every section and every operation of \<^verbatim>\<open>Network_Manager\<close>
  keeps it, and initialisation establishes it.
\<close>

section \<open>The invariant of the slots\<close>

text \<open>Two slots clash when they share an address or are bound to one Sandbox.\<close>

definition clash :: "slot \<Rightarrow> slot \<Rightarrow> bool" where
  "clash s t \<longleftrightarrow> sl_IP s = sl_IP t \<or>
     sl_Phase s = SlotPhaseBound \<and> sl_Phase t = SlotPhaseBound \<and> ow_SandboxUID (sl_Owner s) = ow_SandboxUID (sl_Owner t)"

definition slot_ok :: "ipv4_ipam \<Rightarrow> string \<Rightarrow> slot \<Rightarrow> bool" where
  "slot_ok i k s \<longleftrightarrow> sl_ID s = k \<and> safeSlotID k \<and> (\<exists>a. slot_address i a \<and> sl_IP s = String4 a) \<and>
     (sl_Phase s = SlotPhaseBound \<longrightarrow> ow_SandboxUID (sl_Owner s) \<noteq> [])"

definition slots_ok :: "ipv4_ipam \<Rightarrow> (string, slot) gomap \<Rightarrow> bool" where
  "slots_ok i slots \<longleftrightarrow> gm_wf slots \<and> gm_all (slot_ok i) slots \<and>
     (\<forall>k k' s t. gm_get slots k = Some s \<and> gm_get slots k' = Some t \<and> k \<noteq> k' \<longrightarrow> \<not> clash s t)"

definition ipam_built :: "ipv4_ipam \<Rightarrow> bool" where
  "ipam_built i \<longleftrightarrow> (\<exists>cidr guest. newIPv4IPAM cidr guest = Inr i)"

lemma ipam_builtI: "newIPv4IPAM cidr guest = Inr i \<Longrightarrow> ipam_built i"
  by (auto simp: ipam_built_def)

definition manager_ok :: "manager \<Rightarrow> bool" where
  "manager_ok m \<longleftrightarrow> slots_ok (mg_ipam m) (mg_slots m) \<and> int (length (mg_slots m)) \<le> nc_Capacity (mg_config m) \<and>
     ipam_built (mg_ipam m)"

lemma clash_sym: "clash s t \<longleftrightarrow> clash t s"
  by (auto simp: clash_def)

lemma slots_ok_get: "slots_ok i slots \<Longrightarrow> gm_get slots k = Some s \<Longrightarrow> slot_ok i k s"
  unfolding slots_ok_def using gm_all_get by fast

lemma slots_ok_val: "slots_ok i slots \<Longrightarrow> s \<in> set (gm_vals slots) \<Longrightarrow> gm_get slots (sl_ID s) = Some s"
  using slots_ok_get[of i slots] by (auto simp: slots_ok_def gm_vals_iff slot_ok_def)

lemma slots_ok_put:
  assumes ok: "slots_ok i slots" and new: "slot_ok i k s"
    and apart: "\<And>k' t. k' \<noteq> k \<Longrightarrow> gm_get slots k' = Some t \<Longrightarrow> \<not> clash s t"
  shows "slots_ok i (gm_put k s slots)"
proof -
  have "\<not> clash t u" if "gm_get (gm_put k s slots) k1 = Some t" "gm_get (gm_put k s slots) k2 = Some u" "k1 \<noteq> k2" for k1 k2 t u
    using that apart[of k1 t] apart[of k2 u] clash_sym[of t u] ok unfolding slots_ok_def
    by (cases "k1 = k"; cases "k2 = k") auto
  then show ?thesis using ok new unfolding slots_ok_def by (blast intro: gm_all_put gm.wf_put)
qed

lemma slots_ok_del: "slots_ok i slots \<Longrightarrow> slots_ok i (gm_del k slots)"
  unfolding slots_ok_def by (simp add: gm_all_del)

lemma slots_ok_update:
  assumes ok: "slots_ok i slots" and old: "gm_get slots k = Some s" and same: "sl_ID t = sl_ID s" "sl_IP t = sl_IP s"
    and bound: "sl_Phase t = SlotPhaseBound \<Longrightarrow> sl_Phase s = SlotPhaseBound \<and> sl_Owner t = sl_Owner s"
  shows "slots_ok i (gm_put k t slots)"
proof (rule slots_ok_put[OF ok])
  show "slot_ok i k t" using slots_ok_get[OF ok old] same bound by (auto simp: slot_ok_def)
  have "clash t u \<Longrightarrow> clash s u" for u using same bound by (auto simp: clash_def)
  then show "\<not> clash t u" if "k' \<noteq> k" "gm_get slots k' = Some u" for k' u
    using ok old that unfolding slots_ok_def by blast
qed

text \<open>What a section may do to the slots when it inserts none: a slot keeps its address, a slot that is
  being destroyed does not change, and a bound slot keeps its owner or is being destroyed.\<close>

definition same_slot :: "slot \<Rightarrow> slot \<Rightarrow> bool" where
  "same_slot s t \<longleftrightarrow> s\<lparr>sl_GuestIP := []\<rparr> = t\<lparr>sl_GuestIP := []\<rparr>"

definition slot_evolves :: "slot \<Rightarrow> slot \<Rightarrow> bool" where
  "slot_evolves s t \<longleftrightarrow> sl_IP t = sl_IP s \<and> (sl_Phase s = SlotPhaseDestroying \<longrightarrow> t = s) \<and>
     (sl_Phase s = SlotPhaseBound \<longrightarrow> same_slot s t \<or> sl_Phase t = SlotPhaseDestroying)"

definition evolves :: "manager \<Rightarrow> manager \<Rightarrow> bool" where
  "evolves m m' \<longleftrightarrow> mg_config m' = mg_config m \<and> mg_ipam m' = mg_ipam m \<and> length (mg_slots m') \<le> length (mg_slots m) \<and>
     (\<forall>k. gm_get (mg_slots m) k \<noteq> None \<and> gm_get (mg_slots m') k = None \<longrightarrow> length (mg_slots m') < length (mg_slots m)) \<and>
     (\<forall>k t. gm_get (mg_slots m') k = Some t \<longrightarrow> (\<exists>s. gm_get (mg_slots m) k = Some s \<and> slot_evolves s t))"

lemma same_slot_refl [simp]: "same_slot s s"
  by (simp add: same_slot_def)

lemma same_slot_fields:
  assumes "same_slot s t"
  shows "sl_ID t = sl_ID s" "sl_IP t = sl_IP s" "sl_Phase t = sl_Phase s" "sl_Owner t = sl_Owner s"
  using assms by (cases s; cases t; simp add: same_slot_def)+

lemma same_slot_trans: "same_slot s t \<Longrightarrow> same_slot t u \<Longrightarrow> same_slot s u"
  by (simp add: same_slot_def)

lemma slot_evolves_refl [simp]: "slot_evolves s s"
  by (simp add: slot_evolves_def)

lemma evolves_same [simp]:
  "mg_config m' = mg_config m \<Longrightarrow> mg_ipam m' = mg_ipam m \<Longrightarrow> mg_slots m' = mg_slots m \<Longrightarrow> evolves m m'"
  by (auto simp: evolves_def)

lemma evolves_put:
  assumes "gm_get (mg_slots m) k = Some s" "slot_evolves s t" "mg_slots m' = gm_put k t (mg_slots m)"
    "mg_config m' = mg_config m" "mg_ipam m' = mg_ipam m"
  shows "evolves m m'"
  using assms by (auto simp: evolves_def length_gm_put split: if_splits)

lemma find_Some: "List.find P xs = Some x \<Longrightarrow> x \<in> set xs \<and> P x"
  by (auto simp: find_Some_iff)

lemma bind_slot_simps [simp]:
  "sl_ID (bind_slot now owner s) = sl_ID s" "sl_IP (bind_slot now owner s) = sl_IP s"
  "sl_Phase (bind_slot now owner s) = SlotPhaseBound" "sl_Owner (bind_slot now owner s) = owner"
  by (simp_all add: bind_slot_def)

text \<open>The cases of \<^verbatim>\<open>Acquire\<close>: nothing changes but counters and files, or a clean slot is bound to a
  Sandbox that had none.\<close>

lemma Acquire_cases:
  assumes "Acquire out now owner m = (r, m')" "slots_ok (mg_ipam m) (mg_slots m)"
  obtains (kept) "mg_slots m' = mg_slots m" "mg_dir m' = mg_dir m"
      "\<And>s. r = Inr s \<Longrightarrow> s \<in> set (gm_vals (mg_slots m)) \<and> bound_to (ow_SandboxUID owner) s \<and> Owner_Equal (sl_Owner s) owner"
    | (failed) k s where "gm_get (mg_slots m) k = Some s" "sl_Phase s = SlotPhaseClean" "r = Inl ErrStore"
      "mg_slots m' = mg_slots m" "mg_dir m' = snd (Save out (bind_slot now owner s) (mg_dir m))"
    | (bound) k s where "gm_get (mg_slots m) k = Some s" "sl_Phase s = SlotPhaseClean" "r = Inr (bind_slot now owner s)"
      "\<And>t. t \<in> set (gm_vals (mg_slots m)) \<Longrightarrow> \<not> bound_to (ow_SandboxUID owner) t" "ow_SandboxUID owner \<noteq> []"
      "mg_slots m' = gm_put k (bind_slot now owner s) (mg_slots m)"
      "Save out (bind_slot now owner s) (mg_dir m) = (True, mg_dir m')"
proof -
  let ?held = "List.find (bound_to (ow_SandboxUID owner)) (gm_vals (mg_slots m))"
  let ?clean = "List.find (\<lambda>(slotID, s). sl_Phase s = SlotPhaseClean) (sortedSlots m)"
  have clean: "gm_get (mg_slots m) k = Some s \<and> sl_Phase s = SlotPhaseClean" if "?clean = Some (k, s)" for k s
    using find_Some[OF that] assms(2) by (auto simp: sortedSlots_def slots_ok_def gm_get_iff_in_set)
  show thesis
  proof (cases "ow_SandboxUID owner = [] \<or> ow_InstanceGeneration owner \<le> 0 \<or> ow_AssignmentAttempt owner \<le> 0")
    case True
    then have "r = Inl ErrInvalidOwner" "m' = m" using assms(1) by (simp_all add: Acquire_def)
    then show thesis by (intro kept) simp_all
  next
    case valid: False
    show thesis
    proof (cases ?held)
      case (Some s)
      have "mg_slots m' = mg_slots m" "mg_dir m' = mg_dir m" "r = (if Owner_Equal (sl_Owner s) owner then Inr s else Inl ErrOwnerConflict)"
        using assms(1) valid Some by (auto simp: Acquire_def split: if_splits)
      then show thesis using find_Some[OF Some] by (intro kept) (auto split: if_splits)
    next
      case held: None
      show thesis
      proof (cases ?clean)
        case None
        then show thesis using assms(1) valid held by (intro kept) (auto simp: Acquire_def split: if_splits)
      next
        case (Some ks)
        obtain k s where ks: "ks = (k, s)" by (cases ks)
        obtain saved dir where save: "Save out (bind_slot now owner s) (mg_dir m) = (saved, dir)" by (cases "Save out (bind_slot now owner s) (mg_dir m)")
        have none: "\<not> bound_to (ow_SandboxUID owner) t" if "t \<in> set (gm_vals (mg_slots m))" for t
          using held that by (simp add: find_None_iff)
        have res: "(r, m') = (if saved then (Inr (bind_slot now owner s), m\<lparr>mg_slots := gm_put k (bind_slot now owner s) (mg_slots m),
            mg_hit := mg_hit m + 1, mg_dir := dir\<rparr>) else (Inl ErrStore, m\<lparr>mg_dir := dir\<rparr>))"
          using assms(1) valid held Some by (auto simp: Acquire_def ks save Let_def split: if_splits)
        show thesis using clean[of k s] Some none valid res save by (cases saved) (auto intro: failed bound simp: ks)
      qed
    qed
  qed
qed

lemma Acquire_frame: "Acquire out now owner m = (r, m') \<Longrightarrow> mg_config m' = mg_config m \<and> mg_ipam m' = mg_ipam m \<and> mg_closed m' = mg_closed m"
  by (auto simp: Acquire_def Let_def split: if_splits option.splits prod.splits)

lemma Acquire_ok:
  assumes "Acquire out now owner m = (r, m')" "manager_ok m"
  shows "manager_ok m' \<and> evolves m m'"
proof -
  have ok: "slots_ok (mg_ipam m) (mg_slots m)" using assms(2) by (simp add: manager_ok_def)
  note frame = Acquire_frame[OF assms(1)]
  show ?thesis
  proof (rule Acquire_cases[OF assms(1) ok])
    fix k s
    let ?t = "bind_slot now owner s"
    assume k: "gm_get (mg_slots m) k = Some s" "sl_Phase s = SlotPhaseClean" "ow_SandboxUID owner \<noteq> []"
      and none: "\<And>t. t \<in> set (gm_vals (mg_slots m)) \<Longrightarrow> \<not> bound_to (ow_SandboxUID owner) t"
      and slots: "mg_slots m' = gm_put k ?t (mg_slots m)"
    have "\<not> clash ?t u" if "k' \<noteq> k" "gm_get (mg_slots m) k' = Some u" for k' u
    proof -
      have "\<not> clash s u" using ok k(1) that unfolding slots_ok_def by blast
      moreover have "\<not> bound_to (ow_SandboxUID owner) u" using none that(2) ok by (auto simp: gm_vals_iff slots_ok_def)
      ultimately show ?thesis by (auto simp: clash_def bound_to_def)
    qed
    then have "slots_ok (mg_ipam m) (mg_slots m')" unfolding slots
      by (intro slots_ok_put[OF ok]) (use slots_ok_get[OF ok k(1)] k(3) in \<open>auto simp: slot_ok_def\<close>)
    moreover have "slot_evolves s ?t" using k(2) by (simp add: slot_evolves_def)
    ultimately show ?thesis using evolves_put[OF k(1) _ slots] frame assms(2) k(1)
      by (simp add: manager_ok_def slots length_gm_put)
  qed (use assms(2) frame in \<open>auto simp: manager_ok_def\<close>)
qed

lemma mark_slot_ok:
  assumes "mark_slot out k m = (err, m')" "manager_ok m"
  shows "manager_ok m' \<and> evolves m m' \<and> mg_closed m' = mg_closed m"
proof (cases "gm_get (mg_slots m) k")
  case (Some s)
  let ?t = "s\<lparr>sl_Phase := SlotPhaseDestroying\<rparr>"
  have ok: "slots_ok (mg_ipam m) (gm_put k ?t (mg_slots m))"
    by (rule slots_ok_update[OF _ Some]) (use assms(2) in \<open>simp_all add: manager_ok_def\<close>)
  have ev: "slot_evolves s ?t" by (simp add: slot_evolves_def)
  show ?thesis using assms Some ok evolves_put[OF Some ev]
    by (auto simp: mark_slot_def manager_ok_def length_gm_put Let_def split: if_splits prod.splits)
qed (use assms in \<open>auto simp: mark_slot_def\<close>)

lemma length_gm_del: "length (gm_del k m) \<le> length m" "gm_get m k \<noteq> None \<Longrightarrow> length (gm_del k m) < length m"
proof -
  show le: "length (gm_del k m) \<le> length m" for m :: "('a, 'b) gomap" unfolding gm_del_def by (induction m) auto
  show "gm_get m k \<noteq> None \<Longrightarrow> length (gm_del k m) < length m"
    using le unfolding gm_del_def gm_get_def by (induction m) (auto simp: less_Suc_eq_le)
qed

lemma forget_ok: "manager_ok m \<Longrightarrow> manager_ok (forget k m) \<and> evolves m (forget k m) \<and> mg_closed (forget k m) = mg_closed m"
  using length_gm_del(1)[of k "mg_slots m"] length_gm_del(2)[of "mg_slots m" k]
  by (auto simp: manager_ok_def forget_def slots_ok_del evolves_def split: if_splits)

lemma delete_file_ok:
  "delete_file out k m = (ok, m') \<Longrightarrow> manager_ok m \<Longrightarrow> manager_ok m' \<and> evolves m m' \<and> mg_closed m' = mg_closed m \<and> mg_slots m' = mg_slots m"
  by (auto simp: delete_file_def manager_ok_def Let_def split: prod.splits)

lemma guest_commit_ok:
  assumes "guest_commit out owner applied m = (err, m')" "manager_ok m"
    and same: "\<And>s. gm_get (mg_slots m) (sl_ID applied) = Some s \<Longrightarrow> sl_Phase s = SlotPhaseBound \<Longrightarrow> same_slot s applied"
  shows "manager_ok m' \<and> evolves m m' \<and> mg_closed m' = mg_closed m"
proof (cases "gm_get (mg_slots m) (sl_ID applied)")
  case (Some s)
  show ?thesis
  proof (cases "sl_Phase s = SlotPhaseBound")
    case True
    note eq = same_slot_fields[OF same[OF Some True]]
    have ok: "slots_ok (mg_ipam m) (gm_put (sl_ID applied) applied (mg_slots m))"
      by (rule slots_ok_update[OF _ Some]) (use assms(2) eq in \<open>simp_all add: manager_ok_def\<close>)
    have ev: "slot_evolves s applied" using same[OF Some True] True eq by (simp add: slot_evolves_def)
    show ?thesis using assms(1,2) Some ok evolves_put[OF Some ev]
      by (auto simp: guest_commit_def manager_ok_def length_gm_put Let_def split: if_splits prod.splits)
  qed (use assms(1,2) Some in \<open>auto simp: guest_commit_def\<close>)
qed (use assms(1,2) in \<open>auto simp: guest_commit_def\<close>)

text \<open>A slot in preparation: its address is its own, and it may be published.\<close>

definition reserved :: "slot \<Rightarrow> manager \<Rightarrow> bool" where
  "reserved s m \<longleftrightarrow> safeSlotID (sl_ID s) \<and> (\<exists>a. slot_address (mg_ipam m) a \<and> sl_IP s = String4 a) \<and>
     (\<forall>k t. gm_get (mg_slots m) k = Some t \<and> k \<noteq> sl_ID s \<longrightarrow> sl_IP t \<noteq> sl_IP s) \<and>
     (case gm_get (mg_slots m) (sl_ID s) of
        None \<Rightarrow> \<not> full m
      | Some t \<Rightarrow> sl_IP t = sl_IP s \<and> sl_Phase t = SlotPhaseDestroying \<and> ow_SandboxUID (sl_Owner t) = [])"

lemma reserve_ok:
  assumes "reserve sha256 now generated m = (Inr (Some s), m')" "manager_ok m"
  shows "manager_ok m' \<and> reserved s m' \<and> mg_closed m' = mg_closed m \<and> mg_config m' = mg_config m \<and> mg_ipam m' = mg_ipam m"
proof -
  let ?t = "s\<lparr>sl_Phase := SlotPhaseDestroying\<rparr>"
  obtain slotID ip address where s: "s = new_slot sha256 m now slotID ip address"
    and ip: "Allocate (mg_ipam m) (map sl_IP (gm_vals (mg_slots m))) = Some (ip, address)"
    and m': "m' = m\<lparr>mg_slots := gm_put (sl_ID s) ?t (mg_slots m)\<rparr>"
    and new: "\<not> full m" "gm_get (mg_slots m) (sl_ID s) = None" "safeSlotID (sl_ID s)"
    using reserve_Some[OF assms(1)] by blast
  have slots: "slots_ok (mg_ipam m) (mg_slots m)" using assms(2) by (simp add: manager_ok_def)
  obtain cidr guest where "newIPv4IPAM cidr guest = Inr (mg_ipam m)" using assms(2) by (auto simp: manager_ok_def ipam_built_def)
  from Allocate_Some[OF this ip] obtain a where a: "slot_address (mg_ipam m) a" "ip = String4 a"
    "ip \<notin> set (map sl_IP (gm_vals (mg_slots m)))" by blast
  have ips: "sl_IP s = ip" "ow_SandboxUID (sl_Owner s) = []" by (simp_all add: s new_slot_def no_owner_def Let_def)
  have apart: "sl_IP t \<noteq> sl_IP s" if "gm_get (mg_slots m) k = Some t" for k t
  proof -
    have "t \<in> set (gm_vals (mg_slots m))" using that slots by (auto simp: gm_vals_iff slots_ok_def)
    then show ?thesis using a(3) ips by (metis image_eqI set_map)
  qed
  have "slots_ok (mg_ipam m) (gm_put (sl_ID s) ?t (mg_slots m))"
  proof (rule slots_ok_put[OF slots])
    show "slot_ok (mg_ipam m) (sl_ID s) ?t" using new(3) a(1,2) ips by (auto simp: slot_ok_def)
    show "\<not> clash ?t u" if "gm_get (mg_slots m) k' = Some u" for k' u using apart[OF that] by (auto simp: clash_def)
  qed
  moreover have "reserved s m'" using new a(1,2) ips apart by (auto simp: m' reserved_def)
  ultimately show ?thesis using assms(2) new by (simp add: m' manager_ok_def length_gm_put full_def)
qed

lemma publish_ok:
  assumes "reserved s m" "manager_ok m"
  shows "manager_ok (publish s m)"
proof -
  let ?t = "s\<lparr>sl_Phase := SlotPhaseClean\<rparr>"
  have "slots_ok (mg_ipam m) (gm_put (sl_ID s) ?t (mg_slots m))"
    by (rule slots_ok_put) (use assms in \<open>auto simp: manager_ok_def slot_ok_def clash_def reserved_def\<close>)
  moreover have "int (length (gm_put (sl_ID s) ?t (mg_slots m))) \<le> nc_Capacity (mg_config m)"
    using assms by (auto simp: manager_ok_def length_gm_put reserved_def full_def split: option.splits)
  ultimately show ?thesis using assms(2) by (simp add: manager_ok_def publish_def)
qed

section \<open>Operations keep the invariant\<close>

definition env_ok :: "env \<Rightarrow> bool" where
  "env_ok e \<longleftrightarrow> (\<forall>s. prepares s (ev_prepared e s))"

context slot_driver
begin

lemma env_ok_prepare: "env_ok (e\<lparr>ev_prepared := (\<lambda>s. fst (snd (prepare h s tr)))\<rparr>)"
proof -
  have "prepares s (fst (snd (prepare h s tr)))" for s by (cases "prepare h s tr") (auto dest: prepared)
  then show ?thesis by (simp add: env_ok_def)
qed

end

lemma env_calls [simp]:
  "ev_prepared (snd (next_driver e)) = ev_prepared e" "ev_prepared (snd (next_store e)) = ev_prepared e"
  "ev_prepared (snd (next_id e)) = ev_prepared e"
  by (simp_all add: next_driver_def next_store_def next_id_def split: list.splits)

lemma env_ok_calls [simp]:
  "next_driver e = (b, e1) \<Longrightarrow> env_ok e1 = env_ok e" "next_store e = (out, e1) \<Longrightarrow> env_ok e1 = env_ok e"
  "next_id e = (i, e1) \<Longrightarrow> env_ok e1 = env_ok e"
  using env_calls[of e] by (simp_all add: env_ok_def)

lemma env_ok_snd [simp]: "env_ok (snd (next_driver e)) = env_ok e" "env_ok (snd (next_store e)) = env_ok e"
  by (simp_all add: env_ok_def)

text \<open>The frame of an operation: it keeps the invariant, the configuration and what the driver is.\<close>

definition keeps :: "manager \<Rightarrow> env \<Rightarrow> manager \<Rightarrow> env \<Rightarrow> bool" where
  "keeps m e m' e' \<longleftrightarrow> (manager_ok m \<and> env_ok e \<longrightarrow> manager_ok m' \<and> env_ok e') \<and>
     mg_config m' = mg_config m \<and> mg_ipam m' = mg_ipam m \<and> mg_closed m' = mg_closed m"

lemma keeps_refl [simp]: "keeps m e m e"
  by (simp add: keeps_def)

lemma keeps_trans: "keeps m e m1 e1 \<Longrightarrow> keeps m1 e1 m' e' \<Longrightarrow> keeps m e m' e'"
  by (simp add: keeps_def)

lemma forget_simps [simp]:
  "mg_config (forget k m) = mg_config m" "mg_ipam (forget k m) = mg_ipam m" "mg_closed (forget k m) = mg_closed m"
  "mg_dir (forget k m) = mg_dir m" "mg_slots (forget k m) = gm_del k (mg_slots m)"
  by (simp_all add: forget_def)

lemma delete_file_frame:
  "delete_file out k m = (ok, m') \<Longrightarrow> m' = m\<lparr>mg_dir := mg_dir m'\<rparr>"
  by (auto simp: delete_file_def split: prod.splits)

lemma manager_ok_dir [simp]: "manager_ok (m\<lparr>mg_dir := d\<rparr>) = manager_ok m" "manager_ok (m\<lparr>mg_closed := b\<rparr>) = manager_ok m"
  by (simp_all add: manager_ok_def)

definition frame :: "manager \<Rightarrow> manager \<Rightarrow> bool" where
  "frame m m' \<longleftrightarrow> (manager_ok m \<longrightarrow> manager_ok m') \<and>
     mg_config m' = mg_config m \<and> mg_ipam m' = mg_ipam m \<and> mg_closed m' = mg_closed m"

lemma frame_refl [simp]: "frame m m"
  by (simp add: frame_def)

lemma delete_forget_frame:
  assumes "delete_file out k m = (ok, m1)"
  shows "frame m m1" "frame m (forget k m1)"
proof -
  have m1: "m1 = m\<lparr>mg_dir := mg_dir m1\<rparr>" by (rule delete_file_frame[OF assms])
  have "manager_ok m1 = manager_ok m" by (subst m1) simp
  moreover have "mg_config m1 = mg_config m" "mg_ipam m1 = mg_ipam m" "mg_closed m1 = mg_closed m" by (subst m1; simp)+
  ultimately show "frame m m1" "frame m (forget k m1)" using forget_ok[of m1 k] by (simp_all add: frame_def)
qed

lemma delete_forget_frame_snd: "frame m (forget k (snd (delete_file out k m)))"
  using delete_forget_frame(2)[of out k m] by (cases "delete_file out k m") simp

lemma destroySlot_frame: "destroySlot b out k m = (err, m') \<Longrightarrow> frame m m'"
  by (auto simp: destroySlot_def dest: delete_forget_frame split: option.splits if_splits prod.splits)

lemma mark_slot_frame: "mark_slot out k m = (err, m') \<Longrightarrow> frame m m'"
  using mark_slot_ok[of out k m err m']
  by (auto simp: frame_def mark_slot_def Let_def split: option.splits if_splits prod.splits)

lemma keeps_calls: "frame m m' \<Longrightarrow> env_ok e' = env_ok e \<Longrightarrow> keeps m e m' e'"
  by (simp add: keeps_def frame_def)

lemma destroy_op_keeps: "destroy_op k m e = (err, m', e') \<Longrightarrow> keeps m e m' e'"
  unfolding destroy_op_def
  by (auto intro!: keeps_calls dest: destroySlot_frame split: if_splits prod.splits)

lemma markAndDestroy_keeps:
  assumes "markAndDestroy k m e = (err, m', e')"
  shows "keeps m e m' e'"
proof -
  have "keeps m e m1 e1" if "mark_slot out k m = (r, m1)" "next_store e = (out, e1)" for out r m1 e1
    using mark_slot_frame[OF that(1)] that(2) by (intro keeps_calls) simp_all
  then show ?thesis using assms unfolding markAndDestroy_def
    by (auto dest: destroy_op_keeps split: option.splits if_splits prod.splits) (metis destroy_op_keeps keeps_trans)
qed

lemma reserved_prepares:
  assumes "prepares s t" "reserved s m"
  shows "reserved t (m\<lparr>mg_dir := d\<rparr>)"
  using assms(2) prepares_fields[OF assms(1)] by (simp add: reserved_def full_def split: option.splits)

lemma generate_id_env: "generate_id m e = (i, e1) \<Longrightarrow> env_ok e1 = env_ok e"
  using env_ok_calls(3)[of e i e1] by (auto simp: generate_id_def split: if_splits)

lemma prepareOne_keeps:
  assumes "prepareOne m e = (err, m', e')" "manager_ok m" "env_ok e"
  shows "manager_ok m' \<and> env_ok e' \<and> mg_config m' = mg_config m \<and> mg_ipam m' = mg_ipam m \<and> mg_closed m' = mg_closed m"
proof (cases "full m")
  case True
  then show ?thesis using assms by (simp add: prepareOne_def)
next
  case False
  obtain generated e1 where e1: "generate_id m e = (generated, e1)" by (cases "generate_id m e")
  obtain r m1 where r: "reserve (ev_sha256 e1) (ev_now e1) generated m = (r, m1)" by fastforce
  show ?thesis
  proof (cases "\<exists>s. r = Inr (Some s)")
    case failed: False
    have "m1 = m" using r failed by (auto simp: reserve_def Let_def split: if_splits option.splits)
    then show ?thesis using assms failed False e1 r by (auto simp: prepareOne_def generate_id_env split: sum.splits option.splits)
  next
    case True
    then obtain s where s: "r = Inr (Some s)" by blast
    have m1: "manager_ok m1" "reserved s m1" "mg_closed m1 = mg_closed m" "mg_config m1 = mg_config m" "mg_ipam m1 = mg_ipam m"
      using reserve_ok[OF r[unfolded s] assms(2)] by simp_all
    obtain b e2 where e2: "next_driver e1 = (b, e2)" by (cases "next_driver e1")
    obtain out e3 where e3: "next_store e2 = (out, e3)" by (cases "next_store e2")
    let ?s = "ev_prepared e2 s"
    obtain ok m2 where m2: "save_prepared out ?s m1 = (ok, m2)" by (cases "save_prepared out ?s m1")
    have env: "env_ok e2" "env_ok e3" "env_ok (snd (next_driver e2))" "env_ok (snd (next_driver e3))"
      using assms(3) generate_id_env[OF e1] env_ok_calls(1)[OF e2] env_ok_calls(2)[OF e3] by simp_all
    have p: "prepares s ?s" using env(1) by (simp add: env_ok_def)
    obtain d where m2': "m2 = m1\<lparr>mg_dir := d\<rparr>" using m2 by (auto simp: save_prepared_def split: prod.splits)
    have ok2: "manager_ok m2" "reserved ?s m2" "mg_closed m2 = mg_closed m" "mg_config m2 = mg_config m" "mg_ipam m2 = mg_ipam m"
      using m1 reserved_prepares[OF p m1(2)] by (simp_all add: m2')
    show ?thesis using assms(1,2) False r s e1 e2 e3 m2 env ok2 m1 publish_ok[OF ok2(2,1)] forget_ok[OF m1(1), of "sl_ID s"]
        forget_ok[OF ok2(1), of "sl_ID ?s"] delete_forget_frame_snd[of m2 "sl_ID ?s"]
      by (auto simp: prepareOne_def publish_def frame_def Let_def split: if_splits prod.splits)
  qed
qed

lemma Replenish_keeps: "Replenish m e = (err, m', e') \<Longrightarrow> manager_ok m \<Longrightarrow> env_ok e \<Longrightarrow> keeps m e m' e'"
proof (induction m e arbitrary: err m' e' rule: Replenish.induct)
  case (1 m e)
  obtain r m1 e1 where p: "prepareOne m e = (r, m1, e1)" by (cases "prepareOne m e")
  note k = prepareOne_keeps[OF p 1(3,4)]
  show ?case
  proof (cases "mg_closed m \<or> full m")
    case False
    have IH: "keeps m1 e1 m' e'" if "r = None"
      using 1(1)[of r "(m1, e1)" m1 e1 err m' e'] 1(2) p False k that by (simp add: Replenish.simps[of m e])
    show ?thesis using 1(2) False p k IH by (cases r) (auto simp: Replenish.simps[of m e] keeps_def)
  qed (use 1(2) in \<open>auto simp: Replenish.simps[of m e] split: if_splits\<close>)
qed

lemma check_loaded_keeps: "check_loaded loaded m e = (err, m', e') \<Longrightarrow> keeps m e m' e'"
proof (induction loaded m e arbitrary: err m' e' rule: check_loaded.induct)
  case (2 s rest m e)
  obtain b e1 where e1: "next_driver e = (b, e1)" by (cases "next_driver e")
  obtain r1 m1 e2 where d: "destroy_op (sl_ID s) m e = (r1, m1, e2)" by (cases "destroy_op (sl_ID s) m e")
  obtain r2 m2 e3 where d2: "markAndDestroy (sl_ID s) m e1 = (r2, m2, e3)" by (cases "markAndDestroy (sl_ID s) m e1")
  have k: "keeps m e m e1" using e1 by (simp add: keeps_def)
  note rec = 2(1)[of r1 "(m1, e2)" m1 e2 err m' e'] 2(2)[of "(b, e1)" b e1] 2(3)[of "(b, e1)" b e1 r2 "(m2, e3)" m2 e3]
  consider (destroying) "sl_Phase s = SlotPhaseDestroying" | (valid) "sl_Phase s \<noteq> SlotPhaseDestroying" b
    | (bound) "sl_Phase s = SlotPhaseBound" "\<not> b" | (clean) "sl_Phase s \<noteq> SlotPhaseDestroying" "sl_Phase s \<noteq> SlotPhaseBound" "\<not> b" by blast
  then show ?case
  proof cases
    case destroying
    then show ?thesis using 2(4) rec(1) d destroy_op_keeps[OF d] by (cases r1) (auto intro: keeps_trans)
  next
    case valid
    then show ?thesis using 2(4) rec(2) e1 k by (auto intro: keeps_trans)
  next
    case bound
    then show ?thesis using 2(4) e1 k by auto
  next
    case clean
    then show ?thesis using 2(4) rec(3) e1 k d2 keeps_trans[OF k markAndDestroy_keeps[OF d2]] by (cases r2) (auto intro: keeps_trans)
  qed
qed auto

text \<open>What the files of a directory must satisfy: no two of them clash, and every address is one the
  allocator may give. An empty directory, with which a Pod starts, satisfies it.\<close>

definition dir_ok :: "ipv4_ipam \<Rightarrow> state_dir \<Rightarrow> bool" where
  "dir_ok i dir \<longleftrightarrow> gm_wf dir \<and>
     (\<forall>n n' s t. gm_get dir n = Some (StateSlot s) \<and> gm_get dir n' = Some (StateSlot t) \<and> n \<noteq> n' \<longrightarrow> \<not> clash s t) \<and>
     (\<forall>n s. gm_get dir n = Some (StateSlot s) \<longrightarrow> (\<exists>a. slot_address i a \<and> sl_IP s = String4 a))"

lemma load_entries_mem:
  "load_entries es = Some loaded \<Longrightarrow> s \<in> set loaded \<Longrightarrow> (state_name (sl_ID s), StateSlot s) \<in> set es"
proof (induction es arbitrary: loaded)
  case (Cons e es)
  then show ?case by (cases e) (auto split: if_splits state_file.splits)
qed simp

lemma load_entries_apart:
  assumes "load_entries es = Some loaded" "distinct (map fst es)"
    and "\<And>n n' s t. (n, StateSlot s) \<in> set es \<Longrightarrow> (n', StateSlot t) \<in> set es \<Longrightarrow> n \<noteq> n' \<Longrightarrow> \<not> clash s t"
  shows "sorted_wrt (\<lambda>s t. \<not> clash s t) loaded"
  using assms
proof (induction es arbitrary: loaded)
  case (Cons e rest)
  obtain name entry where e: "e = (name, entry)" by (cases e)
  show ?case
  proof (cases "entry = StateDirectory \<or> Ext name \<noteq> ''.json''")
    case False
    then obtain s tail where s: "entry = StateSlot s" "loaded = s # tail" "load_entries rest = Some tail"
      using Cons(2) by (auto simp: e split: if_splits state_file.splits)
    have "\<not> clash s t" if "t \<in> set tail" for t
    proof -
      have t: "(state_name (sl_ID t), StateSlot t) \<in> set rest" using load_entries_mem[OF s(3) that] .
      then have "state_name (sl_ID t) \<noteq> name" using Cons(3) by (force simp: e)
      then show ?thesis using Cons(4)[of name s "state_name (sl_ID t)" t] t s(1) by (auto simp: e)
    qed
    moreover have "sorted_wrt (\<lambda>s t. \<not> clash s t) tail"
      by (rule Cons(1)[OF s(3)]) (use Cons(3) in simp, rule Cons(4), simp_all)
    ultimately show ?thesis by (simp add: s(2))
  qed (use Cons e in auto)
qed simp

lemma LoadAll_ok:
  assumes "LoadAll out dir = Some loaded" "dir_ok i dir"
  shows "sorted_wrt (\<lambda>s t. \<not> clash s t) loaded" "\<And>s. s \<in> set loaded \<Longrightarrow> \<exists>a. slot_address i a \<and> sl_IP s = String4 a"
proof -
  let ?es = "sort_slice (\<lambda>a b. fst a < fst b) dir"
  have l: "load_entries ?es = Some loaded" using assms(1) by (simp add: LoadAll_def split: if_splits)
  have wf: "gm_wf dir" using assms(2) by (simp add: dir_ok_def)
  have get: "(n, f) \<in> set ?es \<longleftrightarrow> gm_get dir n = Some f" for n f using wf by (simp add: gm_get_iff_in_set)
  have d: "distinct (map fst ?es)" using wf unfolding gm_wf_def
    by (metis mset_eq_imp_distinct_iff mset_map mset_sort_slice)
  show "sorted_wrt (\<lambda>s t. \<not> clash s t) loaded"
    by (rule load_entries_apart[OF l d]) (use assms(2) get in \<open>auto simp: dir_ok_def\<close>)
  show "\<exists>a. slot_address i a \<and> sl_IP s = String4 a" if "s \<in> set loaded" for s
    using load_entries_mem[OF l that] assms(2) get unfolding dir_ok_def by blast
qed

lemma load_slots_ok:
  assumes "load_slots loaded m = (True, m')" "slots_ok (mg_ipam m) (mg_slots m)" "sorted_wrt (\<lambda>s t. \<not> clash s t) loaded"
    and "\<And>s. s \<in> set loaded \<Longrightarrow> \<exists>a. slot_address (mg_ipam m) a \<and> sl_IP s = String4 a"
    and "\<And>s k t. s \<in> set loaded \<Longrightarrow> gm_get (mg_slots m) k = Some t \<Longrightarrow> \<not> clash s t"
  shows "slots_ok (mg_ipam m) (mg_slots m') \<and> length (mg_slots m') = length (mg_slots m) + length loaded \<and>
    mg_config m' = mg_config m \<and> mg_ipam m' = mg_ipam m \<and> mg_closed m' = mg_closed m"
  using assms
proof (induction loaded arbitrary: m)
  case (Cons s rest)
  let ?m = "m\<lparr>mg_slots := gm_put (sl_ID s) s (mg_slots m)\<rparr>"
  have v: "validateStoredSlot m s" "gm_get (mg_slots m) (sl_ID s) = None" "load_slots rest ?m = (True, m')"
    using Cons(2) by (auto split: if_splits)
  have "slots_ok (mg_ipam m) (gm_put (sl_ID s) s (mg_slots m))"
    by (rule slots_ok_put[OF Cons(3)]) (use v(1) Cons(5,6) in \<open>auto simp: slot_ok_def validateStoredSlot_def\<close>)
  moreover have "\<not> clash t u" if "t \<in> set rest" "gm_get (gm_put (sl_ID s) s (mg_slots m)) k = Some u" for t k u
    using that Cons(4) Cons(6)[of t k u] clash_sym[of s t] by (auto split: if_splits)
  ultimately show ?case using Cons(1)[OF v(3)] Cons(4,5) v(2) by (simp add: length_gm_put)
qed simp

text \<open>A manager that has been initialised from such a directory satisfies the invariant.\<close>

lemma Initialize_ok:
  assumes new: "NewManager guest config dir = Some m" and ok: "dir_ok (mg_ipam m) dir" and e: "env_ok e"
    and init: "Initialize m e = (None, m', e')"
  shows "manager_ok m' \<and> \<not> mg_closed m'"
proof -
  have m: "mg_slots m = []" "mg_dir m = dir" "\<not> mg_closed m" "ipam_built (mg_ipam m)"
    using new by (auto simp: NewManager_def NewGuestVMIPAM_def NewIPv4IPAM_def Let_def intro: ipam_builtI split: if_splits sum.splits)
  obtain out e1 where e1: "next_store e = (out, e1)" by (cases "next_store e")
  obtain loaded m1 r m2 e2 where l: "LoadAll out dir = Some loaded" "load_slots loaded m = (True, m1)"
      "int (length loaded) \<le> nc_Capacity (mg_config m1)" "check_loaded loaded m1 e1 = (None, m2, e2)" "Replenish m2 e2 = (None, m', e')"
    using init by (auto simp: Initialize_def e1 m(2) split: option.splits prod.splits if_splits)
  have "slots_ok (mg_ipam m) (mg_slots m)" by (simp add: m(1) slots_ok_def)
  from load_slots_ok[OF l(2) this LoadAll_ok[OF l(1) ok]] have m1: "manager_ok m1" "\<not> mg_closed m1"
    using l(3) m by (simp_all add: manager_ok_def)
  have m2: "manager_ok m2" "env_ok e2" "\<not> mg_closed m2"
    using check_loaded_keeps[OF l(4)] m1 e env_ok_calls(2)[OF e1] by (simp_all add: keeps_def)
  show ?thesis using Replenish_keeps[OF l(5) m2(1,2)] m2 by (simp add: keeps_def)
qed

end
