(* ===== verification/Network_Runs.thy ===== *)
theory Network_Runs
  imports Network_Invariant
begin

text \<open>
  Runs of the slot manager: the interleaving of concurrent calls as a step relation whose steps are the
  sections of \<^verbatim>\<open>Network_Manager\<close>, and what holds in every run.
\<close>

section \<open>Interleaved runs\<close>

text \<open>
  What concurrent calls still have to do. Only one preparation runs at a time, under \<^verbatim>\<open>prepareMu\<close>. The
  steps of one call are in order, those of different calls in any order.
\<close>

datatype preparation = Preparing slot | Saving slot | Publishing slot | Discarding slot | Undoing slot

datatype task = ToMark string owner | ToDestroy string | ToDelete string | ToForget string | ToCommit owner slot

record system =
  sy_m :: manager
  sy_prep :: "preparation option"
  sy_tasks :: "task list"

fun prep_slot :: "preparation \<Rightarrow> slot" where
  "prep_slot (Preparing s) = s"
| "prep_slot (Saving s) = s"
| "prep_slot (Publishing s) = s"
| "prep_slot (Discarding s) = s"
| "prep_slot (Undoing s) = s"

fun task_id :: "task \<Rightarrow> string" where
  "task_id (ToMark k _) = k"
| "task_id (ToDestroy k) = k"
| "task_id (ToDelete k) = k"
| "task_id (ToForget k) = k"
| "task_id (ToCommit _ s) = sl_ID s"

text \<open>The requests that a step serves; all other steps are internal.\<close>

datatype request = Internal | Acquiring owner | Releasing owner | Orphaned string | Closing

text \<open>
  \<^item> A release is for a Sandbox, whose UID is not empty.
  \<^item> The generator of identifiers returns no identifier of a slot some call still works on; the one the
    program uses returns eighty random bits.
\<close>

inductive net_step :: "request \<Rightarrow> system \<Rightarrow> system \<Rightarrow> bool" where
  acquire: "Acquire out now owner (sy_m sy) = (r, m') \<Longrightarrow> net_step (Acquiring owner) sy (sy\<lparr>sy_m := m'\<rparr>)"
| release: "release_target owner (sy_m sy) = Some s \<Longrightarrow> Owner_Equal (sl_Owner s) owner \<Longrightarrow> ow_SandboxUID owner \<noteq> [] \<Longrightarrow>
    net_step (Releasing owner) sy (sy\<lparr>sy_tasks := ToMark (sl_ID s) owner # sy_tasks sy\<rparr>)"
| orphan: "s \<in> set (gm_vals (mg_slots (sy_m sy))) \<Longrightarrow> sl_Phase s = SlotPhaseBound \<Longrightarrow>
    net_step (Orphaned (ow_SandboxUID (sl_Owner s))) sy (sy\<lparr>sy_tasks := ToMark (sl_ID s) (sl_Owner s) # sy_tasks sy\<rparr>)"
| mark: "ToMark k owner \<in> set (sy_tasks sy) \<Longrightarrow> mark_slot out k (sy_m sy) = (err, m') \<Longrightarrow>
    net_step Internal sy (sy\<lparr>sy_m := m', sy_tasks := (if err = None then [ToDestroy k] else []) @ remove1 (ToMark k owner) (sy_tasks sy)\<rparr>)"
| destroy: "ToDestroy k \<in> set (sy_tasks sy) \<Longrightarrow> gm_get (mg_slots (sy_m sy)) k = Some s \<Longrightarrow>
    net_step Internal sy (sy\<lparr>sy_tasks := ToDelete k # remove1 (ToDestroy k) (sy_tasks sy)\<rparr>)"
| delete: "ToDelete k \<in> set (sy_tasks sy) \<Longrightarrow> delete_file out k (sy_m sy) = (ok, m') \<Longrightarrow>
    net_step Internal sy (sy\<lparr>sy_m := m', sy_tasks := (if ok then [ToForget k] else []) @ remove1 (ToDelete k) (sy_tasks sy)\<rparr>)"
| forgotten: "ToForget k \<in> set (sy_tasks sy) \<Longrightarrow>
    net_step Internal sy (sy\<lparr>sy_m := forget k (sy_m sy), sy_tasks := remove1 (ToForget k) (sy_tasks sy)\<rparr>)"
| give_up: "t \<in> set (sy_tasks sy) \<Longrightarrow> net_step Internal sy (sy\<lparr>sy_tasks := remove1 t (sy_tasks sy)\<rparr>)"
| begin_guest: "guest_find owner (sy_m sy) = Some s \<Longrightarrow> same_slot s applied \<Longrightarrow>
    net_step Internal sy (sy\<lparr>sy_tasks := ToCommit owner applied # sy_tasks sy\<rparr>)"
| commit: "ToCommit owner applied \<in> set (sy_tasks sy) \<Longrightarrow> guest_commit out owner applied (sy_m sy) = (err, m') \<Longrightarrow>
    net_step Internal sy (sy\<lparr>sy_m := m', sy_tasks := remove1 (ToCommit owner applied) (sy_tasks sy)\<rparr>)"
| reservation: "sy_prep sy = None \<Longrightarrow> reserve sha256 now generated (sy_m sy) = (Inr (Some s), m') \<Longrightarrow>
    sl_ID s \<notin> task_id ` set (sy_tasks sy) \<Longrightarrow>
    net_step Internal sy (sy\<lparr>sy_m := m', sy_prep := Some (Preparing s)\<rparr>)"
| prepared: "sy_prep sy = Some (Preparing s) \<Longrightarrow> prepares s t \<Longrightarrow> net_step Internal sy (sy\<lparr>sy_prep := Some (Saving t)\<rparr>)"
| unprepared: "sy_prep sy = Some (Preparing s) \<Longrightarrow> net_step Internal sy (sy\<lparr>sy_prep := Some (Undoing s)\<rparr>)"
| save: "sy_prep sy = Some (Saving s) \<Longrightarrow> save_prepared out s (sy_m sy) = (ok, m') \<Longrightarrow>
    net_step Internal sy (sy\<lparr>sy_m := m', sy_prep := Some (if ok then Publishing s else Undoing s)\<rparr>)"
| published: "sy_prep sy = Some (Publishing s) \<Longrightarrow> \<not> mg_closed (sy_m sy) \<Longrightarrow>
    net_step Internal sy (sy\<lparr>sy_m := publish s (sy_m sy), sy_prep := None\<rparr>)"
| discard: "sy_prep sy = Some (Publishing s) \<Longrightarrow> mg_closed (sy_m sy) \<Longrightarrow>
    net_step Internal sy (sy\<lparr>sy_prep := Some (Discarding s)\<rparr>)"
| discarded: "sy_prep sy = Some (Discarding s) \<Longrightarrow> delete_file out (sl_ID s) (sy_m sy) = (ok, m') \<Longrightarrow>
    net_step Internal sy (sy\<lparr>sy_m := m', sy_prep := Some (Undoing s)\<rparr>)"
| undone: "sy_prep sy = Some (Undoing s) \<Longrightarrow>
    net_step Internal sy (sy\<lparr>sy_m := forget (sl_ID s) (sy_m sy), sy_prep := None\<rparr>)"
| close: "net_step Closing sy (sy\<lparr>sy_m := (sy_m sy)\<lparr>mg_closed := True\<rparr>\<rparr>)"
| close_slot: "mg_closed (sy_m sy) \<Longrightarrow> gm_get (mg_slots (sy_m sy)) k = Some s \<Longrightarrow>
    net_step Internal sy (sy\<lparr>sy_tasks := ToDestroy k # sy_tasks sy\<rparr>)"

text \<open>A run starts with a manager that has been initialised.\<close>

inductive net_run :: "system \<Rightarrow> request list \<Rightarrow> system \<Rightarrow> bool" where
  idle: "net_run sy [] sy"
| step: "net_step r sy sy1 \<Longrightarrow> net_run sy1 rs sy' \<Longrightarrow> net_run sy (r # rs) sy'"

definition started :: "system \<Rightarrow> bool" where
  "started sy \<longleftrightarrow> (\<exists>guest config dir m e e'. NewManager guest config dir = Some m \<and> dir_ok (mg_ipam m) dir \<and> env_ok e \<and>
     Initialize m e = (None, sy_m sy, e')) \<and> sy_prep sy = None \<and> sy_tasks sy = []"

section \<open>The invariant of runs\<close>

definition committing :: "slot \<Rightarrow> manager \<Rightarrow> bool" where
  "committing applied m \<longleftrightarrow> (\<forall>t. gm_get (mg_slots m) (sl_ID applied) = Some t \<longrightarrow>
     sl_Phase t = SlotPhaseBound \<and> same_slot t applied \<or> sl_Phase t = SlotPhaseDestroying)"

definition prep_ok :: "system \<Rightarrow> bool" where
  "prep_ok sy \<longleftrightarrow> (\<forall>p. sy_prep sy = Some p \<longrightarrow> reserved (prep_slot p) (sy_m sy) \<and>
     (\<forall>owner s. ToCommit owner s \<in> set (sy_tasks sy) \<longrightarrow> sl_ID s \<noteq> sl_ID (prep_slot p)))"

definition system_ok :: "system \<Rightarrow> bool" where
  "system_ok sy \<longleftrightarrow> manager_ok (sy_m sy) \<and> prep_ok sy \<and>
     (\<forall>owner s. ToCommit owner s \<in> set (sy_tasks sy) \<longrightarrow> committing s (sy_m sy))"

lemma evolves_get:
  assumes "evolves m m'" "gm_get (mg_slots m') k = Some t"
  obtains s where "gm_get (mg_slots m) k = Some s" "slot_evolves s t"
  using assms unfolding evolves_def by blast

lemma reserved_evolves:
  assumes ev: "evolves m m'" and s: "reserved s m" and ok: "manager_ok m"
  shows "reserved s m'"
proof -
  have frame: "mg_config m' = mg_config m" "mg_ipam m' = mg_ipam m" "length (mg_slots m') \<le> length (mg_slots m)"
    using ev by (simp_all add: evolves_def)
  have "sl_IP t \<noteq> sl_IP s" if "gm_get (mg_slots m') k = Some t" "k \<noteq> sl_ID s" for k t
    using evolves_get[OF ev that(1)] s that(2) unfolding reserved_def slot_evolves_def by metis
  moreover have "case gm_get (mg_slots m') (sl_ID s) of None \<Rightarrow> \<not> full m' | Some t \<Rightarrow> sl_IP t = sl_IP s \<and>
      sl_Phase t = SlotPhaseDestroying \<and> ow_SandboxUID (sl_Owner t) = []"
  proof (cases "gm_get (mg_slots m') (sl_ID s)")
    case None
    have "length (mg_slots m') < length (mg_slots m)" if "gm_get (mg_slots m) (sl_ID s) \<noteq> None"
      using ev None that unfolding evolves_def by blast
    then have "\<not> full m'" using s ok frame by (cases "gm_get (mg_slots m) (sl_ID s)") (auto simp: reserved_def full_def manager_ok_def)
    then show ?thesis by (simp add: None)
  next
    case (Some t)
    obtain u where "gm_get (mg_slots m) (sl_ID s) = Some u" "slot_evolves u t" using evolves_get[OF ev Some] .
    then show ?thesis using s Some by (simp add: reserved_def slot_evolves_def)
  qed
  moreover have "safeSlotID (sl_ID s)" "\<exists>a. slot_address (mg_ipam m) a \<and> sl_IP s = String4 a" using s by (simp_all add: reserved_def)
  ultimately show ?thesis unfolding reserved_def frame(2) by blast
qed

lemma committing_evolves:
  assumes "evolves m m'" "committing s m"
  shows "committing s m'"
  unfolding committing_def
proof (intro allI impI)
  fix t assume "gm_get (mg_slots m') (sl_ID s) = Some t"
  then obtain u where u: "gm_get (mg_slots m) (sl_ID s) = Some u" "slot_evolves u t" using evolves_get[OF assms(1)] by blast
  then consider "sl_Phase u = SlotPhaseBound" "same_slot u s" | "sl_Phase u = SlotPhaseDestroying"
    using assms(2) unfolding committing_def by blast
  then show "sl_Phase t = SlotPhaseBound \<and> same_slot t s \<or> sl_Phase t = SlotPhaseDestroying"
    using u(2) same_slot_fields(3)[of u t] unfolding slot_evolves_def same_slot_def by cases auto
qed

text \<open>A section that inserts no slot keeps the invariant of the system.\<close>

lemma system_ok_section:
  assumes "system_ok sy" "manager_ok m'" "evolves (sy_m sy) m'" "sy_m sy' = m'" "sy_prep sy' = sy_prep sy"
    and "\<And>owner s. ToCommit owner s \<in> set (sy_tasks sy') \<Longrightarrow> ToCommit owner s \<in> set (sy_tasks sy)"
  shows "system_ok sy'"
proof -
  have "manager_ok (sy_m sy)" using assms(1) by (simp add: system_ok_def)
  then show ?thesis using assms reserved_evolves[OF assms(3)] committing_evolves[OF assms(3)]
    unfolding system_ok_def prep_ok_def by metis
qed

lemma guest_find_Some:
  assumes "guest_find owner m = Some s" "slots_ok i (mg_slots m)"
  shows "gm_get (mg_slots m) (sl_ID s) = Some s" "sl_Phase s = SlotPhaseBound" "Owner_Equal (sl_Owner s) owner"
  using find_Some[OF assms(1)[unfolded guest_find_def]] slots_ok_val[OF assms(2)] by auto

lemma committing_commit:
  "committing applied m \<Longrightarrow> gm_get (mg_slots m) (sl_ID applied) = Some s \<Longrightarrow> sl_Phase s = SlotPhaseBound \<Longrightarrow> same_slot s applied"
  by (auto simp: committing_def)

lemma net_step_prep_ok:
  assumes "net_step r sy sy'" "system_ok sy" "sy_prep sy' \<noteq> sy_prep sy"
  shows "system_ok sy'"
  using assms(1)
proof cases
  case (reservation sha256 now generated s m')
  have m: "manager_ok (sy_m sy)" using assms(2) by (simp add: system_ok_def)
  have "committing t m'" if "ToCommit owner t \<in> set (sy_tasks sy)" for owner t
  proof -
    have "sl_ID t \<noteq> sl_ID s" using reservation(5) that by force
    then show ?thesis using reserve_Some[OF reservation(4)] assms(2) that by (auto simp: system_ok_def committing_def)
  qed
  moreover have "sl_ID t \<noteq> sl_ID s" if "ToCommit owner t \<in> set (sy_tasks sy)" for owner t using reservation(5) that by force
  ultimately show ?thesis using reserve_ok[OF reservation(4) m] by (auto simp: reservation(2) system_ok_def prep_ok_def)
next
  case (prepared s t)
  then show ?thesis using assms(2) reserved_prepares[of s t "sy_m sy" "mg_dir (sy_m sy)"] prepares_fields(1)[of s t]
    by (simp add: system_ok_def prep_ok_def)
next
  case (save s out ok m')
  have "evolves (sy_m sy) m'" "manager_ok m'" using save(4) assms(2)
    by (auto simp: save_prepared_def system_ok_def split: prod.splits)
  then have "reserved s m'" "\<And>t. committing t (sy_m sy) \<Longrightarrow> committing t m'"
    using reserved_evolves committing_evolves assms(2) save(3) by (auto simp: system_ok_def prep_ok_def)
  then show ?thesis using assms(2) save \<open>manager_ok m'\<close> by (auto simp: system_ok_def prep_ok_def)
next
  case (published s)
  have "reserved s (sy_m sy)" "manager_ok (sy_m sy)" using assms(2) published by (auto simp: system_ok_def prep_ok_def)
  moreover have "committing t (publish s (sy_m sy))" if "ToCommit owner t \<in> set (sy_tasks sy)" for owner t
    using that assms(2) published by (auto simp: system_ok_def prep_ok_def committing_def publish_def)
  ultimately show ?thesis using publish_ok by (auto simp: published(2) system_ok_def prep_ok_def)
next
  case (discarded s out ok m')
  have m: "manager_ok (sy_m sy)" using assms(2) by (simp add: system_ok_def)
  have "evolves (sy_m sy) m'" "manager_ok m'" using delete_file_ok[OF discarded(4) m] by simp_all
  then have "reserved s m'" "\<And>t. committing t (sy_m sy) \<Longrightarrow> committing t m'"
    using reserved_evolves committing_evolves assms(2) discarded(3) m by (auto simp: system_ok_def prep_ok_def)
  then show ?thesis using assms(2) discarded \<open>manager_ok m'\<close> by (auto simp: system_ok_def prep_ok_def)
next
  case (undone s)
  have m: "manager_ok (sy_m sy)" using assms(2) by (simp add: system_ok_def)
  show ?thesis using forget_ok[OF m, of "sl_ID s"] committing_evolves assms(2) undone
    by (auto simp: system_ok_def prep_ok_def)
qed (use assms in \<open>auto simp: system_ok_def prep_ok_def\<close>)

lemma net_step_ok:
  assumes "net_step r sy sy'" "system_ok sy"
  shows "system_ok sy'"
proof (cases "sy_prep sy' = sy_prep sy")
  case False
  then show ?thesis by (rule net_step_prep_ok[OF assms])
next
  case same: True
  have m: "manager_ok (sy_m sy)" "slots_ok (mg_ipam (sy_m sy)) (mg_slots (sy_m sy))"
    using assms(2) by (simp_all add: system_ok_def manager_ok_def)
  from assms(1) show ?thesis
  proof cases
    case (acquire out now owner rr m')
    then show ?thesis using Acquire_ok[OF acquire(3) m(1)] by (intro system_ok_section[OF assms(2)]) auto
  next
    case (mark k owner out err m')
    show ?thesis using mark_slot_ok[OF mark(4) m(1)]
      by (intro system_ok_section[OF assms(2)]) (auto simp: mark(2) dest: notin_set_remove1 split: if_splits)
  next
    case (delete k out ok m')
    show ?thesis using delete_file_ok[OF delete(4) m(1)]
      by (intro system_ok_section[OF assms(2)]) (auto simp: delete(2) dest: notin_set_remove1 split: if_splits)
  next
    case (forgotten k)
    show ?thesis using forget_ok[OF m(1), of k]
      by (intro system_ok_section[OF assms(2)]) (auto simp: forgotten(2) dest: notin_set_remove1)
  next
    case (begin_guest owner s applied)
    note f = guest_find_Some[OF begin_guest(3) m(2)] same_slot_fields[OF begin_guest(4)]
    have "committing applied (sy_m sy)" using f begin_guest(4) by (simp add: committing_def)
    moreover have "sl_ID applied \<noteq> sl_ID (prep_slot p)" if "sy_prep sy = Some p" for p
    proof
      assume "sl_ID applied = sl_ID (prep_slot p)"
      moreover have "reserved (prep_slot p) (sy_m sy)" using assms(2) that by (simp add: system_ok_def prep_ok_def)
      ultimately show False using f by (simp add: reserved_def)
    qed
    ultimately show ?thesis using assms(2) by (auto simp: begin_guest(2) system_ok_def prep_ok_def)
  next
    case (commit owner applied out err m')
    have "committing applied (sy_m sy)" using assms(2) commit(3) by (auto simp: system_ok_def)
    note c = guest_commit_ok[OF commit(4) m(1) committing_commit[OF this]]
    show ?thesis using c by (intro system_ok_section[OF assms(2)]) (auto simp: commit(2) dest: set_remove1_subset[THEN subsetD])
  next
    case close
    show ?thesis by (rule system_ok_section[OF assms(2), of "(sy_m sy)\<lparr>mg_closed := True\<rparr>"]) (use m(1) close in auto)
  qed (use assms(2) same in \<open>auto intro!: system_ok_section[OF assms(2) m(1)] dest: set_remove1_subset[THEN subsetD] split: if_splits\<close>)
qed

lemma net_run_ok: "net_run sy rs sy' \<Longrightarrow> system_ok sy \<Longrightarrow> system_ok sy'"
  by (induction rule: net_run.induct) (auto dest: net_step_ok)

lemma started_ok: "started sy \<Longrightarrow> system_ok sy \<and> \<not> mg_closed (sy_m sy)"
  using Initialize_ok by (fastforce simp: started_def system_ok_def prep_ok_def)

section \<open>What calls work on\<close>

text \<open>Before the manager is closed, calls that mark, destroy or forget a slot work on slots that are bound or
  being destroyed, and on none that is being prepared.\<close>

definition targets_ok :: "system \<Rightarrow> bool" where
  "targets_ok sy \<longleftrightarrow> mg_closed (sy_m sy) \<or>
     (\<forall>t \<in> set (sy_tasks sy). \<forall>u. gm_get (mg_slots (sy_m sy)) (task_id t) = Some u \<longrightarrow>
        sl_Phase u = SlotPhaseBound \<or> sl_Phase u = SlotPhaseDestroying) \<and>
     (\<forall>p. sy_prep sy = Some p \<longrightarrow> sl_ID (prep_slot p) \<notin> task_id ` set (sy_tasks sy))"

lemma evolves_phase:
  assumes "evolves m m'" "gm_get (mg_slots m') k = Some t"
    and "\<And>u. gm_get (mg_slots m) k = Some u \<Longrightarrow> sl_Phase u = SlotPhaseBound \<or> sl_Phase u = SlotPhaseDestroying"
  shows "sl_Phase t = SlotPhaseBound \<or> sl_Phase t = SlotPhaseDestroying"
proof -
  obtain u where "gm_get (mg_slots m) k = Some u" "slot_evolves u t" using evolves_get[OF assms(1,2)] .
  then show ?thesis using assms(3)[of u] same_slot_fields(3)[of u t] by (auto simp: slot_evolves_def)
qed

lemma targets_ok_section:
  assumes ok: "targets_ok sy" and ev: "evolves (sy_m sy) (sy_m sy')" and closed: "mg_closed (sy_m sy') = mg_closed (sy_m sy)"
    and prep: "\<And>p. sy_prep sy' = Some p \<Longrightarrow> \<exists>q. sy_prep sy = Some q \<and> sl_ID (prep_slot q) = sl_ID (prep_slot p)"
    and tasks: "task_id ` set (sy_tasks sy') \<subseteq> task_id ` set (sy_tasks sy)"
  shows "targets_ok sy'"
proof (cases "mg_closed (sy_m sy)")
  case False
  have "sl_Phase u = SlotPhaseBound \<or> sl_Phase u = SlotPhaseDestroying"
    if "t \<in> set (sy_tasks sy')" "gm_get (mg_slots (sy_m sy')) (task_id t) = Some u" for t u
  proof (rule evolves_phase[OF ev that(2)])
    fix v assume v: "gm_get (mg_slots (sy_m sy)) (task_id t) = Some v"
    have "task_id t \<in> task_id ` set (sy_tasks sy)" using tasks that(1) by blast
    then obtain t0 where t0: "t0 \<in> set (sy_tasks sy)" "task_id t = task_id t0" by blast
    show "sl_Phase v = SlotPhaseBound \<or> sl_Phase v = SlotPhaseDestroying"
      using ok False t0(1) v unfolding targets_ok_def t0(2) by blast
  qed
  moreover have "sl_ID (prep_slot p) \<notin> task_id ` set (sy_tasks sy')" if p: "sy_prep sy' = Some p" for p
  proof -
    obtain q where q: "sy_prep sy = Some q" "sl_ID (prep_slot q) = sl_ID (prep_slot p)" using prep[OF p] by blast
    have "sl_ID (prep_slot q) \<notin> task_id ` set (sy_tasks sy)" using ok False q(1) unfolding targets_ok_def by blast
    then show ?thesis using tasks unfolding q(2) by blast
  qed
  ultimately show ?thesis unfolding targets_ok_def by blast
qed (use closed in \<open>simp add: targets_ok_def\<close>)

lemma targets_ok_new_task:
  assumes "targets_ok sy" "system_ok sy" "sy' = sy\<lparr>sy_tasks := t # sy_tasks sy\<rparr>"
    and "gm_get (mg_slots (sy_m sy)) (task_id t) = Some u" "sl_Phase u = SlotPhaseBound \<or> sl_Phase u = SlotPhaseDestroying"
      "ow_SandboxUID (sl_Owner u) \<noteq> []"
  shows "targets_ok sy'"
proof -
  have "sl_ID (prep_slot p) \<noteq> task_id t" if "sy_prep sy = Some p" for p
  proof
    assume "sl_ID (prep_slot p) = task_id t"
    moreover have "reserved (prep_slot p) (sy_m sy)" using assms(2) that by (simp add: system_ok_def prep_ok_def)
    ultimately show False using assms(4-) by (simp add: reserved_def)
  qed
  then show ?thesis using assms(1,3-5) by (auto simp: targets_ok_def)
qed

lemma net_step_targets:
  assumes "net_step r sy sy'" "system_ok sy" "targets_ok sy"
  shows "targets_ok sy'"
proof -
  have m: "manager_ok (sy_m sy)" "slots_ok (mg_ipam (sy_m sy)) (mg_slots (sy_m sy))"
    using assms(2) by (simp_all add: system_ok_def manager_ok_def)
  from assms(1) show ?thesis
  proof cases
    case (acquire out now owner rr m')
    then show ?thesis using Acquire_ok[OF acquire(3) m(1)] Acquire_frame[OF acquire(3)]
      by (intro targets_ok_section[OF assms(3)]) auto
  next
    case (release owner s)
    have s: "s \<in> set (gm_vals (mg_slots (sy_m sy)))" "ow_SandboxUID (sl_Owner s) = ow_SandboxUID owner"
        "sl_Phase s = SlotPhaseBound \<or> sl_Phase s = SlotPhaseDestroying"
      using find_Some[OF release(3)[unfolded release_target_def]] by auto
    show ?thesis
    proof (rule targets_ok_new_task[OF assms(3,2) release(2)])
      show "gm_get (mg_slots (sy_m sy)) (task_id (ToMark (sl_ID s) owner)) = Some s" using slots_ok_val[OF m(2) s(1)] by simp
      show "ow_SandboxUID (sl_Owner s) \<noteq> []" unfolding s(2) by (rule release(5))
    qed (rule s(3))
  next
    case (orphan s)
    note s = slots_ok_val[OF m(2) orphan(3)]
    show ?thesis
    proof (rule targets_ok_new_task[OF assms(3,2) orphan(2)])
      show "gm_get (mg_slots (sy_m sy)) (task_id (ToMark (sl_ID s) (sl_Owner s))) = Some s" using s by simp
      show "ow_SandboxUID (sl_Owner s) \<noteq> []" using slots_ok_get[OF m(2) s] orphan(4) by (simp add: slot_ok_def)
    qed (simp add: orphan(4))
  next
    case (mark k owner out err m')
    show ?thesis using mark_slot_ok[OF mark(4) m(1)] mark(3)
      by (intro targets_ok_section[OF assms(3)]) (force simp: mark(2) dest: set_remove1_subset[THEN subsetD] split: if_splits)+
  next
    case (destroy k s)
    show ?thesis using destroy(3)
      by (intro targets_ok_section[OF assms(3)]) (force simp: destroy(2) dest: set_remove1_subset[THEN subsetD])+
  next
    case (delete k out ok m')
    show ?thesis using delete_file_ok[OF delete(4) m(1)] delete(3)
      by (intro targets_ok_section[OF assms(3)]) (force simp: delete(2) dest: set_remove1_subset[THEN subsetD] split: if_splits)+
  next
    case (reservation sha256 now generated s m')
    show ?thesis using reserve_Some[OF reservation(4)] assms(3) reservation(5) by (auto simp: targets_ok_def reservation(2))
  next
    case (published s)
    have "task_id t \<noteq> sl_ID s" if "t \<in> set (sy_tasks sy)" for t using assms(3) published(3,4) that
      by (auto simp: targets_ok_def) (metis imageI)
    then show ?thesis using assms(3) published by (auto simp: targets_ok_def publish_def)
  next
    case (begin_guest owner s applied)
    note f = guest_find_Some[OF begin_guest(3) m(2)] same_slot_fields[OF begin_guest(4)]
    show ?thesis
    proof (rule targets_ok_new_task[OF assms(3,2) begin_guest(2)])
      show "gm_get (mg_slots (sy_m sy)) (task_id (ToCommit owner applied)) = Some s" using f by simp
      show "ow_SandboxUID (sl_Owner s) \<noteq> []" using slots_ok_get[OF m(2) f(1)] f(2) by (simp add: slot_ok_def)
    qed (simp add: f(2))
  next
    case (commit owner applied out err m')
    have "committing applied (sy_m sy)" using assms(2) commit(3) by (auto simp: system_ok_def)
    note c = guest_commit_ok[OF commit(4) m(1) committing_commit[OF this]]
    show ?thesis using c by (intro targets_ok_section[OF assms(3)]) (auto simp: commit(2) dest: set_remove1_subset[THEN subsetD])
  next
    case (forgotten k)
    show ?thesis using forget_ok[OF m(1), of k]
      by (intro targets_ok_section[OF assms(3)]) (auto simp: forgotten(2) dest: set_remove1_subset[THEN subsetD])
  next
    case (undone s)
    show ?thesis using forget_ok[OF m(1), of "sl_ID s"] by (intro targets_ok_section[OF assms(3)]) (auto simp: undone(2))
  next
    case (save s out ok m')
    then show ?thesis using assms(3)
      by (intro targets_ok_section[OF assms(3)]) (auto simp: save_prepared_def split: prod.splits if_splits)
  next
    case (discarded s out ok m')
    then show ?thesis using delete_file_ok[OF discarded(4) m(1)]
      by (intro targets_ok_section[OF assms(3)]) auto
  qed (use assms(3) in \<open>auto simp: targets_ok_def dest: prepares_fields(1) set_remove1_subset[THEN subsetD]\<close>)
qed

section \<open>A bound slot is kept\<close>

lemma state_name_inj [simp]: "state_name k = state_name k' \<longleftrightarrow> k = k'"
  by (simp add: state_name_def)

lemma Save_get:
  "gm_get (snd (Save out s dir)) n = (if n = state_name (sl_ID s) \<and> out \<noteq> Failed \<and> safeSlotID (sl_ID s) then Some (StateSlot s) else gm_get dir n)"
  by (simp add: Save_def)

lemma Store_Delete_get: "n \<noteq> state_name k \<Longrightarrow> gm_get (snd (Store_Delete out k dir)) n = gm_get dir n"
  by (simp add: Store_Delete_def)

text \<open>The slot is bound in memory and in its file, and no call works on it that would destroy it.\<close>

definition held :: "slot \<Rightarrow> manager \<Rightarrow> bool" where
  "held s m \<longleftrightarrow> (\<exists>t. gm_get (mg_slots m) (sl_ID s) = Some t \<and> same_slot s t) \<and>
     (\<exists>t. gm_get (mg_dir m) (state_name (sl_ID s)) = Some (StateSlot t) \<and> same_slot s t)"

definition kept :: "slot \<Rightarrow> system \<Rightarrow> bool" where
  "kept s sy \<longleftrightarrow> sl_Phase s = SlotPhaseBound \<and> held s (sy_m sy) \<and> \<not> mg_closed (sy_m sy) \<and>
     (\<forall>t \<in> set (sy_tasks sy). task_id t = sl_ID s \<longrightarrow> (\<exists>owner applied. t = ToCommit owner applied \<and> same_slot s applied)) \<and>
     (\<forall>p. sy_prep sy = Some p \<longrightarrow> sl_ID (prep_slot p) \<noteq> sl_ID s)"

text \<open>The requests that do not concern the owner of the slot.\<close>

definition harmless :: "owner \<Rightarrow> request \<Rightarrow> bool" where
  "harmless owner r \<longleftrightarrow> r \<noteq> Closing \<and> r \<noteq> Orphaned (ow_SandboxUID owner) \<and> (\<forall>ow. r = Releasing ow \<longrightarrow> \<not> Owner_Equal owner ow)"

lemma held_Acquire:
  assumes "Acquire out now owner m = (r, m')" "slots_ok i (mg_slots m)" "i = mg_ipam m" "held s m" "sl_Phase s = SlotPhaseBound"
  shows "held s m'"
proof -
  obtain t where t: "gm_get (mg_slots m) (sl_ID s) = Some t" "same_slot s t" using assms(4) by (auto simp: held_def)
  have other: "k \<noteq> sl_ID s \<and> sl_ID u = k" if "gm_get (mg_slots m) k = Some u" "sl_Phase u = SlotPhaseClean" for k u
    using that t same_slot_fields(3)[OF t(2)] assms(5) slots_ok_get[OF assms(2) that(1)] by (auto simp: slot_ok_def)
  show ?thesis
    using assms(1,2) unfolding assms(3)
  proof (cases rule: Acquire_cases)
    case kept
    then show ?thesis using assms(4) by (simp add: held_def)
  next
    case (failed k u)
    then show ?thesis using assms(4) other[OF failed(1,2)] by (auto simp: held_def Save_get)
  next
    case (bound k u)
    have "mg_dir m' = snd (Save out (bind_slot now owner u) (mg_dir m))" by (simp add: bound(7))
    then show ?thesis using assms(4) other[OF bound(1,2)] by (auto simp: held_def Save_get bound(6))
  qed
qed

lemma held_mark:
  assumes "mark_slot out k m = (err, m')" "slots_ok i (mg_slots m)" "held s m" "k \<noteq> sl_ID s"
  shows "held s m'"
proof (cases "gm_get (mg_slots m) k")
  case (Some u)
  have "sl_ID u = k" using slots_ok_get[OF assms(2) Some] by (simp add: slot_ok_def)
  then show ?thesis using assms Some Save_get[of out "u\<lparr>sl_Phase := SlotPhaseDestroying\<rparr>" "mg_dir m"]
    by (auto simp: mark_slot_def held_def Let_def split: if_splits prod.splits)
qed (use assms in \<open>simp add: mark_slot_def\<close>)

lemma held_delete: "delete_file out k m = (ok, m') \<Longrightarrow> held s m \<Longrightarrow> k \<noteq> sl_ID s \<Longrightarrow> held s m'"
  using Store_Delete_get[of "state_name (sl_ID s)" k out "mg_dir m"]
  by (auto simp: delete_file_def held_def split: prod.splits)

lemma held_commit:
  assumes "guest_commit out owner applied m = (err, m')" "held s m" "sl_ID applied = sl_ID s \<Longrightarrow> same_slot s applied"
  shows "held s m'"
  using assms Save_get[of out applied "mg_dir m"]
  by (cases "sl_ID applied = sl_ID s")
    (auto simp: guest_commit_def held_def Let_def split: option.splits if_splits prod.splits)

lemma held_save_prepared:
  "save_prepared out t m = (ok, m') \<Longrightarrow> held s m \<Longrightarrow> sl_ID t \<noteq> sl_ID s \<Longrightarrow> held s m'"
  using Save_get[of out "t\<lparr>sl_Phase := SlotPhaseClean\<rparr>" "mg_dir m"]
  by (auto simp: save_prepared_def held_def split: prod.splits)

lemma kept_step:
  assumes "net_step r sy sy'" "system_ok sy" "kept s sy" "harmless (sl_Owner s) r"
  shows "kept s sy'"
proof -
  have m: "slots_ok (mg_ipam (sy_m sy)) (mg_slots (sy_m sy))" "manager_ok (sy_m sy)"
    using assms(2) by (simp_all add: system_ok_def manager_ok_def)
  have h: "held s (sy_m sy)" "sl_Phase s = SlotPhaseBound" using assms(3) by (simp_all add: kept_def)
  obtain t0 where t0: "gm_get (mg_slots (sy_m sy)) (sl_ID s) = Some t0" "same_slot s t0" using h(1) by (auto simp: held_def)
  note f0 = same_slot_fields[OF t0(2)]
  have tasks: "task_id t \<noteq> sl_ID s" if "t \<in> set (sy_tasks sy)" "\<And>owner a. t \<noteq> ToCommit owner a" for t
    using assms(3) that unfolding kept_def by blast
  have mine: "u = t0" if "u \<in> set (gm_vals (mg_slots (sy_m sy)))" "sl_ID u = sl_ID s" for u
    using slots_ok_val[OF m(1) that(1)] t0(1) that(2) by simp
  from assms(1) show ?thesis
  proof cases
    case (acquire out now owner rr m')
    then show ?thesis using held_Acquire[OF acquire(3) m(1) refl h] Acquire_frame[OF acquire(3)] assms(3) by (simp add: kept_def)
  next
    case (release owner u)
    have u: "u \<in> set (gm_vals (mg_slots (sy_m sy)))" using find_Some[OF release(3)[unfolded release_target_def]] by simp
    have "sl_ID u \<noteq> sl_ID s" using mine[OF u] release(4) assms(4) f0(4) by (auto simp: harmless_def release(1))
    then show ?thesis using assms(3) by (auto simp: kept_def release(2))
  next
    case (orphan u)
    have "sl_ID u \<noteq> sl_ID s" using mine[OF orphan(3)] assms(4) f0(4) by (auto simp: harmless_def orphan(1))
    then show ?thesis using assms(3) by (auto simp: kept_def orphan(2))
  next
    case (mark k owner out err m')
    have k: "k \<noteq> sl_ID s" using tasks[OF mark(3)] by simp
    show ?thesis using held_mark[OF mark(4) m(1) h(1) k] mark_slot_ok[OF mark(4) m(2)] assms(3) k
      by (auto simp: kept_def mark(2) dest: set_remove1_subset[THEN subsetD] split: if_splits)
  next
    case (destroy k u)
    then show ?thesis using tasks[OF destroy(3)] assms(3) by (auto simp: kept_def dest: set_remove1_subset[THEN subsetD])
  next
    case (delete k out ok m')
    have k: "k \<noteq> sl_ID s" using tasks[OF delete(3)] by simp
    show ?thesis using held_delete[OF delete(4) h(1) k] delete_file_ok[OF delete(4) m(2)] assms(3) k
      by (auto simp: kept_def delete(2) dest: set_remove1_subset[THEN subsetD] split: if_splits)
  next
    case (forgotten k)
    have k: "k \<noteq> sl_ID s" using tasks[OF forgotten(3)] by simp
    show ?thesis using assms(3) k by (auto simp: kept_def held_def forgotten(2) dest: set_remove1_subset[THEN subsetD])
  next
    case (give_up t)
    then show ?thesis using assms(3) by (auto simp: kept_def dest: set_remove1_subset[THEN subsetD])
  next
    case (begin_guest owner u applied)
    note f = guest_find_Some[OF begin_guest(3) m(1)] same_slot_fields[OF begin_guest(4)]
    have "same_slot s applied" if "sl_ID applied = sl_ID s"
    proof -
      have "u = t0" using f(1) t0(1) f(4) that by simp
      then show ?thesis using t0(2) begin_guest(4) same_slot_trans by blast
    qed
    then show ?thesis using assms(3) by (auto simp: kept_def begin_guest(2))
  next
    case (commit owner applied out err m')
    have "sl_ID applied = sl_ID s \<Longrightarrow> same_slot s applied" using assms(3) commit(3) by (fastforce simp: kept_def)
    note c = held_commit[OF commit(4) h(1) this]
    have "mg_closed m' = mg_closed (sy_m sy)" using commit(4) by (auto simp: guest_commit_def Let_def split: option.splits if_splits prod.splits)
    then show ?thesis using c assms(3) by (auto simp: kept_def commit(2) dest: set_remove1_subset[THEN subsetD])
  next
    case (reservation sha256 now generated u m')
    have "sl_ID u \<noteq> sl_ID s" using reserve_Some[OF reservation(4)] t0(1) by auto
    then show ?thesis using reserve_Some[OF reservation(4)] assms(3) by (auto simp: kept_def held_def reservation(2))
  next
    case (prepared u v)
    then show ?thesis using assms(3) prepares_fields(1)[OF prepared(4)] by (auto simp: kept_def)
  next
    case (save u out ok m')
    have u: "sl_ID u \<noteq> sl_ID s" using assms(3) save(3) by (auto simp: kept_def)
    have "mg_closed m' = mg_closed (sy_m sy)" using save(4) by (auto simp: save_prepared_def split: prod.splits)
    then show ?thesis using held_save_prepared[OF save(4) h(1) u] assms(3) u by (auto simp: kept_def save(2))
  next
    case (published u)
    then show ?thesis using assms(3) by (auto simp: kept_def held_def publish_def)
  next
    case (discarded u out ok m')
    have u: "sl_ID u \<noteq> sl_ID s" using assms(3) discarded(3) by (auto simp: kept_def)
    then show ?thesis using held_delete[OF discarded(4) h(1) u] delete_file_ok[OF discarded(4) m(2)] assms(3)
      by (auto simp: kept_def discarded(2))
  next
    case (undone u)
    then show ?thesis using assms(3) by (auto simp: kept_def held_def)
  qed (use assms(3,4) in \<open>auto simp: kept_def harmless_def\<close>)
qed

lemma kept_run:
  "net_run sy rs sy' \<Longrightarrow> system_ok sy \<Longrightarrow> kept s sy \<Longrightarrow> (\<And>r. r \<in> set rs \<Longrightarrow> harmless (sl_Owner s) r) \<Longrightarrow> kept s sy'"
proof (induction rule: net_run.induct)
  case (step r sy sy1 rs sy')
  have "kept s sy1" using kept_step[OF step(1,4,5)] step(6) by simp
  then show ?case using step(3) net_step_ok[OF step(1,4)] step(6) by simp
qed

lemma net_run_targets: "net_run sy rs sy' \<Longrightarrow> system_ok sy \<Longrightarrow> targets_ok sy \<Longrightarrow> targets_ok sy'"
  by (induction rule: net_run.induct) (auto dest: net_step_ok net_step_targets)

text \<open>A slot that \<^verbatim>\<open>Acquire\<close> has just bound is kept.\<close>

lemma acquired_kept:
  assumes acq: "Acquire out now owner (sy_m sy) = (Inr s, m')" and fresh: "Manager_Lookup (ow_SandboxUID owner) (sy_m sy) = None"
    and ok: "system_ok sy" "targets_ok sy" "\<not> mg_closed (sy_m sy)"
  shows "kept s (sy\<lparr>sy_m := m'\<rparr>)" "sl_Owner s = owner"
proof -
  have slots: "slots_ok (mg_ipam (sy_m sy)) (mg_slots (sy_m sy))" using ok(1) by (simp add: system_ok_def manager_ok_def)
  have none: "\<not> bound_to (ow_SandboxUID owner) t" if "t \<in> set (gm_vals (mg_slots (sy_m sy)))" for t
    using fresh that by (simp add: Manager_Lookup_def find_None_iff)
  have "kept s (sy\<lparr>sy_m := m'\<rparr>) \<and> sl_Owner s = owner"
    using acq slots
  proof (cases rule: Acquire_cases)
    case kept
    then show ?thesis using none by blast
  next
    case (bound k u)
    have u: "sl_ID u = k" "safeSlotID k" using slots_ok_get[OF slots bound(1)] by (simp_all add: slot_ok_def)
    have s: "s = bind_slot now owner u" using bound(3) by simp
    have dir: "gm_get (mg_dir m') (state_name k) = Some (StateSlot s)"
    proof -
      have "out \<noteq> Failed" using bound(7) by (auto simp: Save_def)
      then show ?thesis using Save_get[of out s "mg_dir (sy_m sy)" "state_name k"] bound(7) u s by simp
    qed
    have "task_id t \<noteq> k" if "t \<in> set (sy_tasks sy)" for t using ok(2,3) that bound(1,2) by (auto simp: targets_ok_def)
    moreover have "sl_ID (prep_slot p) \<noteq> k" if "sy_prep sy = Some p" for p
      using ok(1) that bound(1,2) by (auto simp: system_ok_def prep_ok_def reserved_def)
    ultimately show ?thesis using dir bound(6) u s Acquire_frame[OF acq] ok(3) by (simp add: kept_def held_def)
  qed simp
  then show "kept s (sy\<lparr>sy_m := m'\<rparr>)" "sl_Owner s = owner" by simp_all
qed

lemma held_Lookup:
  assumes "held s m" "sl_Phase s = SlotPhaseBound" "slots_ok i (mg_slots m)"
  shows "\<exists>t. Manager_Lookup (ow_SandboxUID (sl_Owner s)) m = Some t \<and> same_slot s t"
proof -
  obtain t where t: "gm_get (mg_slots m) (sl_ID s) = Some t" "same_slot s t" using assms(1) by (auto simp: held_def)
  note f = same_slot_fields[OF t(2)]
  have mem: "t \<in> set (gm_vals (mg_slots m))" using t(1) assms(3) by (auto simp: gm_vals_iff slots_ok_def)
  have only: "u = t" if "u \<in> set (gm_vals (mg_slots m))" "bound_to (ow_SandboxUID (sl_Owner s)) u" for u
  proof (rule ccontr)
    assume "u \<noteq> t"
    have u: "gm_get (mg_slots m) (sl_ID u) = Some u" using slots_ok_val[OF assms(3) that(1)] .
    then have "sl_ID u \<noteq> sl_ID s" using t(1) \<open>u \<noteq> t\<close> by auto
    then have "\<not> clash u t" using assms(3) u t(1) unfolding slots_ok_def by blast
    then show False using that(2) f assms(2) by (simp add: clash_def bound_to_def)
  qed
  obtain u where u: "Manager_Lookup (ow_SandboxUID (sl_Owner s)) m = Some u"
    using mem f assms(2) by (cases "Manager_Lookup (ow_SandboxUID (sl_Owner s)) m") (auto simp: Manager_Lookup_def find_None_iff bound_to_def)
  then have "u = t" using only find_Some[OF u[unfolded Manager_Lookup_def]] by blast
  then show ?thesis using u t(2) by blast
qed

text \<open>A manager with two clean slots.\<close>

definition sample_net_config :: net_config where
  "sample_net_config = (Network_DefaultConfig 2 ''pod'')\<lparr>nc_PrivateCIDR := ''10.0.0.0/29''\<rparr>"

definition sample_env :: env where
  "sample_env = \<lparr>ev_driver = [], ev_store = [], ev_ids = [Some ''a'', Some ''b''], ev_prepared = (\<lambda>s. s), ev_now = 0,
     ev_sha256 = (\<lambda>_. [])\<rparr>"

definition sample_manager :: manager where
  "sample_manager = fst (snd (Initialize (the (NewManager False sample_net_config [])) sample_env))"

definition sample_system :: system where
  "sample_system = \<lparr>sy_m = sample_manager, sy_prep = None, sy_tasks = []\<rparr>"

definition sample_owner :: "string \<Rightarrow> int \<Rightarrow> owner" where
  "sample_owner uid attempt = no_owner\<lparr>ow_SandboxUID := uid, ow_InstanceGeneration := 1, ow_AssignmentAttempt := attempt\<rparr>"

lemma sample_started: "started sample_system"
proof -
  let ?m = "the (NewManager False sample_net_config [])"
  have "NewManager False sample_net_config [] \<noteq> None" by code_simp
  then have new: "NewManager False sample_net_config [] = Some ?m" by simp
  have "fst (Initialize ?m sample_env) = None" by code_simp
  then have init: "Initialize ?m sample_env = (None, sy_m sample_system, snd (snd (Initialize ?m sample_env)))"
    by (simp add: sample_system_def sample_manager_def prod_eq_iff)
  have "dir_ok (mg_ipam ?m) []" "env_ok sample_env" by (simp_all add: dir_ok_def env_ok_def sample_env_def)
  moreover have "sy_prep sample_system = None" "sy_tasks sample_system = []" by (simp_all add: sample_system_def)
  ultimately show ?thesis unfolding started_def using new init by blast
qed

section \<open>Properties\<close>

text \<open>C2: slots never clash. Take a manager that was initialised from files of which no two clash and whose
  addresses the allocator may give (a new Pod starts with no files), and a generator that returns no
  identifier of a slot some call still works on. Then in every run, whatever the interleaving of
  concurrent calls and whichever calls of the driver and the store fail, there are at most as many slots
  as the capacity; each slot has an address between the gateway and the broadcast address of the private
  CIDR that is not the guest address; no two slots have the same address, and no two slots are bound to
  the same Sandbox. This is about the slots in memory: files of slots whose preparation failed may stay.\<close>

theorem slots_never_clash:
  assumes "started sy0" "net_run sy0 rs sy"
  shows "int (length (mg_slots (sy_m sy))) \<le> nc_Capacity (mg_config (sy_m sy)) \<and>
    (\<forall>k s. gm_get (mg_slots (sy_m sy)) k = Some s \<longrightarrow>
       sl_ID s = k \<and> (\<exists>a. slot_address (mg_ipam (sy_m sy)) a \<and> sl_IP s = String4 a)) \<and>
    (\<forall>k k' s t. gm_get (mg_slots (sy_m sy)) k = Some s \<and> gm_get (mg_slots (sy_m sy)) k' = Some t \<and> k \<noteq> k' \<longrightarrow>
       sl_IP s \<noteq> sl_IP t \<and> \<not> (sl_Phase s = SlotPhaseBound \<and> bound_to (ow_SandboxUID (sl_Owner s)) t))"
proof -
  have m: "manager_ok (sy_m sy)" using net_run_ok[OF assms(2)] started_ok[OF assms(1)] by (simp add: system_ok_def)
  then have slots: "slots_ok (mg_ipam (sy_m sy)) (mg_slots (sy_m sy))" by (simp add: manager_ok_def)
  have "sl_ID s = k \<and> (\<exists>a. slot_address (mg_ipam (sy_m sy)) a \<and> sl_IP s = String4 a)" if "gm_get (mg_slots (sy_m sy)) k = Some s" for k s
    using slots_ok_get[OF slots that] by (simp add: slot_ok_def)
  moreover have "sl_IP s \<noteq> sl_IP t \<and> \<not> (sl_Phase s = SlotPhaseBound \<and> bound_to (ow_SandboxUID (sl_Owner s)) t)"
    if "gm_get (mg_slots (sy_m sy)) k = Some s" "gm_get (mg_slots (sy_m sy)) k' = Some t" "k \<noteq> k'" for k k' s t
  proof -
    have "\<not> clash s t" using slots that unfolding slots_ok_def by blast
    then show ?thesis by (auto simp: clash_def bound_to_def)
  qed
  ultimately show ?thesis using m unfolding manager_ok_def by blast
qed

theorem slots_never_clash_witness:
  "\<exists>sy. net_run sample_system [Acquiring (sample_owner ''u'' 1)] sy \<and> int (length (mg_slots (sy_m sy))) \<le> nc_Capacity (mg_config (sy_m sy))"
proof -
  let ?o = "sample_owner ''u'' 1"
  obtain r m' where "Acquire Done 0 ?o (sy_m sample_system) = (r, m')" by fastforce
  from net_run.step[OF net_step.acquire[OF this] net_run.idle]
  have run: "net_run sample_system [Acquiring ?o] (sample_system\<lparr>sy_m := m'\<rparr>)" .
  show ?thesis using slots_never_clash[OF sample_started run] run by blast
qed

text \<open>C7: an acquired slot stays with its Sandbox. In a run as in the property on clashes, when \<^verbatim>\<open>Acquire\<close> on
  a manager that is not closed has bound a slot for a Sandbox that had none, then after any further run
  in which the manager is not closed, the owner does not release and the Sandbox is not reported as an
  orphan, \<^verbatim>\<open>Lookup\<close> finds the same slot, unchanged but for the guest address, and its file holds it as
  well, so that a restart finds it.\<close>

theorem acquired_slot_kept:
  assumes "started sy0" "net_run sy0 rs sy" "\<not> mg_closed (sy_m sy)"
    and "Acquire out now owner (sy_m sy) = (Inr s, m')" "Manager_Lookup (ow_SandboxUID owner) (sy_m sy) = None"
    and "net_run (sy\<lparr>sy_m := m'\<rparr>) rs' sy'" "\<And>r. r \<in> set rs' \<Longrightarrow> harmless owner r"
  shows "(\<exists>t. Manager_Lookup (ow_SandboxUID owner) (sy_m sy') = Some t \<and> same_slot s t) \<and>
    (\<exists>t. gm_get (mg_dir (sy_m sy')) (state_name (sl_ID s)) = Some (StateSlot t) \<and> same_slot s t)"
proof -
  have ok: "system_ok sy" using net_run_ok[OF assms(2)] started_ok[OF assms(1)] by simp
  have "targets_ok sy" using net_run_targets[OF assms(2)] started_ok[OF assms(1)] assms(1) by (simp add: targets_ok_def started_def)
  note k = acquired_kept[OF assms(4,5) ok this assms(3)]
  have ok1: "system_ok (sy\<lparr>sy_m := m'\<rparr>)" using net_step_ok[OF net_step.acquire[OF assms(4)] ok] .
  have "kept s sy'" by (rule kept_run[OF assms(6) ok1 k(1)]) (use assms(7) k(2) in simp)
  moreover have "slots_ok (mg_ipam (sy_m sy')) (mg_slots (sy_m sy'))"
    using net_run_ok[OF assms(6) ok1] by (simp add: system_ok_def manager_ok_def)
  ultimately show ?thesis using held_Lookup[of s "sy_m sy'"] k(2) by (auto simp: kept_def held_def)
qed

theorem acquired_slot_kept_witness:
  "\<exists>sy t. net_run sample_system [Acquiring (sample_owner ''u'' 1), Acquiring (sample_owner ''v'' 1)] sy \<and>
     Manager_Lookup ''u'' (sy_m sy) = Some t"
proof -
  let ?u = "sample_owner ''u'' 1" and ?v = "sample_owner ''v'' 1"
  have uid: "ow_SandboxUID ?u = ''u''" by (simp add: sample_owner_def)
  have "case fst (Acquire Done 0 ?u sample_manager) of Inr _ \<Rightarrow> True | Inl _ \<Rightarrow> False" by code_simp
  then obtain s m1 where acq: "Acquire Done 0 ?u (sy_m sample_system) = (Inr s, m1)"
    by (cases "Acquire Done 0 ?u sample_manager") (auto simp: sample_system_def split: sum.splits)
  have none: "Manager_Lookup (ow_SandboxUID ?u) (sy_m sample_system) = None" by code_simp
  have up: "\<not> mg_closed (sy_m sample_system)" using started_ok[OF sample_started] by simp
  let ?sy1 = "sample_system\<lparr>sy_m := m1\<rparr>"
  obtain r m2 where "Acquire Done 0 ?v (sy_m ?sy1) = (r, m2)" by fastforce
  from net_run.step[OF net_step.acquire[OF this] net_run.idle] have run: "net_run ?sy1 [Acquiring ?v] (?sy1\<lparr>sy_m := m2\<rparr>)" .
  have "harmless ?u q" if "q \<in> set [Acquiring ?v]" for q using that by (simp add: harmless_def)
  from acquired_slot_kept[OF sample_started net_run.idle up acq none run this]
  obtain t where "Manager_Lookup ''u'' (sy_m (?sy1\<lparr>sy_m := m2\<rparr>)) = Some t" unfolding uid by blast
  then show ?thesis using net_run.step[OF net_step.acquire[OF acq] run] by blast
qed

end
