(* ===== verification/Network_Close.thy ===== *)
theory Network_Close
  imports Network_Runs
begin

text \<open>
  Closing the slot manager ends and leaves nothing behind, and what \<^verbatim>\<open>Release\<close> does when a Sandbox has an
  older slot that could not be destroyed.
\<close>

section \<open>Closing\<close>

definition pending :: "manager \<Rightarrow> env \<Rightarrow> nat" where
  "pending m e = length (ev_driver e) + length (ev_store e) + length (mg_slots m)"

text \<open>What is no longer in memory has no file.\<close>

definition swept :: "manager \<Rightarrow> manager \<Rightarrow> bool" where
  "swept m0 m \<longleftrightarrow> (\<forall>k s. gm_get (mg_slots m0) k = Some s \<longrightarrow> gm_get (mg_slots m) k \<noteq> None \<or> gm_get (mg_dir m) (state_name k) = None)"

lemma destroy_op_pending:
  assumes "destroy_op k m e = (err, m', e')" "gm_all (\<lambda>k s. safeSlotID k) (mg_slots m)"
  shows "pending m' e' + (if gm_get (mg_slots m) k = None then 0 else 1) \<le> pending m e"
    and "gm_all (\<lambda>k s. safeSlotID k) (mg_slots m')" "swept m0 m \<Longrightarrow> swept m0 m'" "mg_closed m' = mg_closed m"
proof -
  have safe: "safeSlotID k" if "gm_get (mg_slots m) k = Some s" for s using gm_all_get[OF assms(2) that] by simp
  have del: "gm_get (mg_slots m) k \<noteq> None \<Longrightarrow> length (gm_del k (mg_slots m)) < length (mg_slots m)" by (rule length_gm_del(2))
  show "pending m' e' + (if gm_get (mg_slots m) k = None then 0 else 1) \<le> pending m e"
    using assms(1) safe del
    by (auto simp: destroy_op_def destroySlot_def delete_file_def Store_Delete_def next_driver_def next_store_def pending_def Let_def
      split: if_splits option.splits list.splits prod.splits)
  show "gm_all (\<lambda>k s. safeSlotID k) (mg_slots m')" "mg_closed m' = mg_closed m"
    using assms by (auto simp: destroy_op_def destroySlot_def delete_file_def Let_def gm_all_del
      split: if_splits option.splits prod.splits)
  show "swept m0 m \<Longrightarrow> swept m0 m'"
    using assms(1) safe by (auto simp: destroy_op_def destroySlot_def delete_file_def Store_Delete_def swept_def Let_def
      split: if_splits option.splits prod.splits) (metis not_Some_eq)
qed

lemma destroy_each_pending:
  assumes "gm_all (\<lambda>k s. safeSlotID k) (mg_slots m)" "destroy_each ks m e = (m', e')"
  shows "pending m' e' \<le> pending m e \<and> gm_all (\<lambda>k s. safeSlotID k) (mg_slots m') \<and> (swept m0 m \<longrightarrow> swept m0 m') \<and> mg_closed m' = mg_closed m"
  using assms
proof (induction ks m e rule: destroy_each.induct)
  case (2 k rest m e)
  obtain err m1 e1 where d: "destroy_op k m e = (err, m1, e1)" by (cases "destroy_op k m e")
  note p = destroy_op_pending[OF d 2(2)]
  have "pending m1 e1 \<le> pending m e" using p(1) by (simp split: if_splits)
  then show ?case using 2(1)[of err "(m1, e1)" m1 e1] 2(3) p d by simp
qed simp

lemma destroy_each_progress:
  assumes "gm_all (\<lambda>k s. safeSlotID k) (mg_slots m)" "mg_slots m \<noteq> []"
    "destroy_each (map fst (sortedSlots m)) m e = (m', e')"
  shows "pending m' e' < pending m e"
proof -
  have "sortedSlots m \<noteq> []" using assms(2) by (metis length_0_conv length_sort_slice sortedSlots_def)
  then obtain k s rest where ks: "sortedSlots m = (k, s) # rest" by (metis list.exhaust surj_pair)
  then have "(k, s) \<in> set (mg_slots m)" by (metis list.set_intros(1) set_sort_slice sortedSlots_def)
  then have present: "gm_get (mg_slots m) k \<noteq> None" by (simp add: gm_get_None_iff image_iff) (metis fst_conv)
  obtain err m1 e1 where d: "destroy_op k m e = (err, m1, e1)" by (cases "destroy_op k m e")
  note p = destroy_op_pending[OF d assms(1)]
  have "destroy_each (map fst rest) m1 e1 = (m', e')" using assms(3) by (simp add: ks d)
  from destroy_each_pending[OF p(2) this, of m] p(1) present show ?thesis by auto
qed

lemma close_loop_ends:
  assumes "gm_all (\<lambda>k s. safeSlotID k) (mg_slots m)" "swept m0 m"
  shows "\<exists>m' e'. close_loop m e = Some (m', e') \<and> mg_slots m' = [] \<and> swept m0 m' \<and> mg_closed m' = mg_closed m"
  using assms
proof (induction "pending m e" arbitrary: m e rule: less_induct)
  case less
  show ?case
  proof (cases "mg_slots m = []")
    case True
    then show ?thesis using less(3) by (subst close_loop.simps) simp
  next
    case False
    obtain m1 e1 where d: "destroy_each (map fst (sortedSlots m)) m e = (m1, e1)" by fastforce
    note p = destroy_each_pending[OF less(2) d, of m0]
    have "pending m1 e1 < pending m e" by (rule destroy_each_progress[OF less(2) False d])
    from less(1)[OF this] p less(3) show ?thesis using False d by (subst close_loop.simps) simp
  qed
qed

section \<open>Properties\<close>

text \<open>C36: \<^verbatim>\<open>Close\<close> ends and leaves nothing behind. For every manager that satisfies the invariant of runs and
  every finite number of failing calls of the driver and the store, in any order, \<^verbatim>\<open>Close\<close> returns; then no
  slot is left in memory, and none of the slots it had has a file. No other call runs at the same time.\<close>

theorem Close_destroys_all:
  assumes "manager_ok m" "\<not> mg_closed m"
  shows "\<exists>m' e'. Close m e = Some (m', e') \<and> mg_closed m' \<and> mg_slots m' = [] \<and>
    (\<forall>k s. gm_get (mg_slots m) k = Some s \<longrightarrow> gm_get (mg_dir m') (state_name k) = None)"
proof -
  let ?m = "m\<lparr>mg_closed := True\<rparr>"
  have "gm_all (slot_ok (mg_ipam m)) (mg_slots m)" using assms(1) by (simp add: manager_ok_def slots_ok_def)
  then have safe: "gm_all (\<lambda>k s. safeSlotID k) (mg_slots ?m)" by (auto simp: gm_all_def slot_ok_def)
  have "swept m ?m" by (simp add: swept_def)
  from close_loop_ends[OF safe this, of e] obtain m' e' where "close_loop ?m e = Some (m', e')" "mg_slots m' = []" "swept m m'" "mg_closed m'"
    by auto
  then show ?thesis using assms(2) by (auto simp: Close_def swept_def)
qed

theorem Close_destroys_all_witness:
  "\<exists>m' e'. Close sample_manager (sample_env\<lparr>ev_driver := [False, True, False], ev_store := [Failed, FailedAfter]\<rparr>) = Some (m', e') \<and>
     mg_slots m' = []"
proof -
  have "manager_ok sample_manager" "\<not> mg_closed sample_manager"
    using started_ok[OF sample_started] by (simp_all add: system_ok_def sample_system_def)
  from Close_destroys_all[OF this] show ?thesis by blast
qed

text \<open>C37: whether \<^verbatim>\<open>Release\<close> serves the owner of a slot depends on the iteration order of a map. When a Sandbox
  has a bound slot and an older slot of another assignment that could not be destroyed yet, then for one
  order of the same map \<^verbatim>\<open>Release\<close> refuses the rightful owner with a conflict and does nothing, and for
  another order it picks the owner's slot.\<close>

theorem release_depends_on_map_order:
  assumes "gm_get (mg_slots m) k = Some old" "sl_Phase old = SlotPhaseDestroying"
    and "ow_SandboxUID (sl_Owner old) = ow_SandboxUID owner" "\<not> Owner_Equal (sl_Owner old) owner"
    and "gm_get (mg_slots m) k' = Some current" "sl_Phase current = SlotPhaseBound" "Owner_Equal (sl_Owner current) owner"
  shows "\<exists>refusing serving. mset refusing = mset (mg_slots m) \<and> mset serving = mset (mg_slots m) \<and>
    Release owner (m\<lparr>mg_slots := refusing\<rparr>) e = (Some ErrOwnerConflict, m\<lparr>mg_slots := refusing\<rparr>, e) \<and>
    release_target owner (m\<lparr>mg_slots := serving\<rparr>) = Some current"
proof -
  let ?first = "\<lambda>x. x # remove1 x (mg_slots m)"
  have same: "mset (?first x) = mset (mg_slots m)" if "x \<in> set (mg_slots m)" for x using that by simp
  have mem: "(k, old) \<in> set (mg_slots m)" "(k', current) \<in> set (mg_slots m)" using assms(1,5) gm_get_in_set by fast+
  have "release_target owner (m\<lparr>mg_slots := ?first (k, old)\<rparr>) = Some old"
    using assms(2,3) by (simp add: release_target_def gm_vals_def)
  then have "Release owner (m\<lparr>mg_slots := ?first (k, old)\<rparr>) e = (Some ErrOwnerConflict, m\<lparr>mg_slots := ?first (k, old)\<rparr>, e)"
    using assms(4) by (simp add: Release_def)
  moreover have "release_target owner (m\<lparr>mg_slots := ?first (k', current)\<rparr>) = Some current"
    using assms(6,7) by (simp add: release_target_def gm_vals_def Owner_Equal_def)
  ultimately show ?thesis using same[OF mem(1)] same[OF mem(2)] by blast
qed

text \<open>Such a state is reached: the first assignment is released but the driver fails, and the next
  assignment of the Sandbox acquires another slot.\<close>

definition reassigned_manager :: manager where
  "reassigned_manager =
     (let m1 = snd (Acquire Done 0 (sample_owner ''u'' 1) sample_manager);
          m2 = fst (snd (Release (sample_owner ''u'' 1) m1 (sample_env\<lparr>ev_driver := [False]\<rparr>)))
      in snd (Acquire Done 0 (sample_owner ''u'' 2) m2))"

theorem release_depends_on_map_order_witness:
  "\<exists>refusing. mset refusing = mset (mg_slots reassigned_manager) \<and>
     fst (Release (sample_owner ''u'' 2) (reassigned_manager\<lparr>mg_slots := refusing\<rparr>) sample_env) = Some ErrOwnerConflict"
proof -
  let ?o = "sample_owner ''u'' 2"
  have state: "case (gm_get (mg_slots reassigned_manager) ''a'', gm_get (mg_slots reassigned_manager) ''b'') of
      (Some old, Some current) \<Rightarrow> sl_Phase old = SlotPhaseDestroying \<and> ow_SandboxUID (sl_Owner old) = ow_SandboxUID ?o \<and>
        \<not> Owner_Equal (sl_Owner old) ?o \<and> sl_Phase current = SlotPhaseBound \<and> Owner_Equal (sl_Owner current) ?o
    | _ \<Rightarrow> False" by code_simp
  then obtain old current where slots: "gm_get (mg_slots reassigned_manager) ''a'' = Some old"
      "gm_get (mg_slots reassigned_manager) ''b'' = Some current" by (auto split: option.splits)
  with state have facts: "sl_Phase old = SlotPhaseDestroying" "ow_SandboxUID (sl_Owner old) = ow_SandboxUID ?o"
      "\<not> Owner_Equal (sl_Owner old) ?o" "sl_Phase current = SlotPhaseBound" "Owner_Equal (sl_Owner current) ?o" by simp_all
  from release_depends_on_map_order[OF slots(1) facts(1-3) slots(2) facts(4,5), of sample_env]
  show ?thesis by (metis fst_conv)
qed

end
