(* ===== verification/Lease_Journal.thy ===== *)
theory Lease_Journal
  imports Go_Text
begin

text \<open>
  The journal of the Firecracker node agent: the entries and the file of
  \<^verbatim>\<open>internal/runtime/firecracker/agent/state/journal.go\<close>, and the lease of \<^verbatim>\<open>agent/protocol/types.go\<close>.
\<close>

section \<open>Types\<close>

record identity =
  id_RequestID :: string
  id_Namespace :: string
  id_PodUID :: string

record lease =
  le_LeaseID :: string
  le_SandboxID :: string
  le_Image :: string
  le_PodUID :: string
  le_Namespace :: string
  le_RootfsDev :: string
  le_MemDev :: string
  le_CreatedAt :: gotime

definition no_lease :: lease where
  "no_lease = \<lparr>le_LeaseID = [], le_SandboxID = [], le_Image = [], le_PodUID = [], le_Namespace = [], le_RootfsDev = [],
     le_MemDev = [], le_CreatedAt = time_zero\<rparr>"

datatype agent_op = OpPinImage | OpUnpinImage | OpLeaseDevices | OpReleaseDevices | OpOther string

text \<open>The argument and result documents. A result without a value is the empty document.\<close>

datatype op_args = PinImageArgs string | UnpinImageArgs string | LeaseDevicesArgs string string int bool | ReleaseDevicesArgs string

datatype op_result = PinImageResult string | LeaseResult lease | EmptyResult

record journal_entry =
  je_RequestID :: string
  je_Op :: agent_op
  je_PodUID :: string
  je_Namespace :: string
  je_Args :: "op_args option"
  je_Result :: "op_result option"
  je_At :: gotime

text \<open>Decoding a document into a struct keeps the fields both have and leaves the others zero.\<close>

fun args_image :: "op_args \<Rightarrow> string" where
  "args_image (PinImageArgs img) = img"
| "args_image (UnpinImageArgs img) = img"
| "args_image (LeaseDevicesArgs _ img _ _) = img"
| "args_image (ReleaseDevicesArgs _) = []"

fun args_lease_id :: "op_args \<Rightarrow> string" where
  "args_lease_id (ReleaseDevicesArgs leaseID) = leaseID"
| "args_lease_id _ = []"

fun result_digest :: "op_result \<Rightarrow> string" where
  "result_digest (PinImageResult digest) = digest"
| "result_digest _ = []"

fun result_lease :: "op_result \<Rightarrow> lease" where
  "result_lease (LeaseResult l) = l"
| "result_lease _ = no_lease"

section \<open>The file\<close>

text \<open>The JSON codec of entries is an argument. An entry survives it when its line decodes to the entry; a
  marshalled document is not empty and has no line break.\<close>

record json_codec =
  jc_Marshal :: "journal_entry \<Rightarrow> string"
  jc_Unmarshal :: "string \<Rightarrow> journal_entry option"

definition line_end :: char where
  "line_end = CHR 0x0A"

definition survives :: "json_codec \<Rightarrow> journal_entry \<Rightarrow> bool" where
  "survives J e \<longleftrightarrow> jc_Unmarshal J (jc_Marshal J e) = Some e \<and> jc_Marshal J e \<noteq> [] \<and> line_end \<notin> set (jc_Marshal J e)"

definition journal_line :: "json_codec \<Rightarrow> journal_entry \<Rightarrow> string" where
  "journal_line J e = jc_Marshal J e @ [line_end]"

text \<open>How a call of \<^verbatim>\<open>append\<close> ends: it works; the line is written but not synchronised; or only some bytes
  of it are written.\<close>

datatype append_outcome = Appended | AppendUnsynced | AppendTorn nat

definition journal_append :: "json_codec \<Rightarrow> append_outcome \<Rightarrow> journal_entry \<Rightarrow> string \<Rightarrow> bool \<times> string" where
  "journal_append J out e file =
     (case out of
        Appended \<Rightarrow> (True, file @ journal_line J e)
      | AppendUnsynced \<Rightarrow> (False, file @ journal_line J e)
      | AppendTorn n \<Rightarrow> (False, file @ take n (journal_line J e)))"

text \<open>The number of bytes up to the last line break, 0 when there is none.\<close>

definition complete_length :: "string \<Rightarrow> nat" where
  "complete_length payload = length payload - length (takeWhile (\<lambda>c. c \<noteq> line_end) (rev payload))"

definition torn_tail :: "string \<Rightarrow> bool" where
  "torn_tail payload \<longleftrightarrow> payload \<noteq> [] \<and> last payload \<noteq> line_end"

fun visit_lines ::
    "json_codec \<Rightarrow> (journal_entry \<Rightarrow> 's \<Rightarrow> 's option) \<Rightarrow> string list \<Rightarrow> 's \<Rightarrow> 's option" where
  "visit_lines J visit [] s = Some s"
| "visit_lines J visit (l # ls) s =
     (if l = [] then visit_lines J visit ls s
      else case jc_Unmarshal J l of
          None \<Rightarrow> None
        | Some e \<Rightarrow> (case visit e s of None \<Rightarrow> None | Some s \<Rightarrow> visit_lines J visit ls s))"

text \<open>The result is the length to truncate to, where 0 says that nothing is to be truncated, and what the
  visits made of the state.\<close>

definition journal_replay ::
    "json_codec \<Rightarrow> (journal_entry \<Rightarrow> 's \<Rightarrow> 's option) \<Rightarrow> string \<Rightarrow> 's \<Rightarrow> (nat \<times> 's) option" where
  "journal_replay J visit payload s =
     (let truncateLength = (if torn_tail payload then complete_length payload else 0);
          complete = (if torn_tail payload then take truncateLength payload else payload)
      in map_option (Pair truncateLength) (visit_lines J visit (split_all line_end complete) s))"

definition journal_truncate :: "nat \<Rightarrow> string \<Rightarrow> string" where
  "journal_truncate n file = take n file"

section \<open>Lines\<close>

fun visit_entries :: "(journal_entry \<Rightarrow> 's \<Rightarrow> 's option) \<Rightarrow> journal_entry list \<Rightarrow> 's \<Rightarrow> 's option" where
  "visit_entries visit [] s = Some s"
| "visit_entries visit (e # es) s = (case visit e s of None \<Rightarrow> None | Some s \<Rightarrow> visit_entries visit es s)"

lemma visit_entries_append:
  "visit_entries visit (es @ fs) s = (case visit_entries visit es s of None \<Rightarrow> None | Some s \<Rightarrow> visit_entries visit fs s)"
  by (induction es arbitrary: s) (auto split: option.splits)

definition journal_file :: "json_codec \<Rightarrow> journal_entry list \<Rightarrow> string" where
  "journal_file J es = concat (map (journal_line J) es)"

lemma journal_file_Nil [simp]: "journal_file J [] = []"
  by (simp add: journal_file_def)

lemma journal_file_snoc [simp]: "journal_file J (es @ [e]) = journal_file J es @ journal_line J e"
  by (simp add: journal_file_def)

lemma journal_file_last: "es \<noteq> [] \<Longrightarrow> journal_file J es \<noteq> [] \<and> last (journal_file J es) = line_end"
  by (induction es rule: rev_induct) (auto simp: journal_line_def)

lemma torn_tail_append: "line_end \<notin> set torn \<Longrightarrow> torn_tail (journal_file J es @ torn) \<longleftrightarrow> torn \<noteq> []"
  using journal_file_last[of es J] by (cases "es = []"; cases "torn = []") (auto simp: torn_tail_def dest: last_in_set)

lemma complete_length_append:
  assumes "line_end \<notin> set torn"
  shows "complete_length (journal_file J es @ torn) = length (journal_file J es)"
proof -
  have torn: "takeWhile (\<lambda>c. c \<noteq> line_end) (rev torn @ xs) = rev torn @ takeWhile (\<lambda>c. c \<noteq> line_end) xs" for xs
    using assms by (intro takeWhile_append2) auto
  have "takeWhile (\<lambda>c. c \<noteq> line_end) (rev (journal_file J es)) = []"
    using journal_file_last[of es J] by (cases "es = []") (simp_all add: hd_rev takeWhile_eq_Nil_iff)
  then show ?thesis by (simp add: complete_length_def torn)
qed

lemma visit_split_n:
  assumes "\<forall>e \<in> set es. survives J e" "length (journal_file J es) \<le> n"
  shows "visit_lines J visit (split_n line_end (Suc n) (journal_file J es)) s = visit_entries visit es s"
  using assms
proof (induction es arbitrary: n s)
  case Nil
  then show ?case by (cases n) simp_all
next
  case (Cons e es)
  have e: "survives J e" using Cons(2) by simp
  have bytes: "journal_file J (e # es) = jc_Marshal J e @ line_end # journal_file J es"
    by (simp add: journal_file_def journal_line_def)
  then obtain m where n: "n = Suc m" "length (journal_file J es) \<le> m" using Cons(3) by (cases n) auto
  have "split_n line_end (Suc n) (journal_file J (e # es)) = jc_Marshal J e # split_n line_end (Suc m) (journal_file J es)"
    unfolding bytes n(1) by (rule split_n_sep) (use e in \<open>simp add: survives_def\<close>)
  then show ?case using Cons(1)[OF _ n(2)] Cons(2) e by (auto simp: survives_def split: option.splits)
qed

lemma visit_lines_file:
  assumes "\<forall>e \<in> set es. survives J e"
  shows "visit_lines J visit (split_all line_end (journal_file J es)) s = visit_entries visit es s"
  unfolding split_all_def by (rule visit_split_n[OF assms]) simp

text \<open>Reading a file of whole lines with a torn tail visits the entries of the lines.\<close>

lemma journal_replay_file:
  assumes "\<forall>e \<in> set es. survives J e" "line_end \<notin> set torn"
  shows "journal_replay J visit (journal_file J es @ torn) s =
    map_option (Pair (if torn = [] then 0 else length (journal_file J es))) (visit_entries visit es s)"
  using visit_lines_file[OF assms(1), of visit s]
  by (simp add: journal_replay_def Let_def torn_tail_append[OF assms(2)] complete_length_append[OF assms(2)])

end
