(* ===== verification/Lease_State.thy ===== *)
theory Lease_State
  imports Lease_Journal
begin

text \<open>
  The leases and reference counts of the Firecracker node agent:
  \<^verbatim>\<open>internal/runtime/firecracker/agent/state/leases.go\<close>. The functions are the sections the code runs under
  its lock; the operations are composed of them.
\<close>

section \<open>State\<close>

record image_refs =
  ir_pinCount :: int
  ir_leaseCount :: int

definition no_refs :: image_refs where
  "no_refs = \<lparr>ir_pinCount = 0, ir_leaseCount = 0\<rparr>"

record completed =
  co_op :: agent_op
  co_podUID :: string
  co_pinDigest :: string
  co_lease :: "lease option"

text \<open>A call in flight: what it was called with, and whether it has committed and only has to wake the
  callers that wait for it.\<close>

record inflight_call =
  fl_id :: identity
  fl_args :: op_args
  fl_committed :: bool

text \<open>The state together with the bytes of the journal file.\<close>

record agent_state =
  ag_leases :: "(string, lease) gomap"
  ag_bySandbox :: "(string, string) gomap"
  ag_images :: "(string, image_refs) gomap"
  ag_completed :: "(string, completed) gomap"
  ag_inflight :: "(string, inflight_call) gomap"
  ag_file :: string

definition empty_state :: "string \<Rightarrow> agent_state" where
  "empty_state file = \<lparr>ag_leases = [], ag_bySandbox = [], ag_images = [], ag_completed = [], ag_inflight = [], ag_file = file\<rparr>"

datatype agent_error = AgentConflict | AgentJournal | AgentSideEffect | AgentWaits

section \<open>Effects\<close>

definition image_entry :: "string \<Rightarrow> agent_state \<Rightarrow> image_refs" where
  "image_entry img s = (case gm_get (ag_images s) img of None \<Rightarrow> no_refs | Some refs \<Rightarrow> refs)"

definition add_pin :: "string \<Rightarrow> agent_state \<Rightarrow> agent_state" where
  "add_pin img s = s\<lparr>ag_images :=
     gm_put img (image_entry img s\<lparr>ir_pinCount := ir_pinCount (image_entry img s) + 1\<rparr>) (ag_images s)\<rparr>"

definition drop_pin :: "string \<Rightarrow> agent_state \<Rightarrow> agent_state" where
  "drop_pin img s =
     (case gm_get (ag_images s) img of
        None \<Rightarrow> s
      | Some refs \<Rightarrow> s\<lparr>ag_images := gm_put img (refs\<lparr>ir_pinCount := max 0 (ir_pinCount refs - 1)\<rparr>) (ag_images s)\<rparr>)"

definition add_lease :: "lease \<Rightarrow> agent_state \<Rightarrow> agent_state" where
  "add_lease l s = s\<lparr>ag_leases := gm_put (le_LeaseID l) l (ag_leases s),
     ag_bySandbox := gm_put (le_SandboxID l) (le_LeaseID l) (ag_bySandbox s),
     ag_images := gm_put (le_Image l)
       (image_entry (le_Image l) s\<lparr>ir_leaseCount := ir_leaseCount (image_entry (le_Image l) s) + 1\<rparr>) (ag_images s)\<rparr>"

text \<open>Dropping a lease stops at zero when a call does it and does not when the journal is replayed.\<close>

definition drop_lease :: "(int \<Rightarrow> int) \<Rightarrow> string \<Rightarrow> agent_state \<Rightarrow> agent_state" where
  "drop_lease stop leaseID s =
     (case gm_get (ag_leases s) leaseID of
        None \<Rightarrow> s
      | Some l \<Rightarrow> s\<lparr>ag_leases := gm_del leaseID (ag_leases s), ag_bySandbox := gm_del (le_SandboxID l) (ag_bySandbox s),
          ag_images := (case gm_get (ag_images s) (le_Image l) of
              None \<Rightarrow> ag_images s
            | Some refs \<Rightarrow> gm_put (le_Image l) (refs\<lparr>ir_leaseCount := stop (ir_leaseCount refs - 1)\<rparr>) (ag_images s))\<rparr>)"

fun args_op :: "op_args \<Rightarrow> agent_op" where
  "args_op (PinImageArgs _) = OpPinImage"
| "args_op (UnpinImageArgs _) = OpUnpinImage"
| "args_op (LeaseDevicesArgs _ _ _ _) = OpLeaseDevices"
| "args_op (ReleaseDevicesArgs _) = OpReleaseDevices"

text \<open>The functions \<^verbatim>\<open>apply\<close> that the four operations pass to \<^verbatim>\<open>run\<close>.\<close>

fun apply_result :: "op_args \<Rightarrow> op_result \<Rightarrow> agent_state \<Rightarrow> agent_state" where
  "apply_result (PinImageArgs img) result s = add_pin img s"
| "apply_result (UnpinImageArgs img) result s = drop_pin img s"
| "apply_result (LeaseDevicesArgs _ _ _ _) result s = add_lease (result_lease result) s"
| "apply_result (ReleaseDevicesArgs leaseID) result s = drop_lease (max 0) leaseID s"

definition set_result :: "op_result \<Rightarrow> completed \<Rightarrow> completed" where
  "set_result result c =
     (case (co_op c, result) of
        (OpPinImage, PinImageResult digest) \<Rightarrow> c\<lparr>co_pinDigest := digest\<rparr>
      | (OpLeaseDevices, LeaseResult l) \<Rightarrow> c\<lparr>co_lease := Some l\<rparr>
      | _ \<Rightarrow> c)"

definition completed_result :: "completed \<Rightarrow> op_result" where
  "completed_result c =
     (case co_op c of
        OpPinImage \<Rightarrow> PinImageResult (co_pinDigest c)
      | OpLeaseDevices \<Rightarrow> (case co_lease c of Some l \<Rightarrow> LeaseResult l | None \<Rightarrow> EmptyResult)
      | _ \<Rightarrow> EmptyResult)"

section \<open>Journaled execution\<close>

definition intent_entry :: "gotime \<Rightarrow> identity \<Rightarrow> op_args \<Rightarrow> journal_entry" where
  "intent_entry now i args = \<lparr>je_RequestID = id_RequestID i, je_Op = args_op args, je_PodUID = id_PodUID i,
     je_Namespace = id_Namespace i, je_Args = Some args, je_Result = None, je_At = now\<rparr>"

definition result_entry :: "gotime \<Rightarrow> identity \<Rightarrow> op_args \<Rightarrow> op_result \<Rightarrow> journal_entry" where
  "result_entry now i args result = \<lparr>je_RequestID = id_RequestID i, je_Op = args_op args, je_PodUID = [], je_Namespace = [],
     je_Args = None, je_Result = Some result, je_At = now\<rparr>"

text \<open>
  \<^verbatim>\<open>run\<close> has a section that finds a recorded outcome or writes the intent, the side effect outside the lock,
  a section that applies the effect and writes the result, and a section that removes the call.
\<close>

datatype run_start = RunReplay op_result | RunConflict | RunWait | RunJournalError | RunStarted

definition begin_run ::
    "json_codec \<Rightarrow> append_outcome \<Rightarrow> gotime \<Rightarrow> identity \<Rightarrow> op_args \<Rightarrow> agent_state \<Rightarrow> run_start \<times> agent_state" where
  "begin_run J out now i args s =
     (case gm_get (ag_completed s) (id_RequestID i) of
        Some c \<Rightarrow>
          if co_op c \<noteq> args_op args then (RunConflict, s)
          else if co_podUID c \<noteq> id_PodUID i then (RunConflict, s)
          else (RunReplay (completed_result c), s)
      | None \<Rightarrow>
          if gm_get (ag_inflight s) (id_RequestID i) \<noteq> None then (RunWait, s)
          else let (ok, file) = journal_append J out (intent_entry now i args) (ag_file s)
               in if \<not> ok then (RunJournalError, s\<lparr>ag_file := file\<rparr>)
                  else (RunStarted, s\<lparr>ag_file := file, ag_inflight :=
                    gm_put (id_RequestID i) \<lparr>fl_id = i, fl_args = args, fl_committed = False\<rparr> (ag_inflight s)\<rparr>))"

definition commit_run ::
    "json_codec \<Rightarrow> append_outcome \<Rightarrow> gotime \<Rightarrow> identity \<Rightarrow> op_args \<Rightarrow> op_result \<Rightarrow> agent_state \<Rightarrow> bool \<times> agent_state" where
  "commit_run J out now i args result s =
     (let s = apply_result args result s;
          entry = set_result result \<lparr>co_op = args_op args, co_podUID = id_PodUID i, co_pinDigest = [], co_lease = None\<rparr>;
          s = s\<lparr>ag_completed := gm_put (id_RequestID i) entry (ag_completed s)\<rparr>;
          (ok, file) = journal_append J out (result_entry now i args result) (ag_file s)
      in (ok, s\<lparr>ag_file := file, ag_inflight :=
           gm_put (id_RequestID i) \<lparr>fl_id = i, fl_args = args, fl_committed = True\<rparr> (ag_inflight s)\<rparr>))"

definition finish_run :: "string \<Rightarrow> agent_state \<Rightarrow> agent_state" where
  "finish_run requestID s = s\<lparr>ag_inflight := gm_del requestID (ag_inflight s)\<rparr>"

text \<open>One call without others: \<^verbatim>\<open>effect\<close> is what the side effect returns, if it works.\<close>

definition run ::
    "json_codec \<Rightarrow> append_outcome \<times> append_outcome \<Rightarrow> gotime \<Rightarrow> identity \<Rightarrow> op_args \<Rightarrow> op_result option \<Rightarrow> agent_state
      \<Rightarrow> (agent_error + op_result) \<times> agent_state" where
  "run J outs now i args effect s =
     (case begin_run J (fst outs) now i args s of
        (RunReplay result, s) \<Rightarrow> (Inr result, s)
      | (RunConflict, s) \<Rightarrow> (Inl AgentConflict, s)
      | (RunWait, s) \<Rightarrow> (Inl AgentWaits, s)
      | (RunJournalError, s) \<Rightarrow> (Inl AgentJournal, s)
      | (RunStarted, s) \<Rightarrow>
          (case effect of
             None \<Rightarrow> (Inl AgentSideEffect, finish_run (id_RequestID i) s)
           | Some result \<Rightarrow>
               (let (ok, s) = commit_run J (snd outs) now i args result s; s = finish_run (id_RequestID i) s
                in if ok then (Inr result, s) else (Inl AgentJournal, s))))"

section \<open>Operations\<close>

definition PinImage ::
    "json_codec \<Rightarrow> append_outcome \<times> append_outcome \<Rightarrow> gotime \<Rightarrow> identity \<Rightarrow> string \<Rightarrow> string option \<Rightarrow> agent_state
      \<Rightarrow> (agent_error + string) \<times> agent_state" where
  "PinImage J outs now i img pulled s =
     (case run J outs now i (PinImageArgs img) (map_option PinImageResult pulled) s of
        (Inl err, s) \<Rightarrow> (Inl err, s)
      | (Inr result, s) \<Rightarrow> (Inr (result_digest result), s))"

definition UnpinImage ::
    "json_codec \<Rightarrow> append_outcome \<times> append_outcome \<Rightarrow> gotime \<Rightarrow> identity \<Rightarrow> string \<Rightarrow> agent_state
      \<Rightarrow> agent_error option \<times> agent_state" where
  "UnpinImage J outs now i img s =
     (case run J outs now i (UnpinImageArgs img) (Some EmptyResult) s of
        (Inl err, s) \<Rightarrow> (Some err, s) | (Inr _, s) \<Rightarrow> (None, s))"

definition rememberCompleted :: "identity \<Rightarrow> agent_op \<Rightarrow> lease \<Rightarrow> agent_state \<Rightarrow> bool \<times> agent_state" where
  "rememberCompleted i operation l s =
     (case gm_get (ag_completed s) (id_RequestID i) of
        Some c \<Rightarrow> (co_podUID c = id_PodUID i, s)
      | None \<Rightarrow> (True, s\<lparr>ag_completed := gm_put (id_RequestID i)
          \<lparr>co_op = operation, co_podUID = id_PodUID i, co_pinDigest = [], co_lease = Some l\<rparr> (ag_completed s)\<rparr>))"

text \<open>The lease a Sandbox has, as the code reads it: the zero lease when the table has none.\<close>

definition sandbox_lease :: "string \<Rightarrow> agent_state \<Rightarrow> lease option" where
  "sandbox_lease sandboxID s =
     (case gm_get (ag_bySandbox s) sandboxID of
        None \<Rightarrow> None
      | Some k \<Rightarrow> Some (case gm_get (ag_leases s) k of None \<Rightarrow> no_lease | Some l \<Rightarrow> l))"

definition LeaseDevices ::
    "json_codec \<Rightarrow> append_outcome \<times> append_outcome \<Rightarrow> gotime \<Rightarrow> identity \<Rightarrow> string \<Rightarrow> string \<Rightarrow> int \<Rightarrow> bool \<Rightarrow> lease option
      \<Rightarrow> agent_state \<Rightarrow> (agent_error + lease) \<times> agent_state" where
  "LeaseDevices J outs now i sandboxID img memSizeMiB rootfsWritable leased s =
     (case sandbox_lease sandboxID s of
        Some l \<Rightarrow>
          if le_PodUID l \<noteq> id_PodUID i then (Inl AgentConflict, s)
          else (case rememberCompleted i OpLeaseDevices l s of
                  (False, s) \<Rightarrow> (Inl AgentConflict, s) | (True, s) \<Rightarrow> (Inr l, s))
      | None \<Rightarrow>
          (case run J outs now i (LeaseDevicesArgs sandboxID img memSizeMiB rootfsWritable) (map_option LeaseResult leased) s of
             (Inl err, s) \<Rightarrow> (Inl err, s)
           | (Inr result, s) \<Rightarrow> (Inr (result_lease result), s)))"

text \<open>The record that \<^verbatim>\<open>Service.LeaseDevices\<close> of \<^verbatim>\<open>agent/server/service.go\<close> has leased; the two paths are
  arguments.\<close>

definition service_lease :: "identity \<Rightarrow> string \<Rightarrow> string \<Rightarrow> string \<Rightarrow> string \<Rightarrow> gotime \<Rightarrow> string \<Rightarrow> lease" where
  "service_lease i sandboxID img rootfsDev memDev now leaseID = \<lparr>le_LeaseID = leaseID, le_SandboxID = sandboxID,
     le_Image = img, le_PodUID = id_PodUID i, le_Namespace = id_Namespace i, le_RootfsDev = rootfsDev, le_MemDev = memDev,
     le_CreatedAt = now\<rparr>"

definition foreign_lease :: "identity \<Rightarrow> string \<Rightarrow> agent_state \<Rightarrow> bool" where
  "foreign_lease i leaseID s =
     (case gm_get (ag_leases s) leaseID of None \<Rightarrow> False | Some l \<Rightarrow> le_PodUID l \<noteq> id_PodUID i)"

definition ReleaseDevices ::
    "json_codec \<Rightarrow> append_outcome \<times> append_outcome \<Rightarrow> gotime \<Rightarrow> identity \<Rightarrow> string \<Rightarrow> agent_state
      \<Rightarrow> agent_error option \<times> agent_state" where
  "ReleaseDevices J outs now i leaseID s =
     (if foreign_lease i leaseID s then (Some AgentConflict, s)
      else case run J outs now i (ReleaseDevicesArgs leaseID) (Some EmptyResult) s of
          (Inl err, s) \<Rightarrow> (Some err, s) | (Inr _, s) \<Rightarrow> (None, s))"

definition GetLease :: "string \<Rightarrow> agent_state \<Rightarrow> lease option" where
  "GetLease leaseID s = gm_get (ag_leases s) leaseID"

record health_snapshot =
  hs_Leases :: "lease list"
  hs_LeaseCount :: nat
  hs_PinCount :: int
  hs_ImageCount :: nat

definition State_Snapshot :: "agent_state \<Rightarrow> health_snapshot" where
  "State_Snapshot s = \<lparr>hs_Leases = gm_vals (ag_leases s), hs_LeaseCount = length (ag_leases s),
     hs_PinCount = sum_list (map ir_pinCount (gm_vals (ag_images s))), hs_ImageCount = length (ag_images s)\<rparr>"

section \<open>Recovery\<close>

definition bumpPin :: "string \<Rightarrow> int \<Rightarrow> agent_state \<Rightarrow> agent_state option" where
  "bumpPin img delta s =
     (if img = [] then None
      else Some (s\<lparr>ag_images := gm_put img
        (image_entry img s\<lparr>ir_pinCount := max 0 (ir_pinCount (image_entry img s) + delta)\<rparr>) (ag_images s)\<rparr>))"

definition complete :: "journal_entry \<Rightarrow> string \<Rightarrow> lease option \<Rightarrow> agent_state \<Rightarrow> agent_state" where
  "complete intent digest l s = s\<lparr>ag_completed := gm_put (je_RequestID intent)
     \<lparr>co_op = je_Op intent, co_podUID = je_PodUID intent, co_pinDigest = digest, co_lease = l\<rparr> (ag_completed s)\<rparr>"

text \<open>Arguments that are missing are an error of the decoder.\<close>

definition replayApply :: "journal_entry \<Rightarrow> op_result \<Rightarrow> agent_state \<Rightarrow> agent_state option" where
  "replayApply intent result s =
     (case je_Op intent of
        OpPinImage \<Rightarrow> Option.bind (je_Args intent) (\<lambda>args.
          map_option (complete intent (result_digest result) None) (bumpPin (args_image args) 1 s))
      | OpUnpinImage \<Rightarrow> Option.bind (je_Args intent) (\<lambda>args.
          map_option (complete intent [] None) (bumpPin (args_image args) (- 1) s))
      | OpLeaseDevices \<Rightarrow> Some (complete intent [] (Some (result_lease result)) (add_lease (result_lease result) s))
      | OpReleaseDevices \<Rightarrow> Option.bind (je_Args intent) (\<lambda>args.
          Some (complete intent [] None (drop_lease (\<lambda>n. n) (args_lease_id args) s)))
      | OpOther _ \<Rightarrow> None)"

type_synonym recovery = "(string, journal_entry) gomap \<times> agent_state"

definition recover_entry :: "journal_entry \<Rightarrow> recovery \<Rightarrow> recovery option" where
  "recover_entry e r =
     (case je_Result e of
        None \<Rightarrow>
          if je_RequestID e = [] then Some r else Some (gm_put (je_RequestID e) e (fst r), snd r)
      | Some result \<Rightarrow>
          (case gm_get (fst r) (je_RequestID e) of
             None \<Rightarrow> Some (gm_del (je_RequestID e) (fst r), snd r)
           | Some intent \<Rightarrow> map_option (Pair (gm_del (je_RequestID e) (fst r))) (replayApply intent result (snd r))))"

text \<open>\<^verbatim>\<open>New\<close> on the bytes of a journal file.\<close>

definition recover_state :: "json_codec \<Rightarrow> string \<Rightarrow> agent_state option" where
  "recover_state J file =
     (case journal_replay J recover_entry file ([], empty_state file) of
        None \<Rightarrow> None
      | Some (truncateLength, _, s) \<Rightarrow>
          Some (if truncateLength > 0 then s\<lparr>ag_file := journal_truncate truncateLength (ag_file s)\<rparr> else s))"

end
