(* ===== verification/Lease_Recovery.thy ===== *)
theory Lease_Recovery
  imports Lease_State
begin

text \<open>
  Runs of the node agent's state with concurrent calls, failing writes, crashes and restarts, and what holds
  in them: the tables agree with each other, and a restart finds exactly the calls whose result was written.
\<close>

section \<open>Runs\<close>

fun args_sandbox :: "op_args \<Rightarrow> string option" where
  "args_sandbox (LeaseDevicesArgs sandboxID _ _ _) = Some sandboxID"
| "args_sandbox _ = None"

text \<open>What the server of the agent has checked of the arguments.\<close>

fun accepted_args :: "op_args \<Rightarrow> bool" where
  "accepted_args (PinImageArgs img) = (img \<noteq> [])"
| "accepted_args (UnpinImageArgs img) = (img \<noteq> [])"
| "accepted_args (LeaseDevicesArgs sandboxID img _ _) = (sandboxID \<noteq> [] \<and> img \<noteq> [])"
| "accepted_args (ReleaseDevicesArgs leaseID) = (leaseID \<noteq> [])"

text \<open>What the side effect of an operation returns. The lease is for the Sandbox, image and Pod of the
  request, as \<^verbatim>\<open>Service.LeaseDevices\<close> builds it, and its identifier is not that of another lease.\<close>

fun fitting_result :: "identity \<Rightarrow> op_args \<Rightarrow> agent_state \<Rightarrow> op_result \<Rightarrow> bool" where
  "fitting_result i (PinImageArgs _) s result = (result = PinImageResult (result_digest result))"
| "fitting_result i (LeaseDevicesArgs sandboxID img _ _) s result =
     (\<exists>rootfsDev memDev now leaseID. result = LeaseResult (service_lease i sandboxID img rootfsDev memDev now leaseID) \<and>
        gm_get (ag_leases s) leaseID = None)"
| "fitting_result i _ s result = (result = EmptyResult)"

text \<open>A call that leases holds the lock of its Sandbox until it returns.\<close>

definition sandbox_locked :: "string \<Rightarrow> agent_state \<Rightarrow> bool" where
  "sandbox_locked sandboxID s \<longleftrightarrow> (\<exists>r c. gm_get (ag_inflight s) r = Some c \<and> args_sandbox (fl_args c) = Some sandboxID)"

definition sandbox_free :: "op_args \<Rightarrow> agent_state \<Rightarrow> bool" where
  "sandbox_free args s \<longleftrightarrow> (\<forall>sandboxID. args_sandbox args = Some sandboxID \<longrightarrow>
     \<not> sandbox_locked sandboxID s \<and> gm_get (ag_bySandbox s) sandboxID = None)"

text \<open>The outcome that is recorded for a call, and what a list of calls, one after the other, makes of an
  empty state.\<close>

definition outcome_of :: "identity \<Rightarrow> op_args \<Rightarrow> op_result \<Rightarrow> completed" where
  "outcome_of i args result = set_result result \<lparr>co_op = args_op args, co_podUID = id_PodUID i, co_pinDigest = [], co_lease = None\<rparr>"

type_synonym committed_call = "identity \<times> op_args \<times> op_result"

definition commit_call :: "committed_call \<Rightarrow> agent_state \<Rightarrow> agent_state" where
  "commit_call = (\<lambda>(i, args, result) s. (apply_result args result s)
     \<lparr>ag_completed := gm_put (id_RequestID i) (outcome_of i args result) (ag_completed s)\<rparr>)"

definition committed :: "committed_call list \<Rightarrow> agent_state" where
  "committed calls = fold commit_call calls (empty_state [])"

text \<open>
  The state, and what the program does not keep: the entries whose line is whole in the file, the bytes of a
  failed write behind them, the calls whose result line is whole, and, since the last start, the requests
  whose result could not be written and those that were remembered without a journal entry. The last field
  is lost when a start follows upon a result that could not be written.
\<close>

record node =
  nd_state :: agent_state
  nd_log :: "journal_entry list"
  nd_tail :: string
  nd_calls :: "committed_call list"
  nd_lost :: "string list"
  nd_remembered :: "string list"
  nd_intact :: bool

definition fresh_node :: node where
  "fresh_node = \<lparr>nd_state = empty_state [], nd_log = [], nd_tail = [], nd_calls = [], nd_lost = [], nd_remembered = [], nd_intact = True\<rparr>"

text \<open>The line of an entry is whole in the file after \<^verbatim>\<open>append\<close>, which may have failed all the same.\<close>

definition whole :: "json_codec \<Rightarrow> append_outcome \<Rightarrow> journal_entry \<Rightarrow> bool" where
  "whole J out e \<longleftrightarrow> (case out of AppendTorn k \<Rightarrow> length (journal_line J e) \<le> k | _ \<Rightarrow> True)"

definition logged :: "json_codec \<Rightarrow> append_outcome \<Rightarrow> journal_entry \<Rightarrow> node \<Rightarrow> node" where
  "logged J out e n = (if whole J out e then n\<lparr>nd_log := nd_log n @ [e]\<rparr>
     else n\<lparr>nd_tail := snd (journal_append J out e [])\<rparr>)"

text \<open>
  A write may fail with none, some or all of the bytes in the file. After one that left some bytes of a line,
  no other write follows before the next start; calls that write nothing may. A crash may add bytes of a
  further line, and the first line of the file is not torn.
\<close>

inductive node_step :: "json_codec \<Rightarrow> node \<Rightarrow> node \<Rightarrow> bool" for J where
  answer: "begin_run J out now i args (nd_state n) = (r, s') \<Longrightarrow> r \<noteq> RunStarted \<Longrightarrow> r \<noteq> RunJournalError \<Longrightarrow>
    node_step J n (n\<lparr>nd_state := s'\<rparr>)"
| start: "begin_run J out now i args (nd_state n) = (r, s') \<Longrightarrow> r = RunStarted \<or> r = RunJournalError \<Longrightarrow> nd_tail n = [] \<Longrightarrow>
    line_end \<notin> set (jc_Marshal J (intent_entry now i args)) \<Longrightarrow>
    id_RequestID i \<noteq> [] \<Longrightarrow> accepted_args args \<Longrightarrow> sandbox_free args (nd_state n) \<Longrightarrow>
    node_step J n ((logged J out (intent_entry now i args) n)\<lparr>nd_state := s'\<rparr>)"
| commit: "gm_get (ag_inflight (nd_state n)) r = Some c \<Longrightarrow> \<not> fl_committed c \<Longrightarrow> nd_tail n = [] \<Longrightarrow>
    fitting_result (fl_id c) (fl_args c) (nd_state n) result \<Longrightarrow>
    fitting_result (fl_id c) (fl_args c) (committed (nd_calls n)) result \<Longrightarrow>
    e = result_entry now (fl_id c) (fl_args c) result \<Longrightarrow> line_end \<notin> set (jc_Marshal J e) \<Longrightarrow>
    commit_run J out now (fl_id c) (fl_args c) result (nd_state n) = (ok, s') \<Longrightarrow>
    node_step J n ((logged J out e n)\<lparr>nd_state := s',
      nd_calls := (if whole J out e then nd_calls n @ [(fl_id c, fl_args c, result)] else nd_calls n),
      nd_lost := (if whole J out e then nd_lost n else r # nd_lost n)\<rparr>)"
| return: "node_step J n (n\<lparr>nd_state := finish_run r (nd_state n)\<rparr>)"
| remember: "sandbox_lease sandboxID (nd_state n) = Some l \<Longrightarrow> le_PodUID l = id_PodUID i \<Longrightarrow> \<not> sandbox_locked sandboxID (nd_state n) \<Longrightarrow>
    rememberCompleted i OpLeaseDevices l (nd_state n) = (ok, s') \<Longrightarrow>
    node_step J n (n\<lparr>nd_state := s', nd_remembered := id_RequestID i # nd_remembered n\<rparr>)"
| restart: "recover_state J (ag_file (nd_state n) @ torn) = Some s' \<Longrightarrow> line_end \<notin> set torn \<Longrightarrow>
    nd_tail n @ torn = [] \<or> nd_log n \<noteq> [] \<Longrightarrow>
    node_step J n (n\<lparr>nd_state := s', nd_tail := [], nd_lost := [], nd_remembered := [], nd_intact := nd_intact n \<and> nd_lost n = []\<rparr>)"

inductive node_run :: "json_codec \<Rightarrow> node \<Rightarrow> bool" for J where
  fresh: "node_run J fresh_node"
| further: "node_run J n \<Longrightarrow> node_step J n n' \<Longrightarrow> node_run J n'"

section \<open>The tables\<close>

definition lease_count :: "string \<Rightarrow> agent_state \<Rightarrow> int" where
  "lease_count img s = int (length (filter (\<lambda>l. le_Image l = img) (gm_vals (ag_leases s))))"

definition counts_ok :: "agent_state \<Rightarrow> bool" where
  "counts_ok s \<longleftrightarrow> gm_wf (ag_leases s) \<and> (\<forall>k l. gm_get (ag_leases s) k = Some l \<longrightarrow> le_LeaseID l = k) \<and>
     (\<forall>img. ir_leaseCount (image_entry img s) = lease_count img s \<and> 0 \<le> ir_pinCount (image_entry img s))"

definition index_ok :: "agent_state \<Rightarrow> bool" where
  "index_ok s \<longleftrightarrow>
     (\<forall>k l. gm_get (ag_leases s) k = Some l \<longrightarrow> gm_get (ag_bySandbox s) (le_SandboxID l) = Some k) \<and>
     (\<forall>b k. gm_get (ag_bySandbox s) b = Some k \<longrightarrow> (\<exists>l. gm_get (ag_leases s) k = Some l \<and> le_SandboxID l = b))"

lemma gm_put_fresh: "gm_get m k = None \<Longrightarrow> gm_put k v m = m @ [(k, v)]"
  unfolding gm_get_def gm_put_def by (induction m) (auto split: if_splits)

lemma gm_del_mset: "gm_wf m \<Longrightarrow> gm_get m k = Some v \<Longrightarrow> mset m = add_mset (k, v) (mset (gm_del k m))"
proof (induction m)
  case (Cons p m)
  obtain a b where p: "p = (a, b)" by (cases p)
  show ?case
  proof (cases "a = k")
    case True
    then have "gm_del k m = m" using Cons(2) p by (simp add: gm_del_def delete_id)
    then show ?thesis using True Cons(3) p by (simp add: gm_del_def)
  next
    case False
    then show ?thesis using Cons p by (simp add: gm_del_def)
  qed
qed simp

lemma image_entry_put [simp]:
  "image_entry img (s\<lparr>ag_images := gm_put k refs (ag_images s)\<rparr>) = (if img = k then refs else image_entry img s)"
  by (simp add: image_entry_def)

lemma image_entry_cong: "ag_images s = ag_images t \<Longrightarrow> image_entry img s = image_entry img t"
  by (simp add: image_entry_def)

lemma image_entry_add_pin: "image_entry img (add_pin k s) =
    (if img = k then image_entry k s\<lparr>ir_pinCount := ir_pinCount (image_entry k s) + 1\<rparr> else image_entry img s)"
  by (simp add: add_pin_def)

lemma image_entry_drop_pin: "image_entry img (drop_pin k s) =
    (if img = k then image_entry k s\<lparr>ir_pinCount := max 0 (ir_pinCount (image_entry k s) - 1)\<rparr> else image_entry img s)"
  by (auto simp: drop_pin_def image_entry_def no_refs_def split: option.splits)

lemma image_entry_add_lease: "image_entry img (add_lease l s) =
    (if img = le_Image l then image_entry img s\<lparr>ir_leaseCount := ir_leaseCount (image_entry img s) + 1\<rparr> else image_entry img s)"
  by (simp add: add_lease_def image_entry_def)

lemma image_entry_drop_lease:
  assumes "gm_get (ag_leases s) k = Some l" "ir_leaseCount (image_entry (le_Image l) s) > 0"
  shows "image_entry img (drop_lease stop k s) = (if img = le_Image l
    then image_entry img s\<lparr>ir_leaseCount := stop (ir_leaseCount (image_entry img s) - 1)\<rparr> else image_entry img s)"
  using assms by (auto simp: drop_lease_def image_entry_def no_refs_def split: option.splits)

lemma lease_count_positive:
  assumes "counts_ok s" "gm_get (ag_leases s) k = Some l"
  shows "0 < ir_leaseCount (image_entry (le_Image l) s)"
proof -
  have "l \<in> set (filter (\<lambda>x. le_Image x = le_Image l) (gm_vals (ag_leases s)))"
    using gm_get_in_set[OF assms(2)] by (force simp: gm_vals_def)
  then have "0 < lease_count (le_Image l) s" unfolding lease_count_def by (metis length_pos_if_in_set of_nat_0_less_iff)
  then show ?thesis using assms(1) by (simp add: counts_ok_def)
qed

lemma lease_count_add_lease:
  assumes "gm_get (ag_leases s) (le_LeaseID l) = None"
  shows "lease_count img (add_lease l s) = lease_count img s + (if le_Image l = img then 1 else 0)"
  using assms by (simp add: lease_count_def add_lease_def gm_put_fresh gm_vals_def)

lemma lease_count_drop_lease:
  assumes "gm_wf (ag_leases s)" "gm_get (ag_leases s) k = Some l"
  shows "lease_count img s = lease_count img (drop_lease stop k s) + (if le_Image l = img then 1 else 0)"
proof -
  have count: "lease_count img t = int (size (filter_mset (\<lambda>p. le_Image (snd p) = img) (mset (ag_leases t))))" for t
    unfolding lease_count_def gm_vals_def by (simp add: filter_map comp_def flip: size_mset mset_filter)
  have "ag_leases (drop_lease stop k s) = gm_del k (ag_leases s)" using assms(2) by (simp add: drop_lease_def)
  then show ?thesis unfolding count using gm_del_mset[OF assms] by simp
qed

text \<open>Every effect of a call keeps the counts right, and the index by Sandbox when the Sandbox has no lease.\<close>

lemma counts_ok_images:
  assumes "counts_ok s" "ag_leases t = ag_leases s"
    and "\<And>img. ir_leaseCount (image_entry img t) = ir_leaseCount (image_entry img s) \<and> 0 \<le> ir_pinCount (image_entry img t)"
  shows "counts_ok t"
  using assms by (simp add: counts_ok_def lease_count_def)

lemma index_okD:
  assumes "index_ok s"
  shows "gm_get (ag_leases s) k = Some l \<Longrightarrow> gm_get (ag_bySandbox s) (le_SandboxID l) = Some k"
    and "gm_get (ag_bySandbox s) b = Some k \<Longrightarrow> \<exists>l. gm_get (ag_leases s) k = Some l \<and> le_SandboxID l = b"
  using assms by (simp_all add: index_ok_def)

lemma pin_frame [simp]:
  "ag_leases (drop_pin k s) = ag_leases s" "ag_bySandbox (drop_pin k s) = ag_bySandbox s"
  "ag_leases (add_pin k s) = ag_leases s" "ag_bySandbox (add_pin k s) = ag_bySandbox s"
  by (simp_all add: drop_pin_def add_pin_def split: option.splits)

lemma counts_ok_add_lease:
  assumes ok: "counts_ok s" and "gm_get (ag_leases s) (le_LeaseID l) = None"
  shows "counts_ok (add_lease l s)"
proof -
  have "\<forall>img. ir_leaseCount (image_entry img (add_lease l s)) = lease_count img (add_lease l s) \<and>
      0 \<le> ir_pinCount (image_entry img (add_lease l s))"
    using ok by (auto simp: image_entry_add_lease lease_count_add_lease[OF assms(2)] counts_ok_def)
  moreover have "gm_wf (ag_leases (add_lease l s))" using ok by (simp add: add_lease_def counts_ok_def)
  moreover have "\<forall>k m. gm_get (ag_leases (add_lease l s)) k = Some m \<longrightarrow> le_LeaseID m = k"
    using ok by (auto simp: add_lease_def counts_ok_def)
  ultimately show ?thesis unfolding counts_ok_def by blast
qed

lemma index_ok_add_lease:
  assumes ok: "index_ok s" and "gm_get (ag_leases s) (le_LeaseID l) = None" "gm_get (ag_bySandbox s) (le_SandboxID l) = None"
  shows "index_ok (add_lease l s)"
proof -
  have "\<forall>k m. gm_get (ag_leases (add_lease l s)) k = Some m \<longrightarrow> gm_get (ag_bySandbox (add_lease l s)) (le_SandboxID m) = Some k"
  proof (intro allI impI)
    fix k m
    assume k: "gm_get (ag_leases (add_lease l s)) k = Some m"
    show "gm_get (ag_bySandbox (add_lease l s)) (le_SandboxID m) = Some k"
      using k index_okD(1)[OF ok, of k m] assms(3) by (auto simp: add_lease_def split: if_splits)
  qed
  moreover have "\<forall>b k. gm_get (ag_bySandbox (add_lease l s)) b = Some k \<longrightarrow>
      (\<exists>m. gm_get (ag_leases (add_lease l s)) k = Some m \<and> le_SandboxID m = b)"
  proof (intro allI impI)
    fix b k
    assume b: "gm_get (ag_bySandbox (add_lease l s)) b = Some k"
    show "\<exists>m. gm_get (ag_leases (add_lease l s)) k = Some m \<and> le_SandboxID m = b"
      using b index_okD(2)[OF ok, of b k] assms(2) by (auto simp: add_lease_def split: if_splits)
  qed
  ultimately show ?thesis unfolding index_ok_def by blast
qed

lemma counts_ok_drop_lease:
  assumes ok: "counts_ok s"
  shows "counts_ok (drop_lease (max 0) k s)"
proof (cases "gm_get (ag_leases s) k")
  case None
  then show ?thesis using ok by (simp add: drop_lease_def)
next
  case (Some l)
  let ?t = "drop_lease (max 0) k s"
  note pos = lease_count_positive[OF ok Some]
  have wf: "gm_wf (ag_leases s)" using ok by (simp add: counts_ok_def)
  have tabs: "ag_leases ?t = gm_del k (ag_leases s)" using Some by (simp add: drop_lease_def)
  have "\<forall>img. ir_leaseCount (image_entry img ?t) = lease_count img ?t \<and> 0 \<le> ir_pinCount (image_entry img ?t)"
  proof
    fix img
    show "ir_leaseCount (image_entry img ?t) = lease_count img ?t \<and> 0 \<le> ir_pinCount (image_entry img ?t)"
      using ok pos lease_count_drop_lease[OF wf Some, of img "max 0"]
      by (auto simp: image_entry_drop_lease[OF Some pos] counts_ok_def)
  qed
  moreover have "\<forall>j m. gm_get (ag_leases ?t) j = Some m \<longrightarrow> le_LeaseID m = j"
    using ok unfolding tabs counts_ok_def by auto
  ultimately show ?thesis using wf unfolding counts_ok_def tabs by simp
qed

lemma index_ok_drop_lease:
  assumes ok: "index_ok s"
  shows "index_ok (drop_lease (max 0) k s)"
proof (cases "gm_get (ag_leases s) k")
  case None
  then show ?thesis using ok by (simp add: drop_lease_def)
next
  case (Some l)
  let ?t = "drop_lease (max 0) k s"
  have tabs: "ag_leases ?t = gm_del k (ag_leases s)" "ag_bySandbox ?t = gm_del (le_SandboxID l) (ag_bySandbox s)"
    using Some by (simp_all add: drop_lease_def)
  have "\<forall>j m. gm_get (ag_leases ?t) j = Some m \<longrightarrow> gm_get (ag_bySandbox ?t) (le_SandboxID m) = Some j"
  proof (intro allI impI)
    fix j m
    assume "gm_get (ag_leases ?t) j = Some m"
    then have j: "j \<noteq> k" "gm_get (ag_leases s) j = Some m" unfolding tabs by (auto split: if_splits)
    show "gm_get (ag_bySandbox ?t) (le_SandboxID m) = Some j"
      unfolding tabs using index_okD(1)[OF ok j(2)] index_okD(1)[OF ok Some] j(1) by auto
  qed
  moreover have "\<forall>b j. gm_get (ag_bySandbox ?t) b = Some j \<longrightarrow> (\<exists>m. gm_get (ag_leases ?t) j = Some m \<and> le_SandboxID m = b)"
  proof (intro allI impI)
    fix b j
    assume "gm_get (ag_bySandbox ?t) b = Some j"
    then have b: "b \<noteq> le_SandboxID l" "gm_get (ag_bySandbox s) b = Some j" unfolding tabs by (auto split: if_splits)
    obtain m where m: "gm_get (ag_leases s) j = Some m" "le_SandboxID m = b" using index_okD(2)[OF ok b(2)] by blast
    then have "j \<noteq> k" using b(1) Some by auto
    then show "\<exists>m. gm_get (ag_leases ?t) j = Some m \<and> le_SandboxID m = b" unfolding tabs using m by simp
  qed
  ultimately show ?thesis unfolding index_ok_def by blast
qed

lemma counts_ok_apply:
  assumes "counts_ok s" "fitting_result i args s result"
  shows "counts_ok (apply_result args result s)"
proof (cases args)
  case (PinImageArgs k)
  show ?thesis unfolding PinImageArgs apply_result.simps
    by (rule counts_ok_images[OF assms(1)]) (use assms(1) in \<open>auto simp: image_entry_add_pin counts_ok_def\<close>)
next
  case (UnpinImageArgs k)
  show ?thesis unfolding UnpinImageArgs apply_result.simps
    by (rule counts_ok_images[OF assms(1)]) (use assms(1) in \<open>auto simp: image_entry_drop_pin counts_ok_def\<close>)
next
  case (LeaseDevicesArgs b k m w)
  then show ?thesis using assms by (auto simp: service_lease_def intro!: counts_ok_add_lease)
next
  case (ReleaseDevicesArgs k)
  then show ?thesis using counts_ok_drop_lease[OF assms(1)] by simp
qed

lemma index_ok_apply:
  assumes "index_ok s" "fitting_result i args s result"
    and "\<And>b. args_sandbox args = Some b \<Longrightarrow> gm_get (ag_bySandbox s) b = None"
  shows "index_ok (apply_result args result s)"
proof (cases args)
  case (LeaseDevicesArgs b k m w)
  then show ?thesis using assms by (auto simp: service_lease_def intro!: index_ok_add_lease)
next
  case (ReleaseDevicesArgs k)
  then show ?thesis using index_ok_drop_lease[OF assms(1)] by simp
qed (use assms(1) in \<open>simp_all add: index_ok_def\<close>)

section \<open>Replaying\<close>

definition same_tables :: "agent_state \<Rightarrow> agent_state \<Rightarrow> bool" where
  "same_tables s d \<longleftrightarrow> ag_leases d = ag_leases s \<and> ag_bySandbox d = ag_bySandbox s \<and>
     (\<forall>img. image_entry img d = image_entry img s)"

definition same_outcomes :: "string list \<Rightarrow> agent_state \<Rightarrow> agent_state \<Rightarrow> bool" where
  "same_outcomes remembered s d \<longleftrightarrow>
     (\<forall>r. r \<notin> set remembered \<longrightarrow> gm_get (ag_completed d) r = gm_get (ag_completed s) r)"

lemma same_add_lease: "same_tables s d \<Longrightarrow> same_tables (add_lease l s) (add_lease l d)"
  by (simp add: same_tables_def image_entry_add_lease) (simp add: add_lease_def)

lemma same_drop_lease:
  assumes same: "same_tables s d" and ok: "counts_ok s" and stop: "\<And>n. 0 \<le> n \<Longrightarrow> stop n = n"
  shows "same_tables (drop_lease (max 0) k s) (drop_lease stop k d)"
proof (cases "gm_get (ag_leases s) k")
  case None
  then show ?thesis using same by (simp add: drop_lease_def same_tables_def)
next
  case (Some l)
  have d: "gm_get (ag_leases d) k = Some l" using Some same by (simp add: same_tables_def)
  have eq: "image_entry img d = image_entry img s" for img using same by (simp add: same_tables_def)
  note pos = lease_count_positive[OF ok Some]
  have "image_entry img (drop_lease stop k d) = image_entry img (drop_lease (max 0) k s)" for img
    using pos stop unfolding image_entry_drop_lease[OF Some pos] image_entry_drop_lease[OF d, unfolded eq, OF pos] by simp
  moreover have "ag_leases (drop_lease f k u) = gm_del k (ag_leases u)" "ag_bySandbox (drop_lease f k u) = gm_del (le_SandboxID l) (ag_bySandbox u)"
    if "u = s \<or> u = d" for f u using that Some d by (auto simp: drop_lease_def)
  ultimately show ?thesis using same by (simp add: same_tables_def)
qed

lemma same_bump_pin:
  assumes "same_tables s d" "counts_ok s" "k \<noteq> []"
  shows "\<exists>d'. bumpPin k 1 d = Some d' \<and> same_tables (add_pin k s) d' \<and> ag_completed d' = ag_completed d"
    and "\<exists>d'. bumpPin k (- 1) d = Some d' \<and> same_tables (drop_pin k s) d' \<and> ag_completed d' = ag_completed d"
proof -
  have pin: "0 \<le> ir_pinCount (image_entry k s)" using assms(2) by (simp add: counts_ok_def)
  show "\<exists>d'. bumpPin k 1 d = Some d' \<and> same_tables (add_pin k s) d' \<and> ag_completed d' = ag_completed d"
    using assms(1,3) pin by (simp add: bumpPin_def same_tables_def image_entry_add_pin)
  show "\<exists>d'. bumpPin k (- 1) d = Some d' \<and> same_tables (drop_pin k s) d' \<and> ag_completed d' = ag_completed d"
    using assms(1,3) by (simp add: bumpPin_def same_tables_def image_entry_drop_pin)
qed

lemma same_apply:
  assumes "same_tables s d" "counts_ok s"
  shows "same_tables (apply_result args result s) (apply_result args result d)"
proof (cases args)
  case (PinImageArgs k)
  then show ?thesis using assms(1) by (simp add: same_tables_def image_entry_add_pin)
next
  case (UnpinImageArgs k)
  then show ?thesis using assms(1) by (simp add: same_tables_def image_entry_drop_pin)
next
  case (LeaseDevicesArgs b k m w)
  then show ?thesis using same_add_lease[OF assms(1)] by simp
next
  case (ReleaseDevicesArgs k)
  then show ?thesis using same_drop_lease[OF assms, of "max 0"] by simp
qed

lemma effect_frame [simp]:
  "ag_completed (apply_result args result s) = ag_completed s" "ag_inflight (apply_result args result s) = ag_inflight s"
  "ag_file (apply_result args result s) = ag_file s"
  by (cases args; simp add: add_pin_def drop_pin_def add_lease_def drop_lease_def split: option.splits)+

lemma drop_lease_completed [simp]: "ag_completed (drop_lease stop k s) = ag_completed s"
  by (simp add: drop_lease_def split: option.splits)

lemma add_lease_completed [simp]: "ag_completed (add_lease l s) = ag_completed s"
  by (simp add: add_lease_def)

lemma same_tables_frame [simp]:
  "same_tables (s\<lparr>ag_completed := x\<rparr>) d = same_tables s d" "same_tables s (d\<lparr>ag_completed := x\<rparr>) = same_tables s d"
  "same_tables (s\<lparr>ag_file := f\<rparr>) d = same_tables s d" "same_tables (s\<lparr>ag_inflight := y\<rparr>) d = same_tables s d"
  "same_tables s (d\<lparr>ag_file := f\<rparr>) = same_tables s d"
  by (simp_all add: same_tables_def image_entry_def)

text \<open>Replaying the pair of entries of a call does to the recovered state what the call did.\<close>

lemma replay_matches:
  assumes same: "same_tables s d" and ok: "counts_ok s" and fit: "fitting_result i args s result" and acc: "accepted_args args"
  shows "\<exists>d'. replayApply (intent_entry now i args) result d = Some d' \<and> same_tables (apply_result args result s) d' \<and>
    ag_completed d' = gm_put (id_RequestID i) (outcome_of i args result) (ag_completed d)"
proof (cases args)
  case (PinImageArgs k)
  then obtain digest where r: "result = PinImageResult digest" using fit by auto
  show ?thesis using same_bump_pin(1)[OF same ok, of k] acc PinImageArgs
    by (auto simp: replayApply_def intent_entry_def complete_def outcome_of_def set_result_def r)
next
  case (UnpinImageArgs k)
  then show ?thesis using same_bump_pin(2)[OF same ok, of k] acc fit
    by (auto simp: replayApply_def intent_entry_def complete_def outcome_of_def set_result_def)
next
  case (LeaseDevicesArgs b k m w)
  then obtain l where r: "result = LeaseResult l" using fit by auto
  show ?thesis using same_add_lease[OF same, of l] LeaseDevicesArgs
    by (simp add: replayApply_def intent_entry_def complete_def outcome_of_def set_result_def r)
next
  case (ReleaseDevicesArgs k)
  then show ?thesis using same_drop_lease[OF same ok, of "\<lambda>n. n" k] fit
    by (simp add: replayApply_def intent_entry_def complete_def outcome_of_def set_result_def)
qed

lemma same_counts_ok: "same_tables s d \<Longrightarrow> counts_ok s \<Longrightarrow> counts_ok d"
  by (simp add: same_tables_def counts_ok_def lease_count_def)

lemma same_index_ok: "same_tables s d \<Longrightarrow> index_ok s \<Longrightarrow> index_ok d"
  by (simp add: same_tables_def index_ok_def)

lemma committed_snoc:
  "committed (calls @ [(i, args, result)]) = (apply_result args result (committed calls))
     \<lparr>ag_completed := gm_put (id_RequestID i) (outcome_of i args result) (ag_completed (committed calls))\<rparr>"
  by (simp add: committed_def commit_call_def)

text \<open>Recovery looks neither at the file nor at calls in flight.\<close>

lemma replayApply_file: "replayApply intent result (s\<lparr>ag_file := f\<rparr>) = map_option (\<lambda>s. s\<lparr>ag_file := f\<rparr>) (replayApply intent result s)"
  by (cases "je_Op intent"; cases "je_Args intent")
    (simp_all add: replayApply_def bumpPin_def complete_def add_lease_def drop_lease_def image_entry_def split: option.splits)

lemma replayApply_inflight: "replayApply intent result s = Some s' \<Longrightarrow> ag_inflight s' = ag_inflight s"
  by (cases "je_Op intent"; cases "je_Args intent")
    (auto simp: replayApply_def bumpPin_def complete_def add_lease_def drop_lease_def split: option.splits if_splits)

lemma visit_entries_file:
  "visit_entries recover_entry es (is, s\<lparr>ag_file := f\<rparr>) =
     map_option (\<lambda>(is, s). (is, s\<lparr>ag_file := f\<rparr>)) (visit_entries recover_entry es (is, s))"
proof (induction es arbitrary: "is" s)
  case (Cons e es)
  have "recover_entry e (is, s\<lparr>ag_file := f\<rparr>) = map_option (\<lambda>(is, s). (is, s\<lparr>ag_file := f\<rparr>)) (recover_entry e (is, s))"
    by (simp add: recover_entry_def replayApply_file option.map_comp comp_def split: option.splits)
  then show ?case by (cases "recover_entry e (is, s)") (auto simp: Cons split: prod.splits)
qed simp

lemma visit_entries_inflight:
  "visit_entries recover_entry es r = Some r' \<Longrightarrow> ag_inflight (snd r') = ag_inflight (snd r)"
proof (induction es arbitrary: r)
  case (Cons e es)
  then obtain q where q: "recover_entry e r = Some q" "visit_entries recover_entry es q = Some r'" by (auto split: option.splits)
  have "ag_inflight (snd q) = ag_inflight (snd r)"
    using q(1) by (auto simp: recover_entry_def dest: replayApply_inflight split: option.splits if_splits)
  then show ?case using Cons(1)[OF q(2)] by simp
qed simp

definition replayed :: "journal_entry list \<Rightarrow> recovery option" where
  "replayed es = visit_entries recover_entry es ([], empty_state [])"

lemma replayed_snoc: "replayed es = Some r \<Longrightarrow> replayed (es @ [e]) = recover_entry e r"
  by (simp add: replayed_def visit_entries_append split: option.splits)

text \<open>What a start finds in a file of whole lines with a torn tail.\<close>

lemma recover_state_file:
  assumes "\<forall>e \<in> set es. survives J e" "line_end \<notin> set torn" "replayed es = Some (is, d)"
  shows "\<exists>f. recover_state J (journal_file J es @ torn) = Some (d\<lparr>ag_file := f\<rparr>) \<and>
    (torn = [] \<or> es \<noteq> [] \<longrightarrow> f = journal_file J es) \<and> (es = [] \<longrightarrow> f = torn)"
proof -
  let ?f = "journal_file J es @ torn"
  have "empty_state ?f = empty_state []\<lparr>ag_file := ?f\<rparr>" by (simp add: empty_state_def)
  then have "visit_entries recover_entry es ([], empty_state ?f) = Some (is, d\<lparr>ag_file := ?f\<rparr>)"
    using assms(3) by (simp add: visit_entries_file replayed_def)
  then have "journal_replay J recover_entry ?f ([], empty_state ?f) =
      Some (if torn = [] then 0 else length (journal_file J es), is, d\<lparr>ag_file := ?f\<rparr>)"
    by (simp add: journal_replay_file[OF assms(1,2)])
  then show ?thesis using journal_file_last[of es J]
    by (cases "torn = []"; cases "es = []") (simp_all add: recover_state_def journal_truncate_def)
qed

section \<open>The invariant of runs\<close>

definition pending_ok :: "(string, journal_entry) gomap \<Rightarrow> agent_state \<Rightarrow> bool" where
  "pending_ok is s \<longleftrightarrow> (\<forall>r c. gm_get (ag_inflight s) r = Some c \<longrightarrow> id_RequestID (fl_id c) = r \<and> accepted_args (fl_args c) \<and>
     (\<not> fl_committed c \<longrightarrow> (\<exists>now. gm_get is r = Some (intent_entry now (fl_id c) (fl_args c))) \<and>
        (\<forall>b. args_sandbox (fl_args c) = Some b \<longrightarrow> gm_get (ag_bySandbox s) b = None)))"

definition locks_ok :: "agent_state \<Rightarrow> bool" where
  "locks_ok s \<longleftrightarrow> (\<forall>r r' c c' b. gm_get (ag_inflight s) r = Some c \<and> gm_get (ag_inflight s) r' = Some c' \<and>
     args_sandbox (fl_args c) = Some b \<and> args_sandbox (fl_args c') = Some b \<longrightarrow> r = r')"

text \<open>What the file promises: the entries replay to what the committed calls give.\<close>

definition file_ok :: "json_codec \<Rightarrow> node \<Rightarrow> bool" where
  "file_ok J n \<longleftrightarrow> ag_file (nd_state n) = journal_file J (nd_log n) @ nd_tail n \<and> line_end \<notin> set (nd_tail n) \<and>
     counts_ok (committed (nd_calls n)) \<and>
     (\<exists>is d. replayed (nd_log n) = Some (is, d) \<and> same_tables (committed (nd_calls n)) d \<and>
        ag_completed d = ag_completed (committed (nd_calls n)) \<and> pending_ok is (nd_state n))"

definition memory_ok :: "node \<Rightarrow> bool" where
  "memory_ok n \<longleftrightarrow> counts_ok (nd_state n) \<and> (nd_intact n \<longrightarrow> index_ok (nd_state n)) \<and> locks_ok (nd_state n) \<and>
     (nd_lost n = [] \<longrightarrow> same_tables (nd_state n) (committed (nd_calls n)) \<and>
        same_outcomes (nd_remembered n) (nd_state n) (committed (nd_calls n)))"

definition node_ok :: "json_codec \<Rightarrow> node \<Rightarrow> bool" where
  "node_ok J n \<longleftrightarrow> file_ok J n \<and> memory_ok n"

lemma empty_state_ok: "counts_ok (empty_state f)" "index_ok (empty_state f)" "locks_ok (empty_state f)" "pending_ok is (empty_state f)"
  by (simp_all add: counts_ok_def index_ok_def locks_ok_def pending_ok_def lease_count_def empty_state_def image_entry_def no_refs_def gm_vals_def)

lemma node_ok_fresh: "node_ok J fresh_node"
  by (simp add: node_ok_def file_ok_def memory_ok_def fresh_node_def committed_def replayed_def empty_state_ok)
    (simp add: same_tables_def same_outcomes_def empty_state_def)

text \<open>What \<^verbatim>\<open>append\<close> does to the file, in the terms of a node.\<close>

lemma append_whole: "whole J out e \<Longrightarrow> snd (journal_append J out e f) = f @ journal_line J e"
  by (auto simp: whole_def journal_append_def split: append_outcome.splits)

lemma append_torn:
  assumes "\<not> whole J out e" "line_end \<notin> set (jc_Marshal J e)"
  shows "\<not> fst (journal_append J out e f)" "snd (journal_append J out e f) = f @ snd (journal_append J out e [])"
    "line_end \<notin> set (snd (journal_append J out e []))"
  using assms by (auto simp: whole_def journal_append_def journal_line_def dest: in_set_takeD split: append_outcome.splits)

lemma logged_simps [simp]:
  "nd_state (logged J out e n) = nd_state n" "nd_calls (logged J out e n) = nd_calls n" "nd_lost (logged J out e n) = nd_lost n"
  "nd_remembered (logged J out e n) = nd_remembered n" "nd_intact (logged J out e n) = nd_intact n"
  by (simp_all add: logged_def)

lemma logged_file:
  assumes "file_ok J n" "nd_tail n = []" "line_end \<notin> set (jc_Marshal J e)"
  shows "snd (journal_append J out e (ag_file (nd_state n))) = journal_file J (nd_log (logged J out e n)) @ nd_tail (logged J out e n)"
    "line_end \<notin> set (nd_tail (logged J out e n))"
proof -
  let ?f = "ag_file (nd_state n)"
  have f: "?f = journal_file J (nd_log n)" using assms(1,2) by (simp add: file_ok_def)
  show "snd (journal_append J out e ?f) = journal_file J (nd_log (logged J out e n)) @ nd_tail (logged J out e n)"
    using append_whole[of J out e ?f] append_torn(2)[OF _ assms(3), of out ?f] assms(2)
    by (cases "whole J out e") (simp_all add: logged_def f)
  show "line_end \<notin> set (nd_tail (logged J out e n))"
    using append_torn(3)[OF _ assms(3), of out] assms(2) by (cases "whole J out e") (simp_all add: logged_def)
qed

lemma ok_frame [simp]:
  "counts_ok (s\<lparr>ag_completed := x\<rparr>) = counts_ok s" "counts_ok (s\<lparr>ag_file := f\<rparr>) = counts_ok s" "counts_ok (s\<lparr>ag_inflight := y\<rparr>) = counts_ok s"
  "index_ok (s\<lparr>ag_completed := x\<rparr>) = index_ok s" "index_ok (s\<lparr>ag_file := f\<rparr>) = index_ok s" "index_ok (s\<lparr>ag_inflight := y\<rparr>) = index_ok s"
  by (simp_all add: counts_ok_def index_ok_def lease_count_def image_entry_def)

lemma recover_intent: "id_RequestID i \<noteq> [] \<Longrightarrow>
    recover_entry (intent_entry now i args) (is, d) = Some (gm_put (id_RequestID i) (intent_entry now i args) is, d)"
  by (simp add: recover_entry_def intent_entry_def)

text \<open>The call is not known: its intent is written, and it starts when the write worked.\<close>

lemma begin_run_cases:
  assumes "begin_run J out now i args s = (r, s')"
  obtains "s' = s" "r \<noteq> RunStarted" "r \<noteq> RunJournalError"
  | "gm_get (ag_inflight s) (id_RequestID i) = None" "r = RunJournalError"
      "s' = s\<lparr>ag_file := snd (journal_append J out (intent_entry now i args) (ag_file s))\<rparr>"
  | "gm_get (ag_inflight s) (id_RequestID i) = None" "r = RunStarted" "fst (journal_append J out (intent_entry now i args) (ag_file s))"
      "s' = s\<lparr>ag_file := snd (journal_append J out (intent_entry now i args) (ag_file s)),
        ag_inflight := gm_put (id_RequestID i) \<lparr>fl_id = i, fl_args = args, fl_committed = False\<rparr> (ag_inflight s)\<rparr>"
proof (cases "gm_get (ag_completed s) (id_RequestID i)")
  case (Some c)
  then show ?thesis using assms that(1) by (auto simp: begin_run_def split: if_splits)
next
  case None
  show ?thesis
  proof (cases "gm_get (ag_inflight s) (id_RequestID i)")
    case (Some c)
    then show ?thesis using assms None that(1) by (simp add: begin_run_def)
  next
    case fresh: None
    obtain ok f where a: "journal_append J out (intent_entry now i args) (ag_file s) = (ok, f)" by (metis prod.collapse)
    show ?thesis
    proof (cases ok)
      case True
      then show ?thesis using assms None fresh that(3) a by (simp add: begin_run_def)
    next
      case False
      then show ?thesis using assms None fresh that(2) a by (simp add: begin_run_def)
    qed
  qed
qed

lemma node_ok_start:
  assumes run: "begin_run J out now i args (nd_state n) = (r, s')" "r = RunStarted \<or> r = RunJournalError" and tail: "nd_tail n = []"
    and bytes: "line_end \<notin> set (jc_Marshal J (intent_entry now i args))" and rid: "id_RequestID i \<noteq> []"
    and acc: "accepted_args args" and free: "sandbox_free args (nd_state n)" and ok: "node_ok J n"
  shows "node_ok J ((logged J out (intent_entry now i args) n)\<lparr>nd_state := s'\<rparr>)"
proof -
  let ?s = "nd_state n" and ?e = "intent_entry now i args"
  obtain intents d where rec: "replayed (nd_log n) = Some (intents, d)" "same_tables (committed (nd_calls n)) d"
      "ag_completed d = ag_completed (committed (nd_calls n))" "pending_ok intents ?s" and counts: "counts_ok (committed (nd_calls n))"
    and mem: "memory_ok n" and f: "file_ok J n" using ok by (auto simp: node_ok_def file_ok_def)
  have log: "replayed (nd_log n @ [?e]) = Some (gm_put (id_RequestID i) ?e intents, d)"
    using replayed_snoc[OF rec(1), of ?e] recover_intent[OF rid] by simp
  have s': "ag_file s' = snd (journal_append J out ?e (ag_file ?s))" "ag_leases s' = ag_leases ?s" "ag_bySandbox s' = ag_bySandbox ?s"
      "ag_images s' = ag_images ?s" "ag_completed s' = ag_completed ?s"
    using run by (auto elim!: begin_run_cases)
  have free_id: "gm_get (ag_inflight ?s) (id_RequestID i) = None" using run by (auto elim!: begin_run_cases)
  have pend: "pending_ok (gm_put (id_RequestID i) ?e intents) s'"
    by (rule begin_run_cases[OF run(1)]) (use rec(4) acc free run(2) in \<open>auto simp: pending_ok_def sandbox_free_def split: if_splits\<close>)
  have "\<exists>is d. replayed (nd_log (logged J out ?e n)) = Some (is, d) \<and> same_tables (committed (nd_calls n)) d \<and>
      ag_completed d = ag_completed (committed (nd_calls n)) \<and> pending_ok is s'"
  proof (cases "whole J out ?e")
    case True
    then show ?thesis using log rec(2,3) pend by (simp add: logged_def)
  next
    case False
    then have "s' = ?s\<lparr>ag_file := snd (journal_append J out ?e (ag_file ?s))\<rparr>"
      using run append_torn(1)[OF False bytes] by (auto elim!: begin_run_cases)
    then have "pending_ok intents s'" using rec(4) by (simp add: pending_ok_def)
    then show ?thesis using False rec by (simp add: logged_def)
  qed
  moreover have "locks_ok s'"
    by (rule begin_run_cases[OF run(1)])
      (use mem free run(2) in \<open>auto simp: memory_ok_def locks_ok_def sandbox_free_def sandbox_locked_def split: if_splits\<close>)
  moreover have "counts_ok s' = counts_ok ?s" "index_ok s' = index_ok ?s" "same_tables s' x = same_tables ?s x" for x
    using s' by (simp_all add: counts_ok_def index_ok_def lease_count_def image_entry_def same_tables_def)
  ultimately show ?thesis
    using counts mem s' logged_file[OF f tail bytes] by (simp add: node_ok_def file_ok_def memory_ok_def same_outcomes_def)
qed

lemma apply_other_sandbox:
  assumes "fitting_result i args s result" "args_sandbox args \<noteq> Some b" "gm_get (ag_bySandbox s) b = None"
  shows "gm_get (ag_bySandbox (apply_result args result s)) b = None"
  using assms by (cases args) (auto simp: add_lease_def drop_lease_def service_lease_def split: option.splits)

text \<open>The memory after a commit.\<close>

lemma commit_run_state:
  assumes "commit_run J out now i args result s = (ok, s')" "id_RequestID i = r"
  shows "s' = apply_result args result s\<lparr>ag_completed := gm_put r (outcome_of i args result) (ag_completed s),
      ag_file := snd (journal_append J out (result_entry now i args result) (ag_file s)),
      ag_inflight := gm_put r \<lparr>fl_id = i, fl_args = args, fl_committed = True\<rparr> (ag_inflight s)\<rparr>"
  using assms by (auto simp: commit_run_def outcome_of_def Let_def split: prod.splits)

lemma commit_pending:
  assumes pend: "pending_ok intents s" and locks: "locks_ok s" and c: "gm_get (ag_inflight s) r = Some c"
    and fit: "fitting_result (fl_id c) (fl_args c) s result"
    and s': "ag_bySandbox s' = ag_bySandbox (apply_result (fl_args c) result s)"
      "ag_inflight s' = gm_put r \<lparr>fl_id = fl_id c, fl_args = fl_args c, fl_committed = True\<rparr> (ag_inflight s)"
    and later: "\<And>q. q \<noteq> r \<Longrightarrow> gm_get later q = gm_get intents q"
  shows "pending_ok later s'" "locks_ok s'"
proof -
  have "gm_get (ag_bySandbox (apply_result (fl_args c) result s)) b = None"
    if q: "gm_get (ag_inflight s) r' = Some c'" "r' \<noteq> r" "\<not> fl_committed c'" "args_sandbox (fl_args c') = Some b" for r' c' b
  proof (rule apply_other_sandbox[OF fit])
    show "args_sandbox (fl_args c) \<noteq> Some b" using locks c q(1,2,4) unfolding locks_ok_def by blast
    show "gm_get (ag_bySandbox s) b = None" using pend q(1,3,4) unfolding pending_ok_def by blast
  qed
  moreover have "id_RequestID (fl_id c) = r" "accepted_args (fl_args c)" using pend c unfolding pending_ok_def by blast+
  ultimately show "pending_ok later s'" using pend later by (auto simp: pending_ok_def s')
  have "\<exists>c0. gm_get (ag_inflight s) q = Some c0 \<and> fl_args c0 = fl_args x" if "gm_get (ag_inflight s') q = Some x" for q x
    using that c by (auto simp: s' split: if_splits)
  then show "locks_ok s'" using locks unfolding locks_ok_def by metis
qed

lemma node_ok_commit:
  assumes c: "gm_get (ag_inflight (nd_state n)) r = Some c" "\<not> fl_committed c" and tail: "nd_tail n = []"
    and fit: "fitting_result (fl_id c) (fl_args c) (nd_state n) result" "fitting_result (fl_id c) (fl_args c) (committed (nd_calls n)) result"
    and e: "e = result_entry now (fl_id c) (fl_args c) result" "line_end \<notin> set (jc_Marshal J e)"
    and run: "commit_run J out now (fl_id c) (fl_args c) result (nd_state n) = (done', s')" and ok: "node_ok J n"
  shows "node_ok J ((logged J out e n)\<lparr>nd_state := s',
      nd_calls := (if whole J out e then nd_calls n @ [(fl_id c, fl_args c, result)] else nd_calls n),
      nd_lost := (if whole J out e then nd_lost n else r # nd_lost n)\<rparr>)"
proof -
  let ?s = "nd_state n" and ?i = "fl_id c" and ?a = "fl_args c" and ?d = "committed (nd_calls n)"
  obtain intents d where rec: "replayed (nd_log n) = Some (intents, d)" "same_tables ?d d"
      "ag_completed d = ag_completed ?d" "pending_ok intents ?s" and counts: "counts_ok ?d"
    and mem: "counts_ok ?s" "nd_intact n \<Longrightarrow> index_ok ?s" "locks_ok ?s"
      "nd_lost n = [] \<Longrightarrow> same_tables ?s ?d \<and> same_outcomes (nd_remembered n) ?s ?d" and f: "file_ok J n"
    using ok by (auto simp: node_ok_def file_ok_def memory_ok_def)
  have p: "id_RequestID ?i = r" "accepted_args ?a" "\<And>b. args_sandbox ?a = Some b \<Longrightarrow> gm_get (ag_bySandbox ?s) b = None"
    and "\<exists>t. gm_get intents r = Some (intent_entry t ?i ?a)" using rec(4) c unfolding pending_ok_def by blast+
  then obtain t where t: "gm_get intents r = Some (intent_entry t ?i ?a)" by blast
  note s' = commit_run_state[OF run p(1), folded e(1)]
  have memory: "counts_ok s'" "nd_intact n \<Longrightarrow> index_ok s'"
    using counts_ok_apply[OF mem(1) fit(1)] index_ok_apply[OF mem(2) fit(1) p(3)] by (simp_all add: s')
  note pend = commit_pending[OF rec(4) mem(3) c(1) fit(1), of s']
  note bytes = logged_file[OF f tail e(2), of out]
  show ?thesis
  proof (cases "whole J out e")
    case True
    obtain d' where d': "replayApply (intent_entry t ?i ?a) result d = Some d'" "same_tables (apply_result ?a result ?d) d'"
        "ag_completed d' = gm_put r (outcome_of ?i ?a result) (ag_completed ?d)"
      using replay_matches[OF rec(2) counts fit(2) p(2), of t] p(1) rec(3) by metis
    have log: "replayed (nd_log n @ [e]) = Some (gm_del r intents, d')"
      using replayed_snoc[OF rec(1), of e] t d'(1) p(1) by (simp add: recover_entry_def result_entry_def e(1))
    have "pending_ok (gm_del r intents) s'" "locks_ok s'" using pend[of "gm_del r intents"] by (simp_all add: s')
    moreover have "counts_ok (committed (nd_calls n @ [(?i, ?a, result)]))"
      using counts_ok_apply[OF counts fit(2)] by (simp add: committed_snoc)
    moreover have "same_tables s' (committed (nd_calls n @ [(?i, ?a, result)]))" if "nd_lost n = []"
      using same_apply[of ?s ?d ?a result] mem(1,4) that by (simp add: s' committed_snoc)
    moreover have "same_outcomes (nd_remembered n) s' (committed (nd_calls n @ [(?i, ?a, result)]))" if "nd_lost n = []"
      using mem(4) that p(1) by (auto simp: s' committed_snoc same_outcomes_def)
    ultimately show ?thesis
      using True log memory d'(2,3) p(1) bytes by (simp add: node_ok_def file_ok_def memory_ok_def logged_def committed_snoc s')
  next
    case False
    have "pending_ok intents s'" "locks_ok s'" using pend[of intents] by (simp_all add: s')
    then show ?thesis using False rec counts memory bytes by (simp add: node_ok_def file_ok_def memory_ok_def logged_def s')
  qed
qed

lemma node_ok_return: "node_ok J n \<Longrightarrow> node_ok J (n\<lparr>nd_state := finish_run r (nd_state n)\<rparr>)"
  unfolding node_ok_def file_ok_def memory_ok_def finish_run_def
  by (auto simp: pending_ok_def locks_ok_def same_outcomes_def)

lemma node_ok_remember:
  assumes "rememberCompleted i operation l (nd_state n) = (done', s')" "node_ok J n"
  shows "node_ok J (n\<lparr>nd_state := s', nd_remembered := id_RequestID i # nd_remembered n\<rparr>)"
  using assms unfolding node_ok_def file_ok_def memory_ok_def rememberCompleted_def
  by (auto simp: pending_ok_def locks_ok_def same_outcomes_def split: option.splits)

text \<open>A start finds the calls that were committed.\<close>

lemma recover_committed:
  assumes "node_ok J n" "\<forall>e \<in> set (nd_log n). survives J e" "line_end \<notin> set torn"
  obtains intents d f where "recover_state J (ag_file (nd_state n) @ torn) = Some (d\<lparr>ag_file := f\<rparr>)" "replayed (nd_log n) = Some (intents, d)"
    "same_tables (committed (nd_calls n)) d" "ag_completed d = ag_completed (committed (nd_calls n))" "ag_inflight d = []"
    "nd_tail n @ torn = [] \<or> nd_log n \<noteq> [] \<longrightarrow> f = journal_file J (nd_log n)"
proof -
  obtain intents d where rec: "replayed (nd_log n) = Some (intents, d)" "same_tables (committed (nd_calls n)) d"
      "ag_completed d = ag_completed (committed (nd_calls n))"
    and bytes: "ag_file (nd_state n) = journal_file J (nd_log n) @ nd_tail n" "line_end \<notin> set (nd_tail n @ torn)"
    using assms(1,3) by (auto simp: node_ok_def file_ok_def)
  have "ag_inflight d = []" using visit_entries_inflight[of "nd_log n" "([], empty_state [])" "(intents, d)"] rec(1)
    by (simp add: replayed_def empty_state_def)
  then show thesis using that rec recover_state_file[OF assms(2) bytes(2) rec(1)] by (auto simp: bytes(1))
qed

lemma node_ok_restart:
  assumes "recover_state J (ag_file (nd_state n) @ torn) = Some s'" "line_end \<notin> set torn" "nd_tail n @ torn = [] \<or> nd_log n \<noteq> []"
    and ok: "node_ok J n" and "\<forall>e \<in> set (nd_log n). survives J e"
  shows "node_ok J (n\<lparr>nd_state := s', nd_tail := [], nd_lost := [], nd_remembered := [], nd_intact := nd_intact n \<and> nd_lost n = []\<rparr>)"
proof -
  let ?d = "committed (nd_calls n)"
  obtain intents d where d: "s' = d\<lparr>ag_file := journal_file J (nd_log n)\<rparr>" "replayed (nd_log n) = Some (intents, d)"
      "same_tables ?d d" "ag_completed d = ag_completed ?d" "ag_inflight d = []"
    using recover_committed[OF ok assms(5,2)] assms(1,3) by (metis option.inject)
  have counts: "counts_ok ?d" and mem: "memory_ok n" using ok by (simp_all add: node_ok_def file_ok_def)
  have "pending_ok intents s'" "locks_ok s'" using d(5) by (simp_all add: d(1) pending_ok_def locks_ok_def)
  moreover have "counts_ok s'" using same_counts_ok[OF d(3) counts] by (simp add: d(1))
  moreover have "index_ok s'" if "nd_intact n" "nd_lost n = []"
  proof -
    have "same_tables (nd_state n) d" using mem that(2) d(3) by (simp add: memory_ok_def same_tables_def)
    then show ?thesis using same_index_ok mem that(1) by (auto simp: d(1) memory_ok_def)
  qed
  moreover have "same_tables s' ?d" "same_outcomes [] s' ?d"
    using d(3,4) by (simp_all add: d(1) same_tables_def same_outcomes_def image_entry_def)
  ultimately show ?thesis using counts d by (simp add: node_ok_def file_ok_def memory_ok_def)
qed

lemma node_step_log: "node_step J n n' \<Longrightarrow> set (nd_log n) \<subseteq> set (nd_log n')"
  by (induction rule: node_step.induct) (auto simp: logged_def)

lemma node_run_ok: "node_run J n \<Longrightarrow> \<forall>e \<in> set (nd_log n). survives J e \<Longrightarrow> node_ok J n"
proof (induction rule: node_run.induct)
  case (further n n')
  have surv: "\<forall>e \<in> set (nd_log n). survives J e" using node_step_log[OF further(2)] further(4) by blast
  then have ok: "node_ok J n" by (rule further(3))
  from further(2) show ?case
  proof (cases rule: node_step.cases)
    case (answer out now i args r s')
    then have "s' = nd_state n" by (auto elim!: begin_run_cases)
    then show ?thesis using answer(1) ok by simp
  next
    case start
    then show ?thesis using node_ok_start ok by blast
  next
    case commit
    then show ?thesis using node_ok_commit ok by blast
  next
    case return
    then show ?thesis using node_ok_return ok by blast
  next
    case remember
    then show ?thesis using node_ok_remember ok by blast
  next
    case restart
    then show ?thesis using node_ok_restart ok surv by blast
  qed
qed (simp add: node_ok_fresh)

section \<open>A torn first line\<close>

text \<open>A part of a line in a file without a whole line is kept: the length to truncate to is then 0, which
  says that there is nothing to truncate. The next entry is written behind it, and when the line that
  results cannot be decoded, no later start succeeds.\<close>

lemma torn_first_line_kept:
  assumes "line_end \<notin> set torn"
  shows "recover_state J torn = Some (empty_state torn)"
proof -
  have "replayed [] = Some ([], empty_state [])" by (simp add: replayed_def)
  from recover_state_file[of "[]" J torn, OF _ assms this] show ?thesis by (auto simp: empty_state_def)
qed

lemma torn_first_line_fatal:
  assumes "line_end \<notin> set torn" "torn \<noteq> []" "line_end \<notin> set (jc_Marshal J e)" "jc_Unmarshal J (torn @ jc_Marshal J e) = None"
  shows "recover_state J (snd (journal_append J Appended e torn)) = None"
proof -
  let ?l = "torn @ jc_Marshal J e" and ?f = "torn @ jc_Marshal J e @ [line_end]"
  obtain m where m: "length ?f = Suc m" by simp
  have "split_all line_end ?f = ?l # split_n line_end (Suc m) []"
    unfolding split_all_def m using split_n_sep(1)[of line_end ?l m "[]"] assms(1,3) by simp
  moreover have "\<not> torn_tail ?f" by (simp add: torn_tail_def)
  ultimately have "journal_replay J recover_entry ?f ([], empty_state ?f) = None"
    using assms(2,4) by (simp add: journal_replay_def)
  then show ?thesis by (simp add: journal_append_def journal_line_def recover_state_def)
qed

section \<open>Properties\<close>

text \<open>C5: a restart finds exactly the calls whose result was written. Take any run of the agent's state with
  concurrent calls, failing side effects, writes that fail with none, some or all of the bytes of their line in
  the file, and earlier crashes and restarts, and let the process stop and leave any part of a further line at
  the end of the journal. Then \<^verbatim>\<open>New\<close> succeeds, no call is in flight, and the leases, the lease of each
  Sandbox, the reference counts of each image and the recorded outcomes are those of the calls whose result
  line is whole in the file, one after the other. When every result since the last start was written, they are
  those of the memory before the stop, except for outcomes that were only remembered for an existing lease.
  The requests are those the server accepts, and a new lease has an identifier that no lease in memory or of
  the written calls has. Every entry whose line is whole survives the JSON codec, marshalled entries have no
  line break, after a write that left a part of a line no other write follows before the next start, and no
  earlier restart found the first line of the file torn.\<close>

theorem recovery_restores_state:
  assumes "node_run J n" "\<forall>e \<in> set (nd_log n). survives J e" "line_end \<notin> set torn"
  shows "\<exists>s'. recover_state J (ag_file (nd_state n) @ torn) = Some s' \<and> ag_inflight s' = [] \<and>
    ag_leases s' = ag_leases (committed (nd_calls n)) \<and> ag_bySandbox s' = ag_bySandbox (committed (nd_calls n)) \<and>
    (\<forall>img. image_entry img s' = image_entry img (committed (nd_calls n))) \<and>
    ag_completed s' = ag_completed (committed (nd_calls n)) \<and>
    (nd_lost n = [] \<longrightarrow> ag_leases s' = ag_leases (nd_state n) \<and> ag_bySandbox s' = ag_bySandbox (nd_state n) \<and>
       (\<forall>img. image_entry img s' = image_entry img (nd_state n)) \<and>
       (\<forall>r. r \<notin> set (nd_remembered n) \<longrightarrow> gm_get (ag_completed s') r = gm_get (ag_completed (nd_state n)) r))"
proof -
  note ok = node_run_ok[OF assms(1,2)]
  obtain intents d f where rec: "recover_state J (ag_file (nd_state n) @ torn) = Some (d\<lparr>ag_file := f\<rparr>)"
      "same_tables (committed (nd_calls n)) d" "ag_completed d = ag_completed (committed (nd_calls n))" "ag_inflight d = []"
    using recover_committed[OF ok assms(2,3)] by blast
  moreover have "image_entry img (d\<lparr>ag_file := f\<rparr>) = image_entry img d" for img by (simp add: image_entry_def)
  moreover have "nd_lost n = [] \<longrightarrow> same_tables (nd_state n) (committed (nd_calls n)) \<and>
      same_outcomes (nd_remembered n) (nd_state n) (committed (nd_calls n))"
    using ok by (simp add: node_ok_def memory_ok_def)
  ultimately show ?thesis by (simp add: same_tables_def same_outcomes_def)
qed

definition sample_identity :: "string \<Rightarrow> identity" where
  "sample_identity q = \<lparr>id_RequestID = q, id_Namespace = ''n'', id_PodUID = ''p''\<rparr>"

definition sample_args :: op_args where
  "sample_args = LeaseDevicesArgs ''sb'' ''i'' 1 False"

definition sample_lease :: "string \<Rightarrow> string \<Rightarrow> lease" where
  "sample_lease q k = service_lease (sample_identity q) ''sb'' ''i'' ''/r'' [] 1 k"

definition sample_log :: "journal_entry list" where
  "sample_log = [intent_entry 1 (sample_identity ''q'') sample_args,
     result_entry 2 (sample_identity ''q'') sample_args (LeaseResult (sample_lease ''q'' ''l''))]"

text \<open>The entries of a release and of a second lease, whose writes are used below.\<close>

definition sample_entries :: "journal_entry list" where
  "sample_entries = sample_log @ [intent_entry 3 (sample_identity ''u'') (ReleaseDevicesArgs ''l''),
     intent_entry 4 (sample_identity ''v'') sample_args,
     result_entry 4 (sample_identity ''v'') sample_args (LeaseResult (sample_lease ''v'' ''m''))]"

definition sample_marshal :: "journal_entry \<Rightarrow> string" where
  "sample_marshal e = je_RequestID e @ (if je_Result e = None then ''i'' else ''r'')"

definition sample_codec :: json_codec where
  "sample_codec = \<lparr>jc_Marshal = sample_marshal, jc_Unmarshal = (\<lambda>l. List.find (\<lambda>e. sample_marshal e = l) sample_entries)\<rparr>"

definition sample_started_state :: agent_state where
  "sample_started_state = snd (begin_run sample_codec Appended 1 (sample_identity ''q'') sample_args (empty_state []))"

definition sample_leased_state :: agent_state where
  "sample_leased_state = snd (commit_run sample_codec AppendUnsynced 2 (sample_identity ''q'') sample_args
     (LeaseResult (sample_lease ''q'' ''l'')) sample_started_state)"

definition sample_node :: node where
  "sample_node = \<lparr>nd_state = finish_run ''q'' sample_leased_state, nd_log = sample_log, nd_tail = [],
     nd_calls = [(sample_identity ''q'', sample_args, LeaseResult (sample_lease ''q'' ''l''))], nd_lost = [],
     nd_remembered = [], nd_intact = True\<rparr>"

lemma sample_survives: "\<forall>e \<in> set (nd_log sample_node). survives sample_codec e"
  by code_simp

lemma sample_node_run: "node_run sample_codec sample_node"
proof -
  let ?n1 = "fresh_node\<lparr>nd_log := [intent_entry 1 (sample_identity ''q'') sample_args], nd_state := sample_started_state\<rparr>"
  let ?n2 = "sample_node\<lparr>nd_state := sample_leased_state\<rparr>"
  let ?c = "\<lparr>fl_id = sample_identity ''q'', fl_args = sample_args, fl_committed = False\<rparr>"
  let ?r = "LeaseResult (sample_lease ''q'' ''l'')"
  have "fst (begin_run sample_codec Appended 1 (sample_identity ''q'') sample_args (empty_state [])) = RunStarted" by code_simp
  then have run: "begin_run sample_codec Appended 1 (sample_identity ''q'') sample_args (nd_state fresh_node) = (RunStarted, sample_started_state)"
    unfolding sample_started_state_def fresh_node_def by (metis node.select_convs(1) prod.collapse)
  have free: "sandbox_free sample_args (nd_state fresh_node)"
    by (simp add: sandbox_free_def sandbox_locked_def sample_args_def empty_state_def fresh_node_def)
  have tail: "nd_tail fresh_node = []" "nd_tail ?n1 = []" by (simp_all add: fresh_node_def)
  have bytes: "line_end \<notin> set (jc_Marshal sample_codec e)" if "e \<in> set sample_entries" for e
    using that by (auto simp: sample_entries_def sample_log_def sample_codec_def sample_marshal_def intent_entry_def
        result_entry_def sample_identity_def line_end_def)
  have "node_step sample_codec fresh_node ?n1"
    using node_step.start[OF run _ tail(1) bytes _ _ free]
    by (simp add: whole_def logged_def sample_identity_def sample_args_def sample_entries_def sample_log_def fresh_node_def)
  then have run1: "node_run sample_codec ?n1" by (rule node_run.further[OF node_run.fresh])
  have c: "gm_get (ag_inflight (nd_state ?n1)) ''q'' = Some ?c" by code_simp
  have none: "gm_get (ag_leases sample_started_state) ''l'' = None" by code_simp
  have fit: "fitting_result (fl_id ?c) (fl_args ?c) (nd_state ?n1) ?r" "fitting_result (fl_id ?c) (fl_args ?c) (committed (nd_calls ?n1)) ?r"
    using none by (auto simp: sample_args_def sample_lease_def committed_def fresh_node_def empty_state_def)
  have com: "commit_run sample_codec AppendUnsynced 2 (fl_id ?c) (fl_args ?c) ?r (nd_state ?n1) =
      (fst (commit_run sample_codec AppendUnsynced 2 (sample_identity ''q'') sample_args ?r sample_started_state), sample_leased_state)"
    by (simp add: sample_leased_state_def)
  have "node_step sample_codec ?n1 ?n2"
    using node_step.commit[OF c _ tail(2) fit refl bytes com]
    by (simp add: whole_def logged_def sample_node_def sample_entries_def sample_log_def fresh_node_def)
  then have "node_run sample_codec ?n2" by (rule node_run.further[OF run1])
  from node_run.further[OF this node_step.return[of _ ?n2 "''q''"]] show ?thesis by (simp add: sample_node_def)
qed

theorem recovery_restores_state_witness:
  "\<exists>s'. recover_state sample_codec (ag_file (nd_state sample_node) @ ''q'') = Some s' \<and>
     gm_get (ag_leases s') ''l'' = Some (sample_lease ''q'' ''l'')"
proof -
  have "line_end \<notin> set ''q''" by (simp add: line_end_def)
  from recovery_restores_state[OF sample_node_run sample_survives this]
  obtain s' where "recover_state sample_codec (ag_file (nd_state sample_node) @ ''q'') = Some s'"
      "ag_leases s' = ag_leases (committed (nd_calls sample_node))" by blast
  moreover have "gm_get (ag_leases (committed (nd_calls sample_node))) ''l'' = Some (sample_lease ''q'' ''l'')" by code_simp
  ultimately show ?thesis by auto
qed

text \<open>C8: leases and reference counts agree. In every such run the lease count of an image is the number of
  leases on it, so that an image in use never has the count zero. As long as no start has followed upon a
  result that could not be written, a Sandbox has at most one lease, and the index by Sandbox finds exactly
  it.\<close>

theorem lease_tables_agree:
  assumes "node_run J n" "\<forall>e \<in> set (nd_log n). survives J e"
  shows "(nd_intact n \<longrightarrow> (\<forall>b l. sandbox_lease b (nd_state n) = Some l \<longleftrightarrow>
      l \<in> set (gm_vals (ag_leases (nd_state n))) \<and> le_SandboxID l = b)) \<and>
    (\<forall>img. ir_leaseCount (image_entry img (nd_state n)) =
       int (length (filter (\<lambda>l. le_Image l = img) (gm_vals (ag_leases (nd_state n))))))"
proof -
  let ?s = "nd_state n"
  have counts: "counts_ok ?s" and index: "nd_intact n \<Longrightarrow> index_ok ?s"
    using node_run_ok[OF assms] by (simp_all add: node_ok_def memory_ok_def)
  then have wf: "gm_wf (ag_leases ?s)" by (simp add: counts_ok_def)
  have "sandbox_lease b ?s = Some l \<longleftrightarrow> l \<in> set (gm_vals (ag_leases ?s)) \<and> le_SandboxID l = b" if intact: "nd_intact n" for b l
  proof
    assume "sandbox_lease b ?s = Some l"
    then obtain k where k: "gm_get (ag_bySandbox ?s) b = Some k" by (auto simp: sandbox_lease_def split: option.splits)
    obtain m where "gm_get (ag_leases ?s) k = Some m" "le_SandboxID m = b" using index_okD(2)[OF index[OF intact] k] by blast
    then show "l \<in> set (gm_vals (ag_leases ?s)) \<and> le_SandboxID l = b"
      using \<open>sandbox_lease b ?s = Some l\<close> k gm_vals_iff[OF wf, of l] by (auto simp: sandbox_lease_def)
  next
    assume a: "l \<in> set (gm_vals (ag_leases ?s)) \<and> le_SandboxID l = b"
    then obtain k where k: "gm_get (ag_leases ?s) k = Some l" using gm_vals_iff[OF wf, of l] by blast
    then show "sandbox_lease b ?s = Some l" using index_okD(1)[OF index[OF intact] k] a by (simp add: sandbox_lease_def)
  qed
  then show ?thesis using counts by (simp add: counts_ok_def lease_count_def)
qed

theorem lease_tables_agree_witness:
  "sandbox_lease ''sb'' (nd_state sample_node) = Some (sample_lease ''q'' ''l'') \<and>
   ir_leaseCount (image_entry ''i'' (nd_state sample_node)) = 1"
proof -
  note t = lease_tables_agree[OF sample_node_run sample_survives]
  have "sample_lease ''q'' ''l'' \<in> set (gm_vals (ag_leases (nd_state sample_node))) \<and> le_SandboxID (sample_lease ''q'' ''l'') = ''sb''" by code_simp
  moreover have "length (filter (\<lambda>l. le_Image l = ''i'') (gm_vals (ag_leases (nd_state sample_node)))) = 1" by code_simp
  moreover have "nd_intact sample_node" by (simp add: sample_node_def)
  ultimately show ?thesis using t by simp
qed

text \<open>What the two calls below do to the state, each on its own.\<close>

lemma run_new:
  assumes "gm_get (ag_completed s) (id_RequestID i) = None" "gm_get (ag_inflight s) (id_RequestID i) = None"
    and "run J (Appended, out) now i args (Some result) s = (res, s')"
  shows "res = (if fst (journal_append J out (result_entry now i args result) []) then Inr result else Inl AgentJournal) \<and>
    ag_file s' = snd (journal_append J out (result_entry now i args result) (ag_file s @ journal_line J (intent_entry now i args))) \<and>
    ag_completed s' = gm_put (id_RequestID i) (outcome_of i args result) (ag_completed s) \<and>
    gm_get (ag_inflight s') (id_RequestID i) = None \<and>
    (\<forall>q. q \<noteq> id_RequestID i \<longrightarrow> gm_get (ag_inflight s') q = gm_get (ag_inflight s) q) \<and>
    ag_leases s' = ag_leases (apply_result args result s) \<and> ag_bySandbox s' = ag_bySandbox (apply_result args result s)"
proof -
  let ?s = "s\<lparr>ag_file := ag_file s @ journal_line J (intent_entry now i args),
    ag_inflight := gm_put (id_RequestID i) \<lparr>fl_id = i, fl_args = args, fl_committed = False\<rparr> (ag_inflight s)\<rparr>"
  have b: "begin_run J Appended now i args s = (RunStarted, ?s)" using assms(1,2) by (simp add: begin_run_def journal_append_def)
  obtain ok t where c: "commit_run J out now i args result ?s = (ok, t)" by (metis prod.collapse)
  note t = commit_run_state[OF c refl]
  have ok: "ok = fst (journal_append J out (result_entry now i args result) [])"
    using c by (auto simp: commit_run_def journal_append_def Let_def split: append_outcome.splits)
  have "ag_leases (apply_result args result ?s) = ag_leases (apply_result args result s)"
      "ag_bySandbox (apply_result args result ?s) = ag_bySandbox (apply_result args result s)"
    by (cases args; simp add: add_pin_def drop_pin_def add_lease_def drop_lease_def split: option.split)+
  then show ?thesis using assms(3) ok by (auto simp: run_def b c t finish_run_def Let_def split: if_splits)
qed

lemma ReleaseDevices_new:
  assumes "gm_get (ag_leases s) k = Some l" "le_PodUID l = id_PodUID i" "gm_get (ag_completed s) (id_RequestID i) = None"
    "gm_get (ag_inflight s) (id_RequestID i) = None" "ReleaseDevices J (Appended, AppendTorn 0) now i k s = (err, s')"
  shows "err = Some AgentJournal" "ag_file s' = ag_file s @ journal_line J (intent_entry now i (ReleaseDevicesArgs k))"
    "ag_completed s' = gm_put (id_RequestID i) (outcome_of i (ReleaseDevicesArgs k) EmptyResult) (ag_completed s)"
    "\<forall>q. q \<noteq> id_RequestID i \<longrightarrow> gm_get (ag_inflight s') q = gm_get (ag_inflight s) q"
    "ag_leases s' = gm_del k (ag_leases s)" "ag_bySandbox s' = gm_del (le_SandboxID l) (ag_bySandbox s)"
proof -
  obtain res where r: "run J (Appended, AppendTorn 0) now i (ReleaseDevicesArgs k) (Some EmptyResult) s = (res, s')"
      "err = (case res of Inl e \<Rightarrow> Some e | Inr _ \<Rightarrow> None)"
    using assms(1,2,5) by (auto simp: ReleaseDevices_def foreign_lease_def split: prod.splits sum.splits)
  from run_new[OF assms(3,4) r(1)] show "err = Some AgentJournal"
      "ag_file s' = ag_file s @ journal_line J (intent_entry now i (ReleaseDevicesArgs k))"
      "ag_completed s' = gm_put (id_RequestID i) (outcome_of i (ReleaseDevicesArgs k) EmptyResult) (ag_completed s)"
      "\<forall>q. q \<noteq> id_RequestID i \<longrightarrow> gm_get (ag_inflight s') q = gm_get (ag_inflight s) q"
      "ag_leases s' = gm_del k (ag_leases s)" "ag_bySandbox s' = gm_del (le_SandboxID l) (ag_bySandbox s)"
    using r(2) assms(1) by (simp_all add: journal_append_def drop_lease_def)
qed

text \<open>C39: a release whose result cannot be written comes back with a second lease. Take a run in which every
  result since the last start was written, and a Sandbox with a lease. The owner releases the lease, the
  intent is written and the result is not: the call reports an error, but a retry of the same request is
  answered with success from memory, without a word to the journal. The Sandbox is then leased again under
  a new request, which works. After a restart both leases are there, for one Sandbox, and the index by
  Sandbox finds only the second. The two requests run one after the other with new identifiers, the lease
  identifiers differ, no bytes of a failed write are at the end of the file, and the entries written survive
  the JSON codec.\<close>

theorem lost_release_doubles_lease:
  assumes run: "node_run J n" "\<forall>e \<in> set (nd_log n). survives J e" "nd_tail n = []" "nd_lost n = []"
    and lease: "gm_get (ag_leases (nd_state n)) k = Some l" "le_PodUID l = id_PodUID i"
    and new: "\<forall>q \<in> {id_RequestID i, id_RequestID i2}. q \<noteq> [] \<and> gm_get (ag_completed (nd_state n)) q = None \<and>
        gm_get (ag_inflight (nd_state n)) q = None" "id_RequestID i \<noteq> id_RequestID i2"
    and l2: "l2 = service_lease i2 (le_SandboxID l) img rootfsDev memDev created k2" "k2 \<noteq> k"
    and args: "args2 = LeaseDevicesArgs (le_SandboxID l) img mem w"
    and bytes: "\<forall>e \<in> {intent_entry now i (ReleaseDevicesArgs k), intent_entry now2 i2 args2, result_entry now2 i2 args2 (LeaseResult l2)}. survives J e"
    and first: "ReleaseDevices J (Appended, AppendTorn 0) now i k (nd_state n) = (err, s1)"
    and second: "LeaseDevices J (Appended, Appended) now2 i2 (le_SandboxID l) img mem w (Some l2) s1 = (res, s2)"
  shows "err = Some AgentJournal \<and> ReleaseDevices J outs now3 i k s1 = (None, s1) \<and> res = Inr l2 \<and>
    (\<exists>s'. recover_state J (ag_file s2) = Some s' \<and> gm_get (ag_leases s') k = Some l \<and> gm_get (ag_leases s') k2 = Some l2 \<and>
       le_SandboxID l2 = le_SandboxID l \<and> sandbox_lease (le_SandboxID l) s' = Some l2)"
proof -
  let ?s = "nd_state n" and ?e1 = "intent_entry now i (ReleaseDevicesArgs k)" and ?e2 = "intent_entry now2 i2 args2"
    and ?e3 = "result_entry now2 i2 args2 (LeaseResult l2)"
  have "gm_get (ag_completed ?s) (id_RequestID i) = None" "gm_get (ag_inflight ?s) (id_RequestID i) = None" using new(1) by simp_all
  note rel = ReleaseDevices_new[OF lease this first]
  have "gm_get (ag_leases s1) k = None" "gm_get (ag_bySandbox s1) (le_SandboxID l) = None" using rel(5,6) by simp_all
  then have retry: "ReleaseDevices J outs now3 i k s1 = (None, s1)"
    using rel(3) by (simp add: ReleaseDevices_def foreign_lease_def run_def begin_run_def outcome_of_def set_result_def)
  have "gm_get (ag_completed s1) (id_RequestID i2) = None" "gm_get (ag_inflight s1) (id_RequestID i2) = None"
    using new rel(3,4) by auto
  moreover obtain r where r: "LeaseDevices J (Appended, Appended) now2 i2 (le_SandboxID l) img mem w (Some l2) s1 =
      (case r of Inl err \<Rightarrow> Inl err | Inr result \<Rightarrow> Inr (result_lease result), s2)"
      "run J (Appended, Appended) now2 i2 args2 (Some (LeaseResult l2)) s1 = (r, s2)"
    using second \<open>gm_get (ag_bySandbox s1) (le_SandboxID l) = None\<close>
    by (auto simp: LeaseDevices_def sandbox_lease_def args split: prod.splits sum.splits)
  ultimately have lea: "r = Inr (LeaseResult l2)" "ag_file s2 = ag_file ?s @ journal_line J ?e1 @ journal_line J ?e2 @ journal_line J ?e3"
    using run_new[OF _ _ r(2)] rel(2) by (simp_all add: journal_append_def)
  obtain intents d where d: "replayed (nd_log n) = Some (intents, d)" "same_tables (committed (nd_calls n)) d"
      "ag_file ?s = journal_file J (nd_log n)" "same_tables ?s (committed (nd_calls n))"
    using node_run_ok[OF run(1,2)] run(3,4) by (auto simp: node_ok_def file_ok_def memory_ok_def)
  let ?d = "complete ?e2 [] (Some l2) (add_lease l2 d)"
  have rep1: "replayed (nd_log n @ [?e1]) = Some (gm_put (id_RequestID i) ?e1 intents, d)"
    using replayed_snoc[OF d(1), of ?e1] recover_intent new(1) by simp
  have rep2: "replayed ((nd_log n @ [?e1]) @ [?e2]) = Some (gm_put (id_RequestID i2) ?e2 (gm_put (id_RequestID i) ?e1 intents), d)"
    using replayed_snoc[OF rep1, of ?e2] recover_intent new(1) by simp
  have "replayApply ?e2 (LeaseResult l2) d = Some ?d" by (simp add: replayApply_def intent_entry_def args)
  then obtain "is" where "replayed (((nd_log n @ [?e1]) @ [?e2]) @ [?e3]) = Some (is, ?d)"
    using replayed_snoc[OF rep2, of ?e3] by (simp add: recover_entry_def result_entry_def)
  then have rep: "replayed (nd_log n @ [?e1, ?e2, ?e3]) = Some (is, ?d)" by simp
  have "\<forall>e \<in> set (nd_log n @ [?e1, ?e2, ?e3]). survives J e" using run(2) bytes by auto
  from recover_state_file[OF this _ rep, of "[]"] obtain f where f: "recover_state J (ag_file s2) = Some (?d\<lparr>ag_file := f\<rparr>)"
    by (auto simp: lea(2) d(3) journal_file_def)
  have "gm_get (ag_leases d) k = Some l" using d(2,4) lease(1) by (simp add: same_tables_def)
  then have "gm_get (ag_leases (?d\<lparr>ag_file := f\<rparr>)) k = Some l" "gm_get (ag_leases (?d\<lparr>ag_file := f\<rparr>)) k2 = Some l2"
      "sandbox_lease (le_SandboxID l) (?d\<lparr>ag_file := f\<rparr>) = Some l2"
    using l2 by (simp_all add: complete_def add_lease_def sandbox_lease_def service_lease_def)
  moreover have "res = Inr l2" using r(1) lea(1) second by simp
  ultimately show ?thesis using rel(1) retry f l2(1) by (simp add: service_lease_def)
qed

theorem lost_release_doubles_lease_witness:
  "let s1 = snd (ReleaseDevices sample_codec (Appended, AppendTorn 0) 3 (sample_identity ''u'') ''l'' (nd_state sample_node));
       s2 = snd (LeaseDevices sample_codec (Appended, Appended) 4 (sample_identity ''v'') ''sb'' ''i'' 1 False (Some (sample_lease ''v'' ''m'')) s1)
   in \<exists>s'. recover_state sample_codec (ag_file s2) = Some s' \<and> gm_get (ag_leases s') ''l'' \<noteq> None \<and> gm_get (ag_leases s') ''m'' \<noteq> None"
proof -
  let ?r1 = "ReleaseDevices sample_codec (Appended, AppendTorn 0) 3 (sample_identity ''u'') ''l'' (nd_state sample_node)"
  let ?r2 = "LeaseDevices sample_codec (Appended, Appended) 4 (sample_identity ''v'') ''sb'' ''i'' 1 False (Some (sample_lease ''v'' ''m'')) (snd ?r1)"
  have l: "gm_get (ag_leases (nd_state sample_node)) ''l'' = Some (sample_lease ''q'' ''l'')" by code_simp
  have b: "le_SandboxID (sample_lease ''q'' ''l'') = ''sb''" "le_PodUID (sample_lease ''q'' ''l'') = id_PodUID (sample_identity ''u'')" by code_simp+
  have new: "\<forall>q \<in> {id_RequestID (sample_identity ''u''), id_RequestID (sample_identity ''v'')}. q \<noteq> [] \<and>
      gm_get (ag_completed (nd_state sample_node)) q = None \<and> gm_get (ag_inflight (nd_state sample_node)) q = None" by code_simp
  have l2: "sample_lease ''v'' ''m'' = service_lease (sample_identity ''v'') (le_SandboxID (sample_lease ''q'' ''l'')) ''i'' ''/r'' [] 1 ''m''"
    by code_simp
  have bytes: "\<forall>e \<in> {intent_entry 3 (sample_identity ''u'') (ReleaseDevicesArgs ''l''),
      intent_entry 4 (sample_identity ''v'') (LeaseDevicesArgs (le_SandboxID (sample_lease ''q'' ''l'')) ''i'' 1 False),
      result_entry 4 (sample_identity ''v'') (LeaseDevicesArgs (le_SandboxID (sample_lease ''q'' ''l'')) ''i'' 1 False)
        (LeaseResult (sample_lease ''v'' ''m''))}. survives sample_codec e" by code_simp
  have first: "?r1 = (fst ?r1, snd ?r1)" by simp
  have second: "LeaseDevices sample_codec (Appended, Appended) 4 (sample_identity ''v'') (le_SandboxID (sample_lease ''q'' ''l'')) ''i'' 1 False
      (Some (sample_lease ''v'' ''m'')) (snd ?r1) = (fst ?r2, snd ?r2)" by (simp add: b(1))
  have ids: "id_RequestID (sample_identity ''u'') \<noteq> id_RequestID (sample_identity ''v'')" "''m'' \<noteq> ''l''"
      "nd_tail sample_node = []" "nd_lost sample_node = []"
    by (simp_all add: sample_identity_def sample_node_def)
  from lost_release_doubles_lease[OF sample_node_run sample_survives ids(3,4) l b(2) new ids(1) l2 ids(2) refl bytes first second]
  show ?thesis unfolding Let_def by blast
qed

end
