(* ===== verification/Spec2Isabelle.thy ===== *)
theory Spec2Isabelle
  imports Image_Cache Resource_Profile Placement_Selection Placement_Ledger Placement_Heartbeat
    Route_Publisher Fastlet_Proxy
    Memory_Observer Network_Close Lease_Recovery
begin

text \<open>
  Verification of Fast Sandbox.

  \<^bold>\<open>The program.\<close> Fast Sandbox runs many short-lived Sandboxes on Kubernetes nodes. A controller keeps a
  registry of Fastlets, the Pods that host Sandboxes, fed by a Pod watch and by heartbeats, and picks Fastlets
  for new Sandboxes from it. A Fastlet tracks the images of its node, watches its memory, gives each Sandbox
  a prepared network slot, and publishes a route for it. A proxy in the Fastlet's Pod forwards a request
  to a Sandbox when it carries a credential for the current route.

  \<^bold>\<open>Shared theories.\<close> \<^verbatim>\<open>Prelude\<close> has Go's integers, times, byte strings, maps, sorting and searching.
  A Go map is a list of pairs with distinct keys whose order stands for one iteration order, so results that
  must not depend on the order are proved for every permutation. \<^verbatim>\<open>Go_Text\<close>, \<^verbatim>\<open>Go_Net\<close>, \<^verbatim>\<open>Go_Base64\<close> and
  \<^verbatim>\<open>Go_Path\<close> model what the source uses of \<^verbatim>\<open>strings\<close>, \<^verbatim>\<open>strconv\<close>, \<^verbatim>\<open>net/url\<close>, \<^verbatim>\<open>net/netip\<close>,
  \<^verbatim>\<open>encoding/base64\<close>, \<^verbatim>\<open>encoding/hex\<close> and \<^verbatim>\<open>path/filepath\<close>.

  \<^bold>\<open>Placement.\<close> \<^verbatim>\<open>Fastlet_Protocol\<close> has the messages of \<^verbatim>\<open>internal/protocol/fastlet/types.go\<close> that the
  registry reads, \<^verbatim>\<open>Resource_Profile\<close> the resource rules of \<^verbatim>\<open>api/v1alpha2/resource_profile.go\<close>, and
  \<^verbatim>\<open>Placement\<close> the registry of \<^verbatim>\<open>internal/controlplane/placement/registry.go\<close>: a record for the registry and
  one function per method. Kubernetes quantities are an argument with the laws \<^verbatim>\<open>quantity_laws\<close>.
  \<^verbatim>\<open>Placement_Selection\<close> shows that \<^verbatim>\<open>TopK\<close> returns the best eligible Fastlets and only safe ones, independent
  of map order; \<^verbatim>\<open>Placement_Ledger\<close> that reservations stay within capacity and are undone by releases;
  \<^verbatim>\<open>Placement_Heartbeat\<close> that heartbeats of one process count at most once, that those of the same admission
  epoch that carry nothing newer do not undo a rejection, what an image hit says about the Fastlet's listing,
  and, with \<^verbatim>\<open>probeOne\<close> of \<^verbatim>\<open>fastletcontrol/loop.go\<close>, how a failed listing loses the images.

  \<^bold>\<open>Images.\<close> \<^verbatim>\<open>Image_Cache\<close> models \<^verbatim>\<open>internal/fastlet/cache\<close>: the inventory tracker and the protection
  index, which is shown to implement reference counting per reason, so that eviction plans respect holders.

  \<^bold>\<open>Memory admission.\<close> \<^verbatim>\<open>Memory_Observer\<close> models \<^verbatim>\<open>internal/fastlet/resourceadmission\<close>: the reading of the
  kernel's files and the state machine that opens and blocks admission. \<^verbatim>\<open>float64\<close> is a rational number
  rounded after each operation.

  \<^bold>\<open>Routes and the proxy.\<close> \<^verbatim>\<open>Data_Plane\<close> has the contract types and route paths of
  \<^verbatim>\<open>internal/dataplane/contract\<close>, \<^verbatim>\<open>Route_Store\<close> the store of \<^verbatim>\<open>internal/dataplane/fastletproxy/store.go\<close> with
  its watchers, \<^verbatim>\<open>Route_Publisher\<close> the control calls and the publisher when calls and replies are lost,
  \<^verbatim>\<open>Route_Auth\<close> the credentials of \<^verbatim>\<open>internal/dataplane/auth/credential.go\<close>, and \<^verbatim>\<open>Fastlet_Proxy\<close> the
  handler of \<^verbatim>\<open>proxy.go\<close>. Deleted routes never return, a generation names one target, watchers miss nothing, a
  removal can be retried and spares routes of another generation, and what is forwarded is authorised. Ed25519 and the JSON codec of claims are an
  argument.

  \<^bold>\<open>Network slots.\<close> These are the theories of \<^verbatim>\<open>internal/fastlet/network\<close>. \<^verbatim>\<open>Network_IPAM\<close> has the address
  allocator and the check for overlapping routes, which is exact on lines that start with a destination, \<^verbatim>\<open>Network_Slot\<close> the slots and their files, where a write
  may fail before or after it is visible, \<^verbatim>\<open>Network_Driver\<close> both drivers as the sequences of host calls
  they issue against an arbitrary host, with the order of the firewall rules that isolate a guest, and \<^verbatim>\<open>Network_Manager\<close> the manager: the sections it runs under
  its lock and the operations composed of them. \<^verbatim>\<open>Network_Invariant\<close> has the invariant of these sections,
  \<^verbatim>\<open>Network_Runs\<close> the interleaving of concurrent calls as a step relation, in whose runs slots never clash
  and acquired slots stay, and \<^verbatim>\<open>Network_Close\<close> closing and releasing. SHA-256 is an argument.

  \<^bold>\<open>Leases of the node agent.\<close> These are the theories of \<^verbatim>\<open>internal/runtime/firecracker/agent/state\<close>, the
  durable state of the agent that serves images to virtual machines. \<^verbatim>\<open>Lease_Journal\<close> has the journal file as
  bytes, \<^verbatim>\<open>Lease_State\<close> the tables, the sections of the journaled execution, the four operations and the
  recovery, and \<^verbatim>\<open>Lease_Recovery\<close> interleaved runs with failing writes, crashes and restarts. The record
  \<^verbatim>\<open>node\<close> adds to the state what the program does not keep: which lines and which results are whole in the
  file, and which results were lost. Recovery rebuilds exactly the calls whose result was written, the tables
  agree with the reference counts, and a lost result of a release leads to two leases for one Sandbox. Writes
  behind a part of a line, which make the journal unreadable, are outside the runs. The JSON codec is an
  argument.

  \<^bold>\<open>Interfaces.\<close> The locales are \<^verbatim>\<open>map_contract\<close> and \<^verbatim>\<open>key_comparator\<close> in \<^verbatim>\<open>Prelude\<close> and \<^verbatim>\<open>slot_driver\<close>
  in \<^verbatim>\<open>Network_Driver\<close>; each is interpreted on the definitions of
  the model.

  \<^bold>\<open>Bounds and termination.\<close> There is no fuel. Loops are structural or have a termination proof:
  \<^verbatim>\<open>Replenish\<close> fills free capacity, \<^verbatim>\<open>allocate_from\<close> climbs through 32-bit addresses, and the binary search
  halves its interval. \<^verbatim>\<open>Close\<close> of the slot manager may run forever, so it is a partial function into
  \<^typ>\<open>'a option\<close>, and that it returns is proved for finitely many failing calls. Counters of the Go type
  \<^verbatim>\<open>uint64\<close> are words; sums of amounts are wrapped where the source adds them.

  \<^bold>\<open>Not modelled.\<close> Metrics, tracing and logging have no effect on results. The reconcilers, the
  orchestrator and the fast-path server work through the Kubernetes API server, whose client would need a
  model of its own first. The Sandbox manager of the Fastlet, its actions and infra components, and the
  Sandbox Proxy are left out. The runtime drivers, the rest of the Firecracker agent, the template builder, the VM tool
  and the janitor mostly drive processes, devices, mounts and registries. Generated code, command-line
  programs and test support are left out. Of the modelled packages, sockets, HTTP routing, the streaming of
  watch events, timer loops, and the hash of a resource profile are left out.
\<close>

end
